theory Spec2Isabelle
  imports Complex_Main
begin

section \<open>Values, errors and the metric aggregator\<close>

text \<open>
  A Python float is a finite number, an infinity or a NaN; \<open>math.isfinite\<close> is true of
  the first kind only. A finite float is given by the real number it denotes. The drivers
  pass losses, accuracies and learning rates on without computing with them; the one float
  computation of their own, the coordinate of the structured log, is rounded to double
  precision as set out below.
\<close>

datatype pyfloat = Fin real | PosInf | NegInf | NaN

fun isfinite :: "pyfloat \<Rightarrow> bool" where
  "isfinite (Fin _) = True"
| "isfinite PosInf = False"
| "isfinite NegInf = False"
| "isfinite NaN = False"

text \<open>
  Every way the two drivers can stop early: \<open>sys.exit(1)\<close> in the stability guard, and
  the uncaught exceptions of indexing, dictionary lookup, reshaping, division, conversion
  between integers and floats, and file output.
\<close>

datatype error =
    SystemExit int
  | IndexError
  | KeyError
  | ValueError
  | AxisError
  | ZeroDivisionError
  | OverflowError
  | FileNotFoundError

text \<open>
  Modelled from the spec: \<open>utils.MetricLogger\<close> and \<open>utils.SmoothedValue\<close> are not
  among the sources at hand (only \<open>engine.py\<close> is). The spec describes the aggregator as a mapping from metric name to a running
  statistic with a per-name scalar update, optionally weighted by a count, a cross-worker
  reduction and a global-average readout, and leaves the averaging arithmetic out of scope.
  A meter is therefore the sequence of the weighted samples recorded into it; the update
  without a count records the sample with count 1; the reduction and the readout are
  parameters of the drivers. What the aggregator does when the summary line reads a meter
  that no batch has updated is not described and not modelled.
\<close>

type_synonym meter = "(pyfloat \<times> nat) list"

type_synonym metric_logger = "string \<rightharpoonup> meter"

definition meter_update :: "string \<Rightarrow> pyfloat \<Rightarrow> nat \<Rightarrow> metric_logger \<Rightarrow> metric_logger" where
  "meter_update k v n ml = ml(k \<mapsto> (case ml k of None \<Rightarrow> [] | Some m \<Rightarrow> m) @ [(v, n)])"

definition logger_update :: "string \<Rightarrow> pyfloat \<Rightarrow> metric_logger \<Rightarrow> metric_logger" where
  "logger_update k v ml = meter_update k v 1 ml"

definition add_meter :: "string \<Rightarrow> metric_logger \<Rightarrow> metric_logger" where
  "add_meter k ml = ml(k \<mapsto> [])"

definition synchronize_between_processes :: "(meter \<Rightarrow> meter) \<Rightarrow> metric_logger \<Rightarrow> metric_logger" where
  "synchronize_between_processes reduce ml = (\<lambda>k. map_option reduce (ml k))"

definition global_avgs :: "(meter \<Rightarrow> pyfloat) \<Rightarrow> metric_logger \<Rightarrow> (string \<rightharpoonup> pyfloat)" where
  "global_avgs global_avg ml = (\<lambda>k. map_option global_avg (ml k))"

subsection \<open>Double-precision arithmetic\<close>

text \<open>
  A Python float is an IEEE 754 binary64 number, and a float operation returns its exact
  result rounded to the nearest double, a tie going to the double with the even
  significand. \<open>bit_length\<close> is \<open>int.bit_length\<close>, and \<open>exponent x\<close> is the integer
  \<open>e\<close> with \<open>2 powi e \<le> x < 2 powi (e + 1)\<close> for a positive \<open>x\<close>. The doubles
  around \<open>x\<close> are the multiples of \<open>quantum x\<close>: 53 significant bits for a normal number,
  and the fixed spacing \<open>2 powi (- 1074)\<close> of the subnormal numbers below
  \<open>2 powi (- 1022)\<close>.
\<close>

fun bit_length :: "nat \<Rightarrow> nat" where
  "bit_length n = (if n = 0 then 0 else Suc (bit_length (n div 2)))"

declare bit_length.simps [simp del]

definition exponent :: "real \<Rightarrow> int" where
  "exponent x = (if 1 \<le> x then int (bit_length (nat \<lfloor>x\<rfloor>)) - 1
                 else - int (bit_length (nat \<lceil>1 / x\<rceil> - 1)))"

definition quantum :: "real \<Rightarrow> real" where
  "quantum x = 2 powi (max (exponent \<bar>x\<bar>) (- 1022) - 52)"

definition round_half_even :: "real \<Rightarrow> int" where
  "round_half_even x =
     (let f = \<lfloor>x\<rfloor>; r = x - of_int f
      in if r < 1 / 2 then f else if 1 / 2 < r then f + 1 else if even f then f else f + 1)"

text \<open>
  \<open>to_double x\<close> is \<open>x\<close> rounded to the grid of its magnitude. \<open>fl x\<close> is the float
  that an operation with the exact result \<open>x\<close> returns: an infinity once the rounded
  magnitude reaches \<open>2 ^ 1024\<close>.
\<close>

definition to_double :: "real \<Rightarrow> real" where
  "to_double x =
     (if x = 0 then 0
      else sgn x * (of_int (round_half_even (\<bar>x\<bar> / quantum x)) * quantum x))"

definition fl :: "real \<Rightarrow> pyfloat" where
  "fl x = (let y = to_double x
           in if 2 ^ 1024 \<le> y then PosInf else if y \<le> - (2 ^ 1024) then NegInf else Fin y)"

text \<open>
  The operations of line 78. The true division of two integers is correctly rounded; it
  raises on a zero divisor and on a quotient too large for a float. An integer operand of a
  float operation is converted first, which raises when it is too large. A sum or a
  product of finite floats that is too large is an infinity; \<open>1000\<close> is a double.
  \<open>int(x)\<close> truncates a finite float towards zero and raises on an infinity and on a NaN.
\<close>

definition int_true_div :: "nat \<Rightarrow> nat \<Rightarrow> error + real" where
  "int_true_div a b =
     (if b = 0 then Inl ZeroDivisionError
      else case fl (real a / real b) of Fin q \<Rightarrow> Inr q | _ \<Rightarrow> Inl OverflowError)"

definition int_to_float :: "int \<Rightarrow> error + real" where
  "int_to_float k = (case fl (real_of_int k) of Fin x \<Rightarrow> Inr x | _ \<Rightarrow> Inl OverflowError)"

definition float_add :: "real \<Rightarrow> real \<Rightarrow> pyfloat" where
  "float_add a b = fl (a + b)"

fun times_1000 :: "pyfloat \<Rightarrow> pyfloat" where
  "times_1000 (Fin x) = fl (x * 1000)"
| "times_1000 PosInf = PosInf"
| "times_1000 NegInf = NegInf"
| "times_1000 NaN = NaN"

definition py_int :: "real \<Rightarrow> int" where
  "py_int x = (if 0 \<le> x then \<lfloor>x\<rfloor> else \<lceil>x\<rceil>)"

fun float_to_int :: "pyfloat \<Rightarrow> error + int" where
  "float_to_int (Fin x) = Inr (py_int x)"
| "float_to_int PosInf = Inl OverflowError"
| "float_to_int NegInf = Inl OverflowError"
| "float_to_int NaN = Inl ValueError"

section \<open>The training driver\<close>

text \<open>
  Line 78: the x-axis coordinate of the structured log,
  \<open>int((data_iter_step / len(data_loader) + epoch) * 1000)\<close>, evaluated from the inside
  out as Python does: the division, the conversion of \<open>epoch\<close>, the sum, the product and
  the truncation.
\<close>

definition epoch_1000x :: "nat \<Rightarrow> nat \<Rightarrow> int \<Rightarrow> error + int" where
  "epoch_1000x data_iter_step len_data_loader epoch =
     (case int_true_div data_iter_step len_data_loader of
        Inl e \<Rightarrow> Inl e
      | Inr q \<Rightarrow>
          (case int_to_float epoch of
             Inl e \<Rightarrow> Inl e
           | Inr ef \<Rightarrow> float_to_int (times_1000 (float_add q ef))))"

text \<open>
  The optimizer as the driver sees it: its parameter groups (dictionaries), the optional
  attribute \<open>is_second_order\<close> (\<open>None\<close> when the attribute is absent) and its internal
  state.
\<close>

record 'o optimizer =
  param_groups :: "(string \<rightharpoonup> pyfloat) list"
  is_second_order :: "bool option"
  internals :: 'o

text \<open>
  The collaborators of one training step: the model's forward pass, the distillation
  criterion, \<open>loss.item()\<close>, \<open>optimizer.zero_grad()\<close>, the loss scaler (which
  backpropagates and steps the optimizer, so it returns the new model and optimizer),
  \<open>model_ema.update(model)\<close> and \<open>utils.all_reduce_mean\<close>.
\<close>

record ('m, 'o, 'x, 't, 'y, 'l) collaborators =
  forward :: "'m \<Rightarrow> 'x \<Rightarrow> 'y"
  criterion :: "'x \<Rightarrow> 'y \<Rightarrow> 't \<Rightarrow> 'l"
  item :: "'l \<Rightarrow> pyfloat"
  zero_grad :: "'o optimizer \<Rightarrow> 'o optimizer"
  loss_scaler :: "'l \<Rightarrow> 'o optimizer \<Rightarrow> real \<Rightarrow> 'm \<Rightarrow> bool \<Rightarrow> 'm \<times> 'o optimizer"
  ema_update :: "'m \<Rightarrow> 'm \<Rightarrow> 'm"
  all_reduce_mean :: "pyfloat \<Rightarrow> pyfloat"
  reduce_meter :: "meter \<Rightarrow> meter"
  global_avg :: "meter \<Rightarrow> pyfloat"

text \<open>The remaining arguments of \<open>train_one_epoch\<close>.\<close>

record ('x, 't) train_args =
  epoch :: int
  max_norm :: real
  mixup_fn :: "('x \<Rightarrow> 't \<Rightarrow> 'x \<times> 't) option"
  set_training_mode :: bool
  log_writer :: "string option"

datatype message = LogDir string | LossStop pyfloat | AveragedStats

text \<open>The calls with an effect outside the driver, in the order they are made.\<close>

datatype train_event =
    Print message
  | ModelTrain bool
  | Mixup
  | Forward
  | ZeroGrad
  | LossScaler real bool
  | CudaSynchronize
  | EmaUpdate
  | AllReduceMean pyfloat
  | AddScalar string pyfloat int

record ('m, 'o) train_state =
  model :: 'm
  optimizer :: "'o optimizer"
  model_ema :: "'m option"
  meters :: metric_logger
  trace :: "train_event list"

definition emit :: "train_event \<Rightarrow> ('m, 'o) train_state \<Rightarrow> ('m, 'o) train_state" where
  "emit ev s = s\<lparr>trace := trace s @ [ev]\<rparr>"

text \<open>
  Lines 41 to 45: the batch after the optional mixing transform. The transfer of the
  tensors to the device (lines 41 and 42) does not change them and is left out.
\<close>

definition mixed_batch :: "('x, 't) train_args \<Rightarrow> 'x \<times> 't \<Rightarrow> 'x \<times> 't" where
  "mixed_batch args batch =
     (case mixup_fn args of None \<Rightarrow> batch | Some f \<Rightarrow> f (fst batch) (snd batch))"

text \<open>Lines 47 to 51: the loss tensor of a batch and its scalar value.\<close>

definition batch_loss ::
  "('m, 'o, 'x, 't, 'y, 'l) collaborators \<Rightarrow> ('x, 't) train_args \<Rightarrow> 'm \<Rightarrow> 'x \<times> 't \<Rightarrow> 'l" where
  "batch_loss C args m batch =
     (let (samples, targets) = mixed_batch args batch;
          outputs = forward C m samples
      in criterion C samples outputs targets)"

definition loss_value ::
  "('m, 'o, 'x, 't, 'y, 'l) collaborators \<Rightarrow> ('x, 't) train_args \<Rightarrow> 'm \<Rightarrow> 'x \<times> 't \<Rightarrow> pyfloat" where
  "loss_value C args m batch = item C (batch_loss C args m batch)"

definition forward_events :: "('x, 't) train_args \<Rightarrow> train_event list" where
  "forward_events args = (case mixup_fn args of None \<Rightarrow> [] | Some f \<Rightarrow> [Mixup]) @ [Forward]"

text \<open>Lines 57 to 66: the scaled optimization step, the synchronization, the EMA update.\<close>

definition optimize ::
  "('m, 'o, 'x, 't, 'y, 'l) collaborators \<Rightarrow> ('x, 't) train_args \<Rightarrow> 'l \<Rightarrow>
   ('m, 'o) train_state \<Rightarrow> ('m, 'o) train_state" where
  "optimize C args loss s =
     (let s = emit ZeroGrad (s\<lparr>optimizer := zero_grad C (optimizer s)\<rparr>);
          second_order = (case is_second_order (optimizer s) of None \<Rightarrow> False | Some b \<Rightarrow> b);
          (m, opt) = loss_scaler C loss (optimizer s) (max_norm args) (model s) second_order;
          s = emit (LossScaler (max_norm args) second_order) (s\<lparr>model := m, optimizer := opt\<rparr>);
          s = emit CudaSynchronize s
      in case model_ema s of
           None \<Rightarrow> s
         | Some e \<Rightarrow> emit EmaUpdate (s\<lparr>model_ema := Some (ema_update C e (model s))\<rparr>))"

text \<open>Line 70: \<open>optimizer.param_groups[0]["lr"]\<close>.\<close>

definition read_lr :: "'o optimizer \<Rightarrow> error + pyfloat" where
  "read_lr opt =
     (case param_groups opt of
        [] \<Rightarrow> Inl IndexError
      | g # _ \<Rightarrow> (case g ''lr'' of None \<Rightarrow> Inl KeyError | Some lr \<Rightarrow> Inr lr))"

text \<open>Lines 68 to 80: recording the loss and the learning rate, and the structured log.\<close>

definition record_step ::
  "('m, 'o, 'x, 't, 'y, 'l) collaborators \<Rightarrow> ('x, 't) train_args \<Rightarrow> nat \<Rightarrow> nat \<Rightarrow> pyfloat \<Rightarrow>
   ('m, 'o) train_state \<Rightarrow> error option \<times> ('m, 'o) train_state" where
  "record_step C args len_data_loader data_iter_step lv s =
     (let s = s\<lparr>meters := logger_update ''loss'' lv (meters s)\<rparr>
      in case read_lr (optimizer s) of
           Inl e \<Rightarrow> (Some e, s)
         | Inr lr \<Rightarrow>
             (let s = s\<lparr>meters := logger_update ''lr'' lr (meters s)\<rparr>;
                  loss_value_reduce = all_reduce_mean C lv;
                  s = emit (AllReduceMean lv) s
              in case log_writer args of
                   None \<Rightarrow> (None, s)
                 | Some d \<Rightarrow>
                     (case epoch_1000x data_iter_step len_data_loader (epoch args) of
                        Inl e \<Rightarrow> (Some e, s)
                      | Inr x \<Rightarrow>
                          (None, emit (AddScalar ''lr'' lr x)
                                   (emit (AddScalar ''loss'' loss_value_reduce x) s)))))"

text \<open>The body of the loop, lines 41 to 80, with the stability guard of lines 53 to 55.\<close>

definition train_step ::
  "('m, 'o, 'x, 't, 'y, 'l) collaborators \<Rightarrow> ('x, 't) train_args \<Rightarrow> nat \<Rightarrow> nat \<Rightarrow> 'x \<times> 't \<Rightarrow>
   ('m, 'o) train_state \<Rightarrow> error option \<times> ('m, 'o) train_state" where
  "train_step C args len_data_loader data_iter_step batch s =
     (let loss = batch_loss C args (model s) batch;
          s = s\<lparr>trace := trace s @ forward_events args\<rparr>;
          lv = item C loss
      in if \<not> isfinite lv then (Some (SystemExit 1), emit (Print (LossStop lv)) s)
         else record_step C args len_data_loader data_iter_step lv (optimize C args loss s))"

text \<open>
  The loop of line 40 over the enumerated batches; an error ends it. The progress lines
  that the wrapper \<open>log_every\<close> of the metric aggregator prints between batches are
  not part of this model.
\<close>

fun train_loop ::
  "('m, 'o, 'x, 't, 'y, 'l) collaborators \<Rightarrow> ('x, 't) train_args \<Rightarrow> nat \<Rightarrow> nat \<Rightarrow> ('x \<times> 't) list \<Rightarrow>
   ('m, 'o) train_state \<Rightarrow> error option \<times> ('m, 'o) train_state" where
  "train_loop C args len_data_loader data_iter_step [] s = (None, s)"
| "train_loop C args len_data_loader data_iter_step (batch # rest) s =
     (case train_step C args len_data_loader data_iter_step batch s of
        (Some e, s') \<Rightarrow> (Some e, s')
      | (None, s') \<Rightarrow> train_loop C args len_data_loader (Suc data_iter_step) rest s')"

text \<open>\<open>train_one_epoch\<close>, lines 26 to 85.\<close>

definition train_one_epoch ::
  "('m, 'o, 'x, 't, 'y, 'l) collaborators \<Rightarrow> ('x, 't) train_args \<Rightarrow> ('x \<times> 't) list \<Rightarrow>
   ('m, 'o) train_state \<Rightarrow> (error + (string \<rightharpoonup> pyfloat)) \<times> ('m, 'o) train_state" where
  "train_one_epoch C args data_loader s =
     (let s = emit (ModelTrain (set_training_mode args)) s;
          s = s\<lparr>meters := add_meter ''lr'' Map.empty\<rparr>;
          s = (case log_writer args of None \<Rightarrow> s | Some d \<Rightarrow> emit (Print (LogDir d)) s)
      in case train_loop C args (length data_loader) 0 data_loader s of
           (Some e, s') \<Rightarrow> (Inl e, s')
         | (None, s') \<Rightarrow>
             (let s' = s'\<lparr>meters := synchronize_between_processes (reduce_meter C) (meters s')\<rparr>;
                  s' = emit (Print AveragedStats) s'
              in (Inr (global_avgs (global_avg C) (meters s')), s')))"

subsection \<open>Notions used to state the properties of the training driver\<close>

text \<open>
  Line 60: the flag handed to the loss scaler, read from the optimizer after
  \<open>zero_grad\<close>.
\<close>

definition second_order :: "('m, 'o, 'x, 't, 'y, 'l) collaborators \<Rightarrow> 'o optimizer \<Rightarrow> bool" where
  "second_order C opt = (case is_second_order (zero_grad C opt) of None \<Rightarrow> False | Some b \<Rightarrow> b)"

text \<open>Events other than the scaled step, the synchronization and the EMA update.\<close>

fun neutral :: "train_event \<Rightarrow> bool" where
  "neutral (LossScaler c g) = False"
| "neutral CudaSynchronize = False"
| "neutral EmaUpdate = False"
| "neutral ev = True"

text \<open>
  The discipline of a trace: every scaled step is followed at once by a synchronization,
  which is followed at once by an EMA update exactly when an EMA model is configured;
  synchronizations and EMA updates occur nowhere else.
\<close>

fun ema_discipline :: "bool \<Rightarrow> train_event list \<Rightarrow> bool" where
  "ema_discipline ema [] = True"
| "ema_discipline ema (LossScaler c g # evs) =
     (case evs of
        CudaSynchronize # evs' \<Rightarrow>
          (if ema then (case evs' of EmaUpdate # evs'' \<Rightarrow> ema_discipline ema evs'' | _ \<Rightarrow> False)
           else ema_discipline ema evs')
      | _ \<Rightarrow> False)"
| "ema_discipline ema (CudaSynchronize # evs) = False"
| "ema_discipline ema (EmaUpdate # evs) = False"
| "ema_discipline ema (ev # evs) = ema_discipline ema evs"

text \<open>
  The state in which the loop of line 40 starts (lines 29 to 37): the training mode is set,
  the aggregator is new and holds the meter \<open>lr\<close>, and the log directory has been printed
  when a sink is configured.
\<close>

definition train_loop_start :: "('x, 't) train_args \<Rightarrow> ('m, 'o) train_state \<Rightarrow> ('m, 'o) train_state" where
  "train_loop_start args s =
     (let s = emit (ModelTrain (set_training_mode args)) s;
          s = s\<lparr>meters := add_meter ''lr'' Map.empty\<rparr>
      in case log_writer args of None \<Rightarrow> s | Some d \<Rightarrow> emit (Print (LogDir d)) s)"

text \<open>The tags and the coordinates of the scalars written to the structured log, in order.\<close>

fun scalar_log :: "train_event list \<Rightarrow> (string \<times> int) list" where
  "scalar_log [] = []"
| "scalar_log (AddScalar tag v x # evs) = (tag, x) # scalar_log evs"
| "scalar_log (ev # evs) = scalar_log evs"

text \<open>
  The coordinate when the conversion of the epoch and each of the three float operations
  is followed by a rounding \<open>rnd\<close>; with \<open>to_double\<close> it is the coordinate of line 78
  whenever that line does not raise.
\<close>

definition epoch_1000x_rounded :: "(real \<Rightarrow> real) \<Rightarrow> nat \<Rightarrow> nat \<Rightarrow> int \<Rightarrow> int" where
  "epoch_1000x_rounded rnd i n e =
     py_int (rnd (rnd (rnd (real i / real n) + rnd (real_of_int e)) * 1000))"

subsection \<open>A concrete training run\<close>

text \<open>
  A small instance on which the driver is evaluated: a sample stands for its own loss, the
  model counts the updates applied to it, and each scaled step sets the learning rate to a
  tenth of that count.
\<close>

definition demo_collaborators :: "(nat, nat, pyfloat, nat, pyfloat, pyfloat) collaborators" where
  "demo_collaborators =
     \<lparr>forward = (\<lambda>m x. x), criterion = (\<lambda>x y t. y), item = (\<lambda>l. l), zero_grad = (\<lambda>opt. opt),
      loss_scaler = (\<lambda>l opt c m g.
         (Suc m, opt\<lparr>param_groups := [[''lr'' \<mapsto> Fin (real (Suc m) / 10)]],
                     internals := Suc (internals opt)\<rparr>)),
      ema_update = (\<lambda>e m. e + m), all_reduce_mean = (\<lambda>v. v), reduce_meter = (\<lambda>m. m),
      global_avg = (\<lambda>m. case m of [] \<Rightarrow> NaN | p # _ \<Rightarrow> fst p)\<rparr>"

definition demo_args :: "(pyfloat, nat) train_args" where
  "demo_args = \<lparr>epoch = 2, max_norm = 0, mixup_fn = None, set_training_mode = True,
                 log_writer = Some ''runs''\<rparr>"

definition demo_state :: "(nat, nat) train_state" where
  "demo_state =
     \<lparr>model = 0,
      optimizer = \<lparr>param_groups = [[''lr'' \<mapsto> Fin 1]], is_second_order = None, internals = 0\<rparr>,
      model_ema = Some 0, meters = Map.empty, trace = []\<rparr>"

definition demo_loader :: "(pyfloat \<times> nat) list" where
  "demo_loader = [(Fin 1, 0), (NaN, 0), (Fin 2, 0)]"

text \<open>A loader of three batches of finite loss.\<close>

definition finite_loader :: "(pyfloat \<times> nat) list" where
  "finite_loader = [(Fin 1, 0), (Fin 2, 0), (Fin 3, 0)]"

section \<open>Arrays\<close>

text \<open>
  A numpy array: its shape and its elements in row-major order. An array is well formed
  when it has as many elements as its shape says; numpy builds no other.
\<close>

record 'a ndarray =
  shape :: "nat list"
  data :: "'a list"

definition wf_array :: "'a ndarray \<Rightarrow> bool" where
  "wf_array a = (length (data a) = prod_list (shape a))"

definition and_then :: "error + 'a \<Rightarrow> ('a \<Rightarrow> error + 'b) \<Rightarrow> error + 'b" where
  "and_then r f = (case r of Inl e \<Rightarrow> Inl e | Inr v \<Rightarrow> f v)"

text \<open>Indexing a sequence with a non-negative index.\<close>

definition py_nth :: "'a list \<Rightarrow> nat \<Rightarrow> error + 'a" where
  "py_nth xs i = (if i < length xs then Inr (xs ! i) else Inl IndexError)"

text \<open>\<open>a.shape[k]\<close>.\<close>

definition shape_at :: "'a ndarray \<Rightarrow> nat \<Rightarrow> error + nat" where
  "shape_at a k = py_nth (shape a) k"

text \<open>
  \<open>a.mean(axis)\<close>: the axis disappears, and the element at the remaining position is
  the mean of the elements along the axis. The mean of a sequence of floats itself is a
  parameter.
\<close>

definition np_mean :: "('a list \<Rightarrow> 'a) \<Rightarrow> nat \<Rightarrow> 'a ndarray \<Rightarrow> error + 'a ndarray" where
  "np_mean avg axis a =
     (if length (shape a) \<le> axis then Inl AxisError
      else
        (let d = shape a ! axis;
             outer = prod_list (take axis (shape a));
             inner = prod_list (drop (Suc axis) (shape a))
         in Inr \<lparr>shape = take axis (shape a) @ drop (Suc axis) (shape a),
                 data = map (\<lambda>q. avg (map (\<lambda>j. data a ! (((q div inner) * d + j) * inner + q mod inner))
                                            [0..<d]))
                            [0..<outer * inner]\<rparr>))"

text \<open>\<open>a.reshape(dims)\<close> with every dimension given.\<close>

definition np_reshape :: "nat list \<Rightarrow> 'a ndarray \<Rightarrow> error + 'a ndarray" where
  "np_reshape dims a =
     (if prod_list dims = length (data a) then Inr \<lparr>shape = dims, data = data a\<rparr>
      else Inl ValueError)"

text \<open>\<open>a.reshape(dims, -1)\<close>: the last dimension is inferred.\<close>

definition np_reshape_infer :: "nat list \<Rightarrow> 'a ndarray \<Rightarrow> error + 'a ndarray" where
  "np_reshape_infer dims a =
     (let known = prod_list dims
      in if known = 0 \<or> length (data a) mod known \<noteq> 0 then Inl ValueError
         else Inr \<lparr>shape = dims @ [length (data a) div known], data = data a\<rparr>)"

text \<open>\<open>a[i]\<close>: the slice at index \<open>i\<close> of the first axis.\<close>

definition np_getitem :: "'a ndarray \<Rightarrow> nat \<Rightarrow> error + 'a ndarray" where
  "np_getitem a i =
     (case shape a of
        [] \<Rightarrow> Inl IndexError
      | d # rest \<Rightarrow>
          if i < d
          then Inr \<lparr>shape = rest, data = take (prod_list rest) (drop (i * prod_list rest) (data a))\<rparr>
          else Inl IndexError)"

text \<open>
  \<open>np.repeat(a, r, axis)\<close>: along the axis, position \<open>j\<close> of the result holds what
  position \<open>j div r\<close> of the argument holds.
\<close>

definition np_repeat :: "nat \<Rightarrow> nat \<Rightarrow> 'a ndarray \<Rightarrow> error + 'a ndarray" where
  "np_repeat r axis a =
     (if length (shape a) \<le> axis then Inl AxisError
      else
        (let d = shape a ! axis;
             outer = prod_list (take axis (shape a));
             inner = prod_list (drop (Suc axis) (shape a))
         in Inr \<lparr>shape = (shape a)[axis := r * d],
                 data = map (\<lambda>q. data a ! (((q div (r * d * inner)) * d + (q div inner) mod (r * d) div r) * inner
                                             + q mod inner))
                            [0..<outer * (r * d) * inner]\<rparr>))"

text \<open>
  \<open>int(math.sqrt(n))\<close> for a natural number, idealised as the exact integer square
  root: the greatest \<open>k\<close> with \<open>k * k \<le> n\<close>, found by searching downwards.
\<close>

primrec sqrt_search :: "nat \<Rightarrow> nat \<Rightarrow> nat" where
  "sqrt_search n 0 = 0"
| "sqrt_search n (Suc k) = (if Suc k * Suc k \<le> n then Suc k else sqrt_search n k)"

definition isqrt :: "nat \<Rightarrow> nat" where
  "isqrt n = sqrt_search n n"

text \<open>The decimal form of a natural number, as an f-string prints it.\<close>

fun show_nat :: "nat \<Rightarrow> string" where
  "show_nat n =
     (if n < 10 then [''0123456789'' ! n] else show_nat (n div 10) @ [''0123456789'' ! (n mod 10)])"

section \<open>The evaluation driver\<close>

text \<open>
  Modelled from the spec: \<open>Visualizer.visualizer.local_cache\<close> is not among the
  sources at hand. The spec describes it as a process-wide mapping from qualified tensor name to captured arrays,
  populated as a side effect of a forward pass, with an operation that clears it. The
  driver reads \<open>cache[name][0]\<close>, so a name maps to a sequence of arrays. Clearing leaves
  the empty mapping; what a forward pass adds to the mapping is a parameter of the driver.
\<close>

type_synonym local_cache = "string \<rightharpoonup> pyfloat ndarray list"

definition cache_clear :: "local_cache \<Rightarrow> local_cache" where
  "cache_clear c = Map.empty"

text \<open>\<open>cache[name][0]\<close>.\<close>

definition cache_first :: "local_cache \<Rightarrow> string \<Rightarrow> error + pyfloat ndarray" where
  "cache_first c name =
     (case c name of None \<Rightarrow> Inl KeyError | Some [] \<Rightarrow> Inl IndexError | Some (a # _) \<Rightarrow> Inr a)"

text \<open>
  The collaborators of the evaluation: the parameters of the model by name, with their
  sizes; the forward pass on a batch of images and what it adds to the cache; the
  cross-entropy loss and the top-k accuracy as scalars; numpy's mean of a sequence; the
  reduction and the readout of the metric aggregator.
\<close>

record ('x, 'y) eval_collaborators =
  named_parameters :: "(string \<times> nat list) list"
  run_model :: "'x list \<Rightarrow> 'y"
  capture :: "'x list \<Rightarrow> local_cache \<Rightarrow> local_cache"
  cross_entropy :: "'y \<Rightarrow> nat list \<Rightarrow> pyfloat"
  accuracy :: "'y \<Rightarrow> nat list \<Rightarrow> nat \<Rightarrow> pyfloat"
  np_avg :: "pyfloat list \<Rightarrow> pyfloat"
  eval_reduce_meter :: "meter \<Rightarrow> meter"
  eval_global_avg :: "meter \<Rightarrow> pyfloat"

text \<open>
  A cell of the 10 by 10 figure: its row and column, the original image shown in it and the
  attention map laid over it. A saved figure is the grid of convolution kernels, described
  by the size of the parameter, or the cells drawn into an attention figure.
\<close>

type_synonym 'i cell = "nat \<times> nat \<times> 'i \<times> pyfloat ndarray"

datatype 'i figure = KernelGrid "nat list" | AttentionGrid "'i cell list"

datatype 'i eval_event =
    SetFont
  | ModelEval
  | CacheClear
  | RunModel
  | GetItem nat
  | MakeDirs string
  | SaveFig string "'i figure"
  | FigureSaved string
  | TestSummary

text \<open>
  The state of an evaluation: the cache, the batch counter, the metric aggregator, the
  directories that exist, and the calls made so far.
\<close>

record 'i eval_state =
  cache :: local_cache
  batch_num :: nat
  eval_meters :: metric_logger
  dirs :: "string set"
  eval_trace :: "'i eval_event list"

definition log_call :: "'i eval_event \<Rightarrow> 'i eval_state \<Rightarrow> 'i eval_state" where
  "log_call ev s = s\<lparr>eval_trace := eval_trace s @ [ev]\<rparr>"

text \<open>\<open>plt.savefig(path)\<close> into the directory \<open>out/visual\<close>, which must exist.\<close>

definition savefig :: "string \<Rightarrow> 'i figure \<Rightarrow> 'i eval_state \<Rightarrow> error option \<times> 'i eval_state" where
  "savefig path fig s =
     (if ''out/visual'' \<in> dirs s then (None, log_call (SaveFig path fig) s)
      else (Some FileNotFoundError, s))"

text \<open>
  Lines 104 to 117, for a reference that is not \<open>None\<close>: each parameter named
  \<open>downsample_layers.0.0.weight\<close> is read at the four positions of its size and its
  kernels are saved as a figure. Building the grid and drawing it are rendering
  primitives and are not modelled.
\<close>

fun kernel_figures :: "(string \<times> nat list) list \<Rightarrow> 'i eval_state \<Rightarrow> error option \<times> 'i eval_state" where
  "kernel_figures [] s = (None, s)"
| "kernel_figures ((name, sz) # params) s =
     (if ''downsample_layers.0.0.weight'' = name
      then
        (if length sz < 4 then (Some IndexError, s)
         else
           (case savefig ''out/visual/convolutional kernels in downsample 0.png'' (KernelGrid sz) s of
              (Some e, s') \<Rightarrow> (Some e, s')
            | (None, s') \<Rightarrow> kernel_figures params s'))
      else kernel_figures params s)"

text \<open>Lines 133 to 135: the cache is cleared and the model is run on the images.\<close>

definition forward_pass :: "('x, 'y) eval_collaborators \<Rightarrow> 'x list \<Rightarrow> 'i eval_state \<Rightarrow> 'i eval_state" where
  "forward_pass C images s =
     (let s = log_call CacheClear (s\<lparr>cache := cache_clear (cache s)\<rparr>)
      in log_call RunModel (s\<lparr>cache := capture C images (cache s)\<rparr>))"

text \<open>Lines 146 to 152: the attention weights reduced to one value per sample and cell.\<close>

definition reduce_attention ::
  "('a list \<Rightarrow> 'a) \<Rightarrow> 'a ndarray \<Rightarrow> 'a ndarray \<Rightarrow> nat \<Rightarrow> error + 'a ndarray" where
  "reduce_attention avg attn_weight r_weight batch_size =
     and_then (shape_at attn_weight 2) (\<lambda>win_size.
     and_then (np_mean avg 1 attn_weight) (\<lambda>attn_weight.
     and_then (shape_at r_weight 1) (\<lambda>positions.
     and_then (np_reshape_infer [batch_size, positions * win_size] attn_weight) (\<lambda>attn_weight.
     np_mean avg 2 attn_weight))))"

text \<open>Lines 164 to 168: the attention map of sample \<open>i\<close>, as a square grid scaled by 3.\<close>

definition attention_map :: "'a ndarray \<Rightarrow> nat \<Rightarrow> error + 'a ndarray" where
  "attention_map attn_weight i =
     and_then (np_getitem attn_weight i) (\<lambda>attention_map.
     and_then (shape_at attention_map 0) (\<lambda>n.
     (let side = isqrt n
      in and_then (np_reshape [side, side] attention_map) (\<lambda>attention_map.
         and_then (np_repeat 3 0 attention_map) (\<lambda>attention_map.
         np_repeat 3 1 attention_map)))))"

text \<open>
  Lines 158 to 175: for each of the indices, the original image is fetched at the global
  index, and the cell is drawn when the label of the image is the target at that index.
\<close>

fun draw_cells ::
  "('i \<times> nat) list \<Rightarrow> nat list \<Rightarrow> pyfloat ndarray \<Rightarrow> nat \<Rightarrow> nat list \<Rightarrow> 'i cell list \<Rightarrow>
   'i eval_state \<Rightarrow> (error + 'i cell list) \<times> 'i eval_state" where
  "draw_cells ori_dataset target attn_weight base [] cells s = (Inr cells, s)"
| "draw_cells ori_dataset target attn_weight base (i # rest) cells s =
     (let s = log_call (GetItem (base + i)) s
      in case py_nth ori_dataset (base + i) of
           Inl e \<Rightarrow> (Inl e, s)
         | Inr (img, label) \<Rightarrow>
             (case py_nth target i of
                Inl e \<Rightarrow> (Inl e, s)
              | Inr t \<Rightarrow>
                  if label = t
                  then
                    (case attention_map attn_weight i of
                       Inl e \<Rightarrow> (Inl e, s)
                     | Inr m \<Rightarrow>
                         draw_cells ori_dataset target attn_weight base rest
                           (cells @ [(i div 10, i mod 10, img, m)]) s)
                  else draw_cells ori_dataset target attn_weight base rest cells s))"

text \<open>Lines 139 to 152: the four arrays read from the cache, and the reduced attention.\<close>

definition read_cache ::
  "('x, 'y) eval_collaborators \<Rightarrow> local_cache \<Rightarrow> error + nat \<times> pyfloat ndarray" where
  "read_cache C c =
     and_then (cache_first c ''Block.local_images.images'') (\<lambda>x.
     and_then (cache_first c ''Block.local_r_weight.r_weight'') (\<lambda>r_weight.
     and_then (cache_first c ''Block.local_r_idx.r_idx'') (\<lambda>r_idx.
     and_then (cache_first c ''Block.local_attn_weight.attn_weight'') (\<lambda>attn_weight.
     and_then (shape_at x 0) (\<lambda>batch_size.
     and_then (reduce_attention (np_avg C) attn_weight r_weight batch_size) (\<lambda>attn_weight.
     Inr (batch_size, attn_weight)))))))"

definition figure_path :: "nat \<Rightarrow> string" where
  "figure_path n = ''out/visual/figure and attn '' @ show_nat n @ '' alpha 0.2.png''"

text \<open>
  Lines 138 to 185, the visualization branch: the figure of the first 100 samples is
  drawn, the directory is made if it is absent, the figure is saved and the batch counter
  advances. The loop over \<open>alpha\<close> has the single value 0.2. The calls that lay the
  figure out (\<open>clf\<close>, \<open>subplots\<close>, \<open>tight_layout\<close>) are rendering primitives
  and are left out; the cells drawn are the content of the saved figure.
\<close>

definition visualize ::
  "('x, 'y) eval_collaborators \<Rightarrow> ('i \<times> nat) list \<Rightarrow> nat list \<Rightarrow> 'i eval_state \<Rightarrow>
   error option \<times> 'i eval_state" where
  "visualize C ori_dataset target s =
     (case read_cache C (cache s) of
        Inl e \<Rightarrow> (Some e, s)
      | Inr (batch_size, attn_weight) \<Rightarrow>
          (case draw_cells ori_dataset target attn_weight (batch_size * batch_num s) [0..<100] [] s of
             (Inl e, s) \<Rightarrow> (Some e, s)
           | (Inr cells, s) \<Rightarrow>
               (let s = (if ''out/visual'' \<in> dirs s then s
                         else log_call (MakeDirs ''out/visual'')
                                (s\<lparr>dirs := dirs s \<union> {''out'', ''out/visual''}\<rparr>))
                in case savefig (figure_path (batch_num s)) (AttentionGrid cells) s of
                     (Some e, s) \<Rightarrow> (Some e, s)
                   | (None, s) \<Rightarrow>
                       (None, (log_call (FigureSaved (figure_path (batch_num s))) s)
                                \<lparr>batch_num := batch_num s + 1\<rparr>))))"

text \<open>The body of the loop, lines 129 to 194.\<close>

definition eval_batch ::
  "('x, 'y) eval_collaborators \<Rightarrow> ('i \<times> nat) list option \<Rightarrow> 'x list \<times> nat list \<Rightarrow> 'i eval_state \<Rightarrow>
   error option \<times> 'i eval_state" where
  "eval_batch C ori_dataset batch s =
     (let (images, target) = batch;
          s = forward_pass C images s;
          output = run_model C images
      in case (case ori_dataset of
                 None \<Rightarrow> (None, s)
               | Some d \<Rightarrow> if 100 \<le> length target then visualize C d target s else (None, s)) of
           (Some e, s) \<Rightarrow> (Some e, s)
         | (None, s) \<Rightarrow>
             (let loss = cross_entropy C output target;
                  acc1 = accuracy C output target 1;
                  acc5 = accuracy C output target 5;
                  batch_size = length images
              in (None, s\<lparr>eval_meters :=
                           meter_update ''acc5'' acc5 batch_size
                             (meter_update ''acc1'' acc1 batch_size
                               (logger_update ''loss'' loss (eval_meters s)))\<rparr>)))"

text \<open>
  The loop of line 128; an error ends it. The progress lines of \<open>log_every\<close> are not
  part of this model.
\<close>

fun eval_loop ::
  "('x, 'y) eval_collaborators \<Rightarrow> ('i \<times> nat) list option \<Rightarrow> ('x list \<times> nat list) list \<Rightarrow>
   'i eval_state \<Rightarrow> error option \<times> 'i eval_state" where
  "eval_loop C ori_dataset [] s = (None, s)"
| "eval_loop C ori_dataset (batch # rest) s =
     (case eval_batch C ori_dataset batch s of
        (Some e, s') \<Rightarrow> (Some e, s')
      | (None, s') \<Rightarrow> eval_loop C ori_dataset rest s')"

text \<open>\<open>evaluate\<close>, lines 88 to 200.\<close>

definition evaluate ::
  "('x, 'y) eval_collaborators \<Rightarrow> ('x list \<times> nat list) list \<Rightarrow> ('i \<times> nat) list option \<Rightarrow>
   'i eval_state \<Rightarrow> (error + (string \<rightharpoonup> pyfloat)) \<times> 'i eval_state" where
  "evaluate C data_loader ori_dataset s =
     (let s = log_call SetFont s
      in case (case ori_dataset of
                 None \<Rightarrow> (None, s)
               | Some d \<Rightarrow> kernel_figures (named_parameters C) s) of
           (Some e, s) \<Rightarrow> (Inl e, s)
         | (None, s) \<Rightarrow>
             (let s = log_call ModelEval (s\<lparr>eval_meters := Map.empty\<rparr>);
                  s = s\<lparr>batch_num := 0\<rparr>
              in case eval_loop C ori_dataset data_loader s of
                   (Some e, s) \<Rightarrow> (Inl e, s)
                 | (None, s) \<Rightarrow>
                     (let s = s\<lparr>eval_meters :=
                                  synchronize_between_processes (eval_reduce_meter C) (eval_meters s)\<rparr>;
                          s = log_call TestSummary s
                      in (Inr (global_avgs (eval_global_avg C) (eval_meters s)), s))))"

subsection \<open>Notions used to state the properties of the evaluation driver\<close>

text \<open>Events other than the clearing of the cache and the run of the model.\<close>

fun quiet :: "'i eval_event \<Rightarrow> bool" where
  "quiet CacheClear = False"
| "quiet RunModel = False"
| "quiet ev = True"

text \<open>
  The discipline of a trace: every clearing of the cache is followed at once by a run of the
  model, and the model is run nowhere else.
\<close>

fun clear_discipline :: "'i eval_event list \<Rightarrow> bool" where
  "clear_discipline [] = True"
| "clear_discipline (CacheClear # evs) =
     (case evs of RunModel # evs' \<Rightarrow> clear_discipline evs' | _ \<Rightarrow> False)"
| "clear_discipline (RunModel # evs) = False"
| "clear_discipline (ev # evs) = clear_discipline evs"

text \<open>
  A mean of finite floats, exact, standing for numpy's on the concrete arrays below; the
  mean of no value, or of a value that is not finite, is NaN.
\<close>

fun fin_value :: "pyfloat \<Rightarrow> real" where
  "fin_value (Fin x) = x"
| "fin_value PosInf = 0"
| "fin_value NegInf = 0"
| "fin_value NaN = 0"

definition demo_mean :: "pyfloat list \<Rightarrow> pyfloat" where
  "demo_mean xs =
     (if xs = [] \<or> \<not> list_all isfinite xs then NaN
      else Fin (sum_list (map fin_value xs) / real (length xs)))"

text \<open>
  Attention weights of two samples with one position, two heads, one window and two
  remaining entries; routing weights with one position; and a reduced array of one sample
  with four cells.
\<close>

definition demo_attn :: "pyfloat ndarray" where
  "demo_attn = \<lparr>shape = [2, 2, 1, 2], data = map Fin [1, 2, 3, 4, 5, 6, 7, 8]\<rparr>"

definition demo_r_weight :: "pyfloat ndarray" where
  "demo_r_weight = \<lparr>shape = [2, 1, 1], data = map Fin [1, 1]\<rparr>"

definition demo_reduced :: "pyfloat ndarray" where
  "demo_reduced = \<lparr>shape = [1, 4], data = map Fin [1, 2, 3, 4]\<rparr>"

text \<open>
  At local index \<open>i\<close>, the label fetched at the global index equals the target
  (line 163), and the cell drawn for such an index (lines 164 to 175).
\<close>

definition matches :: "('i \<times> nat) list \<Rightarrow> nat list \<Rightarrow> nat \<Rightarrow> nat \<Rightarrow> bool" where
  "matches d target base i = (snd (d ! (base + i)) = target ! i)"

definition drawn_cell :: "('i \<times> nat) list \<Rightarrow> pyfloat ndarray \<Rightarrow> nat \<Rightarrow> nat \<Rightarrow> 'i cell" where
  "drawn_cell d a base i = (i div 10, i mod 10, fst (d ! (base + i)), projr (attention_map a i))"

text \<open>
  The calls of a visualization that completes: the 100 fetches, the making of the
  directory when it is absent, the saving of the figure and the line printed after it.
\<close>

definition figure_events :: "bool \<Rightarrow> nat \<Rightarrow> nat \<Rightarrow> 'i cell list \<Rightarrow> 'i eval_event list" where
  "figure_events dir_exists base n cells =
     map (\<lambda>i. GetItem (base + i)) [0..<100]
     @ (if dir_exists then [] else [MakeDirs ''out/visual''])
     @ [SaveFig (figure_path n) (AttentionGrid cells), FigureSaved (figure_path n)]"

text \<open>Lines 187 to 194: what a batch records into the metric aggregator.\<close>

definition recorded :: "('x, 'y) eval_collaborators \<Rightarrow> 'x list \<times> nat list \<Rightarrow> metric_logger \<Rightarrow> metric_logger" where
  "recorded C batch ml =
     (let (images, target) = batch; output = run_model C images
      in meter_update ''acc5'' (accuracy C output target 5) (length images)
           (meter_update ''acc1'' (accuracy C output target 1) (length images)
             (meter_update ''loss'' (cross_entropy C output target) 1 ml)))"

text \<open>Lines 136 and 137: the condition under which a batch is visualized.\<close>

definition triggered :: "('i \<times> nat) list option \<Rightarrow> 'x list \<times> nat list \<Rightarrow> bool" where
  "triggered ori_dataset batch = (ori_dataset \<noteq> None \<and> 100 \<le> length (snd batch))"

text \<open>
  The samples of a meter, none when the meter does not exist, and the samples that a batch
  contributes to the loss meter and to an accuracy meter.
\<close>

definition the_meter :: "metric_logger \<Rightarrow> string \<Rightarrow> meter" where
  "the_meter ml k = (case ml k of None \<Rightarrow> [] | Some m \<Rightarrow> m)"

definition loss_sample :: "('x, 'y) eval_collaborators \<Rightarrow> 'x list \<times> nat list \<Rightarrow> pyfloat \<times> nat" where
  "loss_sample C batch = (cross_entropy C (run_model C (fst batch)) (snd batch), 1)"

definition acc_sample :: "('x, 'y) eval_collaborators \<Rightarrow> nat \<Rightarrow> 'x list \<times> nat list \<Rightarrow> pyfloat \<times> nat" where
  "acc_sample C k batch = (accuracy C (run_model C (fst batch)) (snd batch) k, length (fst batch))"

text \<open>The path of the figure of the convolution kernels (line 117).\<close>

definition kernel_path :: string where
  "kernel_path = ''out/visual/convolutional kernels in downsample 0.png''"

text \<open>
  A concrete evaluation: an image is a number, the output of the model is the number of
  images, the loss is that number and the top-k accuracy is k. A forward pass appends one
  array to the entry \<open>seen\<close> of the cache, so that without the clearing the arrays of
  earlier passes would stay. The state starts with a stale entry in the cache and with the
  output directory in place.
\<close>

definition demo_capture :: "nat list \<Rightarrow> local_cache \<Rightarrow> local_cache" where
  "demo_capture images c =
     c(''seen'' \<mapsto> (case c ''seen'' of None \<Rightarrow> [] | Some l \<Rightarrow> l)
                     @ [\<lparr>shape = [length images], data = map (\<lambda>i. Fin (real i)) images\<rparr>])"

definition demo_eval :: "(nat, nat) eval_collaborators" where
  "demo_eval =
     \<lparr>named_parameters = [(''downsample_layers.0.0.weight'', [2, 3, 4, 4])],
      run_model = length, capture = demo_capture,
      cross_entropy = (\<lambda>y t. Fin (real y)), accuracy = (\<lambda>y t k. Fin (real k)),
      np_avg = demo_mean, eval_reduce_meter = (\<lambda>m. m),
      eval_global_avg = (\<lambda>m. case m of [] \<Rightarrow> NaN | p # _ \<Rightarrow> fst p)\<rparr>"

definition demo_eval_state :: "nat eval_state" where
  "demo_eval_state =
     \<lparr>cache = [''seen'' \<mapsto> [\<lparr>shape = [1], data = [Fin 99]\<rparr>]], batch_num = 0, eval_meters = Map.empty,
      dirs = {''out'', ''out/visual''}, eval_trace = []\<rparr>"

definition demo_eval_loader :: "(nat list \<times> nat list) list" where
  "demo_eval_loader = [([7], [0]), ([8, 9], [1, 0])]"

text \<open>
  Lines 104 to 117 as a whole, and the state in which the loop starts (lines 119 to 127).
\<close>

definition kernel_phase ::
  "('x, 'y) eval_collaborators \<Rightarrow> ('i \<times> nat) list option \<Rightarrow> 'i eval_state \<Rightarrow> error option \<times> 'i eval_state" where
  "kernel_phase C ori s = (case ori of None \<Rightarrow> (None, s) | Some d \<Rightarrow> kernel_figures (named_parameters C) s)"

definition loop_start :: "'i eval_state \<Rightarrow> 'i eval_state" where
  "loop_start s = (log_call ModelEval (s\<lparr>eval_meters := Map.empty\<rparr>))\<lparr>batch_num := 0\<rparr>"

text \<open>
  The numbers of populated cells of the attention figures saved in a trace, and the paths
  of all the figures saved in it.
\<close>

fun populated :: "'i eval_event list \<Rightarrow> nat list" where
  "populated [] = []"
| "populated (SaveFig path (AttentionGrid cells) # evs) = length cells # populated evs"
| "populated (ev # evs) = populated evs"

fun saved_paths :: "'i eval_event list \<Rightarrow> string list" where
  "saved_paths [] = []"
| "saved_paths (SaveFig path fig # evs) = path # saved_paths evs"
| "saved_paths (ev # evs) = saved_paths evs"

text \<open>A state in which the directory \<open>out/visual\<close> does not exist.\<close>

definition fresh_eval_state :: "nat eval_state" where
  "fresh_eval_state =
     \<lparr>cache = Map.empty, batch_num = 0, eval_meters = Map.empty, dirs = {}, eval_trace = []\<rparr>"

text \<open>
  A batch of 150 samples: the forward pass captures the four arrays with 150 samples, one
  position, one head, one window and one remaining entry; the original dataset holds 150
  images of label 0, and the targets are 0 except the first, which is 1.
\<close>

definition big_array :: "nat list \<Rightarrow> pyfloat ndarray" where
  "big_array dims = \<lparr>shape = dims, data = replicate (prod_list dims) (Fin 1)\<rparr>"

definition big_capture :: "nat list \<Rightarrow> local_cache \<Rightarrow> local_cache" where
  "big_capture images c =
     c(''Block.local_images.images'' \<mapsto> [big_array [length images]],
       ''Block.local_r_weight.r_weight'' \<mapsto> [big_array [length images, 1, 1]],
       ''Block.local_r_idx.r_idx'' \<mapsto> [big_array [length images, 1, 1]],
       ''Block.local_attn_weight.attn_weight'' \<mapsto> [big_array [length images, 1, 1, 1]])"

definition big_eval :: "(nat, nat) eval_collaborators" where
  "big_eval = demo_eval\<lparr>capture := big_capture\<rparr>"

definition big_images :: "nat list" where
  "big_images = [0..<150]"

definition big_target :: "nat list" where
  "big_target = 1 # replicate 149 0"

definition big_ori :: "(nat \<times> nat) list" where
  "big_ori = map (\<lambda>i. (i, 0)) [0..<150]"

section \<open>Properties of the double-precision arithmetic\<close>

subsection \<open>The exponent of a positive real\<close>

lemma bit_length_less: "n < 2 ^ bit_length n"
proof (induct n rule: bit_length.induct)
  case (1 n)
  show ?case
  proof (cases "n = 0")
    case True
    then show ?thesis by (simp add: bit_length.simps)
  next
    case False
    from 1 [OF False] have "n div 2 < 2 ^ bit_length (n div 2)" .
    then have "n < 2 * 2 ^ bit_length (n div 2)" by linarith
    with False show ?thesis by (subst bit_length.simps) simp
  qed
qed

lemma bit_length_pos: "0 < n \<Longrightarrow> 0 < bit_length n"
  by (subst bit_length.simps) simp

lemma bit_length_ge: "0 < n \<Longrightarrow> 2 ^ (bit_length n - 1) \<le> n"
proof (induct n rule: bit_length.induct)
  case (1 n)
  then have n: "n \<noteq> 0" by simp
  have bl: "bit_length n - 1 = bit_length (n div 2)"
    using n by (subst bit_length.simps) simp
  show ?case
  proof (cases "n div 2 = 0")
    case True
    then show ?thesis using n bl by (simp add: bit_length.simps)
  next
    case False
    then have pos: "0 < n div 2" by simp
    from 1(1) [OF n pos] have ih: "2 ^ (bit_length (n div 2) - 1) \<le> n div 2" .
    have "(2::nat) ^ bit_length (n div 2) = 2 * 2 ^ (bit_length (n div 2) - 1)"
      using bit_length_pos [OF pos] by (cases "bit_length (n div 2)") simp_all
    also have "\<dots> \<le> 2 * (n div 2)" using ih by simp
    also have "\<dots> \<le> n" by simp
    finally show ?thesis using bl by simp
  qed
qed

lemma exponent_bounds:
  assumes "0 < x"
  shows "2 powi exponent x \<le> x" and "x < 2 powi (exponent x + 1)"
proof -
  have "2 powi exponent x \<le> x \<and> x < 2 powi (exponent x + 1)"
  proof (cases "1 \<le> x")
    case True
    define m where "m = nat \<lfloor>x\<rfloor>"
    have m: "0 < m" "real m \<le> x" "x < real m + 1"
    proof -
      have f: "1 \<le> \<lfloor>x\<rfloor>" using True by linarith
      then show "0 < m" by (simp add: m_def)
      from f have r: "real m = of_int \<lfloor>x\<rfloor>" by (simp add: m_def)
      show "real m \<le> x" unfolding r by linarith
      show "x < real m + 1" unfolding r by linarith
    qed
    define k where "k = bit_length m"
    have k: "0 < k" using bit_length_pos [OF m(1)] by (simp add: k_def)
    have e: "exponent x = int k - 1"
      using True by (simp add: exponent_def m_def k_def)
    have lo: "(2::nat) ^ (k - 1) \<le> m" unfolding k_def by (rule bit_length_ge [OF m(1)])
    have hi: "m < 2 ^ k" unfolding k_def by (rule bit_length_less)
    have "2 powi (int k - 1) = (2::real) ^ (k - 1)"
      using k by (simp add: power_int_def nat_diff_distrib)
    also have "\<dots> \<le> real m"
    proof -
      have "real (2 ^ (k - 1)) \<le> real m" using lo by (simp only: of_nat_le_iff)
      then show ?thesis by simp
    qed
    finally have a: "2 powi (int k - 1) \<le> x" using m(2) by linarith
    have "real m + 1 \<le> 2 ^ k"
    proof -
      from hi have "Suc m \<le> 2 ^ k" by simp
      then have "real (Suc m) \<le> real (2 ^ k)" by (simp only: of_nat_le_iff)
      then show ?thesis by simp
    qed
    then have b: "x < 2 powi (int k - 1 + 1)" using m(3) by simp
    from a b e show ?thesis by simp
  next
    case False
    with assms have x: "0 < x" "x < 1" by simp_all
    define y where "y = 1 / x"
    have y: "1 < y" using x by (simp add: y_def)
    define c where "c = nat \<lceil>y\<rceil>"
    have c: "y \<le> real c" "real c < y + 1" "1 < c"
    proof -
      have f: "2 \<le> \<lceil>y\<rceil>" using y by linarith
      then show "1 < c" by (simp add: c_def)
      from f have r: "real c = of_int \<lceil>y\<rceil>" by (simp add: c_def)
      show "y \<le> real c" unfolding r by linarith
      show "real c < y + 1" unfolding r by linarith
    qed
    define j where "j = bit_length (c - 1)"
    have cpos: "0 < c - 1" using c by simp
    have j: "0 < j" using bit_length_pos [OF cpos] by (simp add: j_def)
    have e: "exponent x = - int j"
      using False by (simp add: exponent_def y_def c_def j_def)
    have lo: "(2::nat) ^ (j - 1) \<le> c - 1" unfolding j_def by (rule bit_length_ge [OF cpos])
    have hi: "c - 1 < 2 ^ j" unfolding j_def by (rule bit_length_less)
    have "real c \<le> 2 ^ j"
    proof -
      from hi c(3) have "c \<le> 2 ^ j" by simp
      then have "real c \<le> real (2 ^ j)" by (simp only: of_nat_le_iff)
      then show ?thesis by simp
    qed
    with c(1) have yj: "y \<le> 2 ^ j" by linarith
    have "(2::real) ^ (j - 1) \<le> real (c - 1)"
    proof -
      have "real (2 ^ (j - 1)) \<le> real (c - 1)" using lo by (simp only: of_nat_le_iff)
      then show ?thesis by simp
    qed
    also have "\<dots> = real c - 1" using c(3) by simp
    also have "\<dots> < y" using c by simp
    finally have jy: "2 ^ (j - 1) < y" .
    have a: "2 powi (- int j) \<le> x"
    proof -
      have "1 / 2 ^ j \<le> 1 / y" using yj y by (simp add: frac_le)
      then show ?thesis using x by (simp add: power_int_minus y_def inverse_eq_divide)
    qed
    have b: "x < 2 powi (- int j + 1)"
    proof -
      have "1 / y < 1 / 2 ^ (j - 1)" using jy by (simp add: frac_less2)
      moreover have "- int j + 1 = - int (j - 1)" using j by simp
      ultimately show ?thesis using x
        by (simp only: power_int_minus power_int_of_nat y_def) (simp add: inverse_eq_divide)
    qed
    from a b e show ?thesis by simp
  qed
  then show "2 powi exponent x \<le> x" and "x < 2 powi (exponent x + 1)" by simp_all
qed

lemma exponent_unique:
  assumes "2 powi k \<le> x" and "x < 2 powi (k + 1)"
  shows "exponent x = k"
proof -
  have pos: "0 < x" using assms(1) zero_less_power_int [of "2::real" k] by linarith
  note b = exponent_bounds [OF pos]
  have "\<not> exponent x < k"
  proof
    assume "exponent x < k"
    then have "exponent x + 1 \<le> k" by simp
    then have "(2::real) powi (exponent x + 1) \<le> 2 powi k" by (rule power_int_increasing) simp
    with b(2) assms(1) show False by linarith
  qed
  moreover have "\<not> k < exponent x"
  proof
    assume "k < exponent x"
    then have "k + 1 \<le> exponent x" by simp
    then have "(2::real) powi (k + 1) \<le> 2 powi exponent x" by (rule power_int_increasing) simp
    with b(1) assms(2) show False by linarith
  qed
  ultimately show ?thesis by simp
qed

subsection \<open>Rounding to an integer\<close>

lemma round_half_even_cases:
  "round_half_even x = \<lfloor>x\<rfloor> \<or> round_half_even x = \<lfloor>x\<rfloor> + 1"
  by (simp add: round_half_even_def Let_def)

lemma round_half_even_error: "\<bar>of_int (round_half_even x) - x\<bar> \<le> 1 / 2"
proof -
  define r where "r = x - of_int \<lfloor>x\<rfloor>"
  have r: "0 \<le> r" "r < 1" unfolding r_def by linarith+
  have x: "x = of_int \<lfloor>x\<rfloor> + r" by (simp add: r_def)
  have "round_half_even x = (if r < 1 / 2 then \<lfloor>x\<rfloor> else if 1 / 2 < r then \<lfloor>x\<rfloor> + 1
      else if even \<lfloor>x\<rfloor> then \<lfloor>x\<rfloor> else \<lfloor>x\<rfloor> + 1)"
    by (simp add: round_half_even_def Let_def r_def)
  then consider "round_half_even x = \<lfloor>x\<rfloor>" "r \<le> 1 / 2"
    | "round_half_even x = \<lfloor>x\<rfloor> + 1" "1 / 2 \<le> r"
    by (auto split: if_splits)
  then show ?thesis
  proof cases
    case 1
    have "of_int (round_half_even x) - x = - r" unfolding 1(1) r_def by simp
    with r 1(2) show ?thesis by simp
  next
    case 2
    have "of_int (round_half_even x) - x = 1 - r" unfolding 2(1) r_def by simp
    with r 2(2) show ?thesis by simp
  qed
qed

lemma round_half_even_of_int [simp]: "round_half_even (of_int k) = k"
  by (simp add: round_half_even_def)

lemma round_half_even_0 [simp]: "round_half_even 0 = 0"
  by (simp add: round_half_even_def)

lemma round_half_even_mono:
  assumes "x \<le> y"
  shows "round_half_even x \<le> round_half_even y"
proof (cases "\<lfloor>x\<rfloor> = \<lfloor>y\<rfloor>")
  case True
  with assms show ?thesis by (auto simp: round_half_even_def Let_def)
next
  case False
  with floor_mono [OF assms] have "\<lfloor>x\<rfloor> + 1 \<le> \<lfloor>y\<rfloor>" by simp
  moreover have "round_half_even x \<le> \<lfloor>x\<rfloor> + 1"
    using round_half_even_cases [of x] by auto
  moreover have "\<lfloor>y\<rfloor> \<le> round_half_even y"
    using round_half_even_cases [of y] by auto
  ultimately show ?thesis by linarith
qed

lemma round_half_even_ge: "of_int k \<le> x \<Longrightarrow> k \<le> round_half_even x"
  using round_half_even_mono [of "of_int k" x] by (simp only: round_half_even_of_int)

lemma round_half_even_le: "x \<le> of_int k \<Longrightarrow> round_half_even x \<le> k"
  using round_half_even_mono [of x "of_int k"] by (simp only: round_half_even_of_int)

subsection \<open>Rounding to a double\<close>

lemma quantum_pos [simp]: "0 < quantum x"
  by (simp add: quantum_def)

lemma quantum_minus [simp]: "quantum (- x) = quantum x"
  by (simp add: quantum_def)

lemma to_double_0 [simp]: "to_double 0 = 0"
  by (simp add: to_double_def)

lemma to_double_minus: "to_double (- x) = - to_double x"
  by (simp add: to_double_def)

lemma to_double_pos:
  "0 < x \<Longrightarrow> to_double x = of_int (round_half_even (x / quantum x)) * quantum x"
  by (simp add: to_double_def)

lemma pow2_split: "(2::real) powi (a + b) = 2 powi a * 2 powi b"
  by (rule power_int_add) simp

lemma quantum_eq: "0 < x \<Longrightarrow> quantum x = 2 powi (max (exponent x) (- 1022) - 52)"
  by (simp add: quantum_def)

lemma to_double_pos_range:
  assumes "0 < x"
  shows "0 \<le> to_double x"
    and "to_double x \<le> 2 powi (max (exponent x) (- 1022) + 1)"
    and "- 1022 \<le> exponent x \<Longrightarrow> 2 powi exponent x \<le> to_double x"
proof -
  define E where "E = max (exponent x) (- 1022)"
  define q where "q = quantum x"
  have q: "0 < q" "q = 2 powi (E - 52)" using assms by (simp_all add: q_def E_def quantum_eq)
  define r where "r = round_half_even (x / q)"
  have rd: "to_double x = of_int r * q" using assms by (simp add: to_double_pos r_def q_def)
  have "of_int 0 \<le> x / q" using assms q(1) by simp
  from round_half_even_ge [OF this] have "0 \<le> r" by (simp add: r_def)
  then show "0 \<le> to_double x" using q(1) by (simp add: rd)
  have hi: "2 powi (E + 1) = 2 ^ 53 * q"
  proof -
    have "E + 1 = E - 52 + 53" by simp
    then have "(2::real) powi (E + 1) = 2 powi (E - 52 + 53)" by (simp only:)
    also have "\<dots> = 2 powi (E - 52) * 2 powi 53" by (rule pow2_split)
    finally show ?thesis by (simp add: q(2))
  qed
  have "x < 2 powi (exponent x + 1)" by (rule exponent_bounds [OF assms])
  also have "\<dots> \<le> 2 powi (E + 1)" by (rule power_int_increasing) (simp_all add: E_def)
  finally have "x < 2 ^ 53 * q" by (simp add: hi)
  then have "x / q \<le> of_int (2 ^ 53)" using q(1) by (simp add: field_simps)
  from round_half_even_le [OF this] have "r \<le> 2 ^ 53" by (simp only: r_def)
  then have "real_of_int r \<le> of_int (2 ^ 53)" by (simp only: of_int_le_iff)
  then have "of_int r \<le> (2::real) ^ 53" by simp
  then have "of_int r * q \<le> 2 ^ 53 * q" using q(1) by simp
  then show "to_double x \<le> 2 powi (max (exponent x) (- 1022) + 1)"
    by (simp add: rd hi flip: E_def)
  show "2 powi exponent x \<le> to_double x" if "- 1022 \<le> exponent x"
  proof -
    from that have E: "E = exponent x" by (simp add: E_def)
    have lo: "2 powi E = 2 ^ 52 * q"
    proof -
      have "E = E - 52 + 52" by simp
      then have "(2::real) powi E = 2 powi (E - 52 + 52)" by (simp only:)
      also have "\<dots> = 2 powi (E - 52) * 2 powi 52" by (rule pow2_split)
      finally show ?thesis by (simp add: q(2))
    qed
    have "2 powi E \<le> x" unfolding E by (rule exponent_bounds [OF assms])
    then have "of_int (2 ^ 52) \<le> x / q" using q(1) by (simp add: lo field_simps)
    from round_half_even_ge [OF this] have "2 ^ 52 \<le> r" by (simp only: r_def)
    then have "real_of_int (2 ^ 52) \<le> of_int r" by (simp only: of_int_le_iff)
    then have "(2::real) ^ 52 \<le> of_int r" by simp
    then have "2 ^ 52 * q \<le> of_int r * q" using q(1) by simp
    then show ?thesis by (simp add: rd lo flip: E)
  qed
qed

lemma exponent_mono:
  assumes "0 < x" "x \<le> y"
  shows "exponent x \<le> exponent y"
proof (rule ccontr)
  assume "\<not> exponent x \<le> exponent y"
  then have "exponent y + 1 \<le> exponent x" by simp
  then have "(2::real) powi (exponent y + 1) \<le> 2 powi exponent x"
    by (rule power_int_increasing) simp
  moreover have "y < 2 powi (exponent y + 1)" using assms by (intro exponent_bounds) simp
  moreover have "2 powi exponent x \<le> x" using assms by (intro exponent_bounds)
  ultimately show False using assms by linarith
qed

lemma to_double_mono_pos:
  assumes "0 < x" "x \<le> y"
  shows "to_double x \<le> to_double y"
proof -
  have y: "0 < y" using assms by simp
  define Ex where "Ex = max (exponent x) (- 1022)"
  define Ey where "Ey = max (exponent y) (- 1022)"
  have le: "Ex \<le> Ey" using exponent_mono [OF assms] by (simp add: Ex_def Ey_def)
  show ?thesis
  proof (cases "Ex = Ey")
    case True
    then have q: "quantum x = quantum y" using assms y by (simp add: quantum_eq Ex_def Ey_def)
    have "x / quantum y \<le> y / quantum y"
      by (rule divide_right_mono [OF assms(2) less_imp_le [OF quantum_pos]])
    from round_half_even_mono [OF this]
    have "real_of_int (round_half_even (x / quantum y)) * quantum y
        \<le> real_of_int (round_half_even (y / quantum y)) * quantum y"
      by (simp add: mult_right_mono)
    then show ?thesis using assms y by (simp add: to_double_pos q)
  next
    case False
    with le have lt: "Ex + 1 \<le> Ey" by simp
    then have ey: "- 1022 \<le> exponent y" "Ey = exponent y" by (simp_all add: Ex_def Ey_def)
    have "to_double x \<le> 2 powi (Ex + 1)"
      unfolding Ex_def by (rule to_double_pos_range [OF assms(1)])
    also have "\<dots> \<le> 2 powi Ey" using lt by (rule power_int_increasing) simp
    also have "\<dots> \<le> to_double y"
      unfolding ey(2) by (rule to_double_pos_range(3) [OF y ey(1)])
    finally show ?thesis .
  qed
qed

lemma to_double_mono:
  assumes "x \<le> y"
  shows "to_double x \<le> to_double y"
proof -
  consider "0 < x" | "x = 0" | "x < 0" "0 \<le> y" | "x < 0" "y < 0" by linarith
  then show ?thesis
  proof cases
    case 1
    then show ?thesis using assms by (rule to_double_mono_pos)
  next
    case 2
    show ?thesis
    proof (cases "y = 0")
      case True
      with 2 show ?thesis by simp
    next
      case False
      with 2 assms have "0 < y" by simp
      from to_double_pos_range(1) [OF this] 2 show ?thesis by simp
    qed
  next
    case 3
    have "0 \<le> to_double (- x)" using 3 by (intro to_double_pos_range) simp
    then have a: "to_double x \<le> 0" using to_double_minus [of x] by simp
    have "0 \<le> to_double y"
    proof (cases "y = 0")
      case True
      then show ?thesis by simp
    next
      case False
      with 3 have "0 < y" by simp
      then show ?thesis by (rule to_double_pos_range)
    qed
    with a show ?thesis by simp
  next
    case 4
    then have "0 < - y" "- y \<le> - x" using assms by simp_all
    from to_double_mono_pos [OF this] show ?thesis by (simp add: to_double_minus)
  qed
qed

lemma to_double_error:
  assumes "\<bar>x\<bar> \<le> 2 powi k" and "- 1022 \<le> k"
  shows "\<bar>to_double x - x\<bar> \<le> 2 powi (k - 53)"
proof (cases "x = 0")
  case True
  then show ?thesis by simp
next
  case False
  then have pos: "0 < \<bar>x\<bar>" by simp
  define E where "E = max (exponent \<bar>x\<bar>) (- 1022)"
  define q where "q = quantum x"
  have q: "0 < q" "q = 2 powi (E - 52)" by (simp_all add: q_def E_def quantum_def)
  have "exponent \<bar>x\<bar> \<le> k"
  proof (rule ccontr)
    assume "\<not> exponent \<bar>x\<bar> \<le> k"
    then have "k + 1 \<le> exponent \<bar>x\<bar>" by simp
    then have "(2::real) powi (k + 1) \<le> 2 powi exponent \<bar>x\<bar>"
      by (rule power_int_increasing) simp
    moreover have "2 powi exponent \<bar>x\<bar> \<le> \<bar>x\<bar>" by (rule exponent_bounds [OF pos])
    moreover have "(2::real) powi k < 2 powi (k + 1)" by (rule power_int_strict_increasing) simp_all
    ultimately show False using assms(1) by linarith
  qed
  with assms(2) have Ek: "E \<le> k" by (simp add: E_def)
  define r where "r = round_half_even (\<bar>x\<bar> / q)"
  have rd: "to_double x = sgn x * (of_int r * q)"
    using False by (simp add: to_double_def r_def q_def)
  have "to_double x - x = sgn x * (of_int r * q) - sgn x * \<bar>x\<bar>"
    by (simp add: rd sgn_mult_abs)
  then have "to_double x - x = sgn x * (of_int r * q - \<bar>x\<bar>)"
    by (simp only: right_diff_distrib)
  then have "\<bar>to_double x - x\<bar> = \<bar>of_int r * q - \<bar>x\<bar>\<bar>"
    using False by (simp add: abs_mult abs_sgn_eq)
  also have "of_int r * q - \<bar>x\<bar> = (of_int r - \<bar>x\<bar> / q) * q"
    using q(1) by (simp add: field_simps)
  also have "\<bar>\<dots>\<bar> = \<bar>of_int r - \<bar>x\<bar> / q\<bar> * q" using q(1) by (simp add: abs_mult)
  also have "\<dots> \<le> 1 / 2 * q"
    using round_half_even_error [of "\<bar>x\<bar> / q"] q(1) unfolding r_def
    by (intro mult_right_mono) simp_all
  also have "\<dots> = 2 powi (E - 53)"
  proof -
    have "E - 52 = E - 53 + 1" by simp
    then have "(2::real) powi (E - 52) = 2 powi (E - 53 + 1)" by (simp only:)
    also have "\<dots> = 2 powi (E - 53) * 2 powi 1" by (rule pow2_split)
    finally show ?thesis by (simp add: q(2))
  qed
  also have "\<dots> \<le> 2 powi (k - 53)" using Ek by (intro power_int_increasing) simp_all
  finally show ?thesis .
qed

lemma to_double_exact:
  assumes "x \<noteq> 0" and "\<bar>x\<bar> = of_int m * quantum x"
  shows "to_double x = x"
proof -
  have "quantum x \<noteq> 0" by (rule not_sym, rule less_imp_neq, rule quantum_pos)
  then have "\<bar>x\<bar> / quantum x = of_int m" using assms(2) by simp
  then have "to_double x = sgn x * (of_int m * quantum x)"
    using assms(1) by (simp add: to_double_def)
  also have "\<dots> = x" by (simp flip: assms(2) add: sgn_mult_abs)
  finally show ?thesis .
qed

lemma to_double_of_int:
  assumes "\<bar>m\<bar> \<le> 2 ^ 53"
  shows "to_double (of_int m) = of_int m"
proof (cases "m = 0")
  case True
  then show ?thesis by simp
next
  case False
  define x where "x = \<bar>real_of_int m\<bar>"
  have nz: "real_of_int m \<noteq> 0" using False by simp
  have x1: "1 \<le> x"
  proof -
    have "1 \<le> \<bar>m\<bar>" using False by simp
    then have "real_of_int 1 \<le> real_of_int \<bar>m\<bar>" by (simp only: of_int_le_iff)
    then show ?thesis by (simp add: x_def)
  qed
  have x2: "x \<le> 2 ^ 53"
  proof -
    have "real_of_int \<bar>m\<bar> \<le> real_of_int (2 ^ 53)" using assms by (simp only: of_int_le_iff)
    then show ?thesis by (simp add: x_def)
  qed
  have pos: "0 < x" using x1 by simp
  define e where "e = exponent x"
  note b = exponent_bounds [OF pos, folded e_def]
  have e0: "0 \<le> e"
  proof (rule ccontr)
    assume "\<not> 0 \<le> e"
    then have "e + 1 \<le> 0" by simp
    then have "(2::real) powi (e + 1) \<le> 2 powi 0" by (rule power_int_increasing) simp
    with b(2) x1 show False by simp
  qed
  have e53: "e \<le> 53"
  proof (rule ccontr)
    assume "\<not> e \<le> 53"
    then have "54 \<le> e" by simp
    then have "(2::real) powi 54 \<le> 2 powi e" by (rule power_int_increasing) simp
    with b(1) x2 show False by simp
  qed
  have q: "quantum (of_int m) = 2 powi (e - 52)"
    using e0 by (simp add: quantum_def e_def x_def)
  show ?thesis
  proof (cases "e = 53")
    case True
    with b(1) x2 have "x = 2 ^ 53" by simp
    then have "\<bar>real_of_int m\<bar> = of_int (2 ^ 52) * quantum (of_int m)"
      by (simp add: q True x_def)
    with nz show ?thesis by (rule to_double_exact)
  next
    case False
    with e53 have le: "e \<le> 52" by simp
    define d where "d = nat (52 - e)"
    have "(2::real) powi (e - 52) * 2 powi (52 - e) = 2 powi (e - 52 + (52 - e))"
      by (rule pow2_split [symmetric])
    then have "(2::real) powi (e - 52) * 2 ^ d = 1"
      using le by (simp add: d_def power_int_def)
    then have "\<bar>real_of_int m\<bar> = of_int (\<bar>m\<bar> * 2 ^ d) * quantum (of_int m)"
      by (simp add: q mult.assoc mult.commute)
    with nz show ?thesis by (rule to_double_exact)
  qed
qed

lemma fl_Fin:
  assumes "\<bar>x\<bar> \<le> 2 powi k" and "- 1022 \<le> k" and "k \<le> 1022"
  shows "fl x = Fin (to_double x)"
proof -
  have "\<bar>to_double x - x\<bar> \<le> 2 powi (k - 53)" by (rule to_double_error [OF assms(1,2)])
  moreover have "(2::real) powi (k - 53) \<le> 2 powi k" by (rule power_int_increasing) simp_all
  ultimately have "\<bar>to_double x\<bar> \<le> 2 powi k + 2 powi k" using assms(1) by linarith
  also have "\<dots> = 2 powi (k + 1)" by (simp add: pow2_split)
  also have "\<dots> \<le> 2 powi 1023" using assms(3) by (intro power_int_increasing) simp_all
  also have "\<dots> < 2 powi 1024" by (intro power_int_strict_increasing) simp_all
  finally have "\<bar>to_double x\<bar> < 2 ^ 1024" by simp
  then show ?thesis by (auto simp: fl_def Let_def abs_less_iff)
qed

lemma to_double_eval:
  assumes "2 powi k \<le> x" and "x < 2 powi (k + 1)" and "- 1022 \<le> k"
  shows "to_double x = of_int (round_half_even (x / 2 powi (k - 52))) * 2 powi (k - 52)"
proof -
  have pos: "0 < x" using assms(1) zero_less_power_int [of "2::real" k] by linarith
  have "exponent x = k" by (rule exponent_unique [OF assms(1,2)])
  with assms(3) have "quantum x = 2 powi (k - 52)" using pos by (simp add: quantum_eq)
  with pos show ?thesis by (simp add: to_double_pos)
qed

lemma round_half_even_add_2: "round_half_even (t + 2) = round_half_even t + 2"
proof -
  have "\<lfloor>t + 2\<rfloor> = \<lfloor>t\<rfloor> + 2" by linarith
  then show ?thesis by (simp add: round_half_even_def Let_def)
qed

lemma to_double_error_quantum: "\<bar>to_double x - x\<bar> \<le> quantum x / 2"
proof (cases "x = 0")
  case True
  then show ?thesis by (simp add: less_imp_le)
next
  case False
  define q where "q = quantum x"
  have q: "0 < q" by (simp add: q_def)
  define r where "r = round_half_even (\<bar>x\<bar> / q)"
  have rd: "to_double x = sgn x * (of_int r * q)"
    using False by (simp add: to_double_def r_def q_def)
  have "to_double x - x = sgn x * (of_int r * q) - sgn x * \<bar>x\<bar>"
    by (simp add: rd sgn_mult_abs)
  then have "to_double x - x = sgn x * (of_int r * q - \<bar>x\<bar>)"
    by (simp only: right_diff_distrib)
  then have "\<bar>to_double x - x\<bar> = \<bar>of_int r * q - \<bar>x\<bar>\<bar>"
    using False by (simp add: abs_mult abs_sgn_eq)
  also have "of_int r * q - \<bar>x\<bar> = (of_int r - \<bar>x\<bar> / q) * q"
    using q by (simp add: field_simps)
  also have "\<bar>\<dots>\<bar> = \<bar>of_int r - \<bar>x\<bar> / q\<bar> * q" using q by (simp add: abs_mult)
  also have "\<dots> \<le> 1 / 2 * q"
    using round_half_even_error [of "\<bar>x\<bar> / q"] q unfolding r_def
    by (intro mult_right_mono) simp_all
  finally show ?thesis by (simp add: q_def)
qed

lemma to_double_error_strict:
  assumes "\<bar>x\<bar> < 2 powi k" and "- 1021 \<le> k"
  shows "\<bar>to_double x - x\<bar> \<le> 2 powi (k - 54)"
proof (cases "x = 0")
  case True
  then show ?thesis by simp
next
  case False
  then have pos: "0 < \<bar>x\<bar>" by simp
  have "exponent \<bar>x\<bar> < k"
  proof (rule ccontr)
    assume "\<not> exponent \<bar>x\<bar> < k"
    then have "k \<le> exponent \<bar>x\<bar>" by simp
    then have "(2::real) powi k \<le> 2 powi exponent \<bar>x\<bar>" by (rule power_int_increasing) simp
    moreover have "2 powi exponent \<bar>x\<bar> \<le> \<bar>x\<bar>" by (rule exponent_bounds [OF pos])
    ultimately show False using assms(1) by linarith
  qed
  with assms(2) have E: "max (exponent \<bar>x\<bar>) (- 1022) - 52 \<le> k - 53" by simp
  have "quantum x \<le> 2 powi (k - 53)"
    unfolding quantum_def using E by (rule power_int_increasing) simp
  moreover have "(2::real) powi (k - 53) = 2 * 2 powi (k - 54)"
  proof -
    have "k - 53 = 1 + (k - 54)" by simp
    then have "(2::real) powi (k - 53) = 2 powi (1 + (k - 54))" by (simp only:)
    also have "\<dots> = 2 powi 1 * 2 powi (k - 54)" by (rule pow2_split)
    finally show ?thesis by simp
  qed
  ultimately show ?thesis using to_double_error_quantum [of x] by linarith
qed

lemma to_double_pow52: "to_double (2 ^ 52) = 2 ^ 52" "to_double (- (2 ^ 52)) = - (2 ^ 52)"
  using to_double_of_int [of "2 ^ 52"] to_double_of_int [of "- (2 ^ 52)"] by simp_all

lemma to_double_error_52:
  assumes "\<bar>x\<bar> \<le> 2 ^ 52"
  shows "\<bar>to_double x - x\<bar> \<le> 1 / 4"
proof (cases "\<bar>x\<bar> < 2 ^ 52")
  case True
  then have "\<bar>x\<bar> < 2 powi 52" by simp
  from to_double_error_strict [OF this] show ?thesis by simp
next
  case False
  with assms have "x = 2 ^ 52 \<or> x = - (2 ^ 52)" by (simp add: abs_if split: if_splits)
  then show ?thesis using to_double_pow52 by auto
qed

lemma to_double_bound_52:
  assumes "\<bar>x\<bar> \<le> 2 ^ 52"
  shows "\<bar>to_double x\<bar> \<le> 2 ^ 52"
proof -
  have "- (2 ^ 52) \<le> x" "x \<le> 2 ^ 52" using assms by (simp_all add: abs_le_iff)
  from to_double_mono [OF this(1)] to_double_mono [OF this(2)] show ?thesis
    unfolding to_double_pow52 by (simp add: abs_le_iff)
qed

lemma to_double_shift:
  assumes "2 ^ 51 \<le> y" and "y + 1 < 2 ^ 52"
  shows "to_double (y + 1) = to_double y + 1"
proof -
  have a: "2 powi 51 \<le> y" "y < 2 powi (51 + 1)" using assms by simp_all
  have b: "2 powi 51 \<le> y + 1" "y + 1 < 2 powi (51 + 1)" using assms by simp_all
  have "to_double y = of_int (round_half_even (y * 2)) / 2"
    using to_double_eval [OF a] by simp
  moreover have "to_double (y + 1) = of_int (round_half_even (y * 2 + 2)) / 2"
    using to_double_eval [OF b] by (simp add: algebra_simps)
  ultimately show ?thesis by (simp add: round_half_even_add_2)
qed

lemma to_double_step:
  assumes "2 ^ 51 \<le> y" and "y + 1 \<le> 2 ^ 52"
  shows "to_double (y + 1) = to_double y + 1"
proof (cases "y + 1 < 2 ^ 52")
  case True
  with assms(1) show ?thesis by (rule to_double_shift)
next
  case False
  with assms(2) have y: "y = real_of_int (2 ^ 52 - 1)" by simp
  have "to_double (real_of_int (2 ^ 52 - 1)) = real_of_int (2 ^ 52 - 1)"
    by (rule to_double_of_int) simp
  moreover have "to_double (real_of_int (2 ^ 52 - 1) + 1) = real_of_int (2 ^ 52 - 1) + 1"
    using to_double_pow52(1) by simp
  ultimately show ?thesis unfolding y by simp
qed

lemma to_double_next:
  assumes "\<bar>y\<bar> \<le> 2 ^ 52" and "\<bar>y + 1\<bar> \<le> 2 ^ 52"
  shows "to_double y + 5 / 8 \<le> to_double (y + 1)"
proof -
  have "(1::real) \<le> 2 ^ 51" by simp
  then have "\<bar>y\<bar> < 2 ^ 51 \<or> \<bar>y + 1\<bar> < 2 ^ 51 \<or> 2 ^ 51 \<le> y \<or> y + 1 \<le> - (2 ^ 51)"
    by linarith
  then consider "\<bar>y\<bar> < 2 ^ 51" | "\<bar>y + 1\<bar> < 2 ^ 51" | "2 ^ 51 \<le> y" | "y + 1 \<le> - (2 ^ 51)"
    by blast
  then show ?thesis
  proof cases
    case 1
    then have "\<bar>y\<bar> < 2 powi 51" by simp
    from to_double_error_strict [OF this] have "\<bar>to_double y - y\<bar> \<le> 1 / 8" by simp
    with to_double_error_52 [OF assms(2)] show ?thesis by linarith
  next
    case 2
    then have "\<bar>y + 1\<bar> < 2 powi 51" by simp
    from to_double_error_strict [OF this] have "\<bar>to_double (y + 1) - (y + 1)\<bar> \<le> 1 / 8" by simp
    with to_double_error_52 [OF assms(1)] show ?thesis by linarith
  next
    case 3
    moreover have "y + 1 \<le> 2 ^ 52" using assms(2) by (simp add: abs_le_iff)
    ultimately have "to_double (y + 1) = to_double y + 1" by (rule to_double_step)
    then show ?thesis by simp
  next
    case 4
    then have a: "2 ^ 51 \<le> - (y + 1)" by simp
    have b: "- (y + 1) + 1 \<le> 2 ^ 52" using assms(1) by (simp add: abs_le_iff)
    from to_double_step [OF a b] have "to_double (- y) = to_double (- (y + 1)) + 1" by simp
    then have "to_double (y + 1) = to_double y + 1"
      unfolding to_double_minus [of y] to_double_minus [of "y + 1"] by linarith
    then show ?thesis by simp
  qed
qed

subsection \<open>The roundings of the log coordinate\<close>

lemma py_int_mono: "x \<le> y \<Longrightarrow> py_int x \<le> py_int y"
proof -
  assume xy: "x \<le> y"
  consider "0 \<le> x" | "x < 0" "0 \<le> y" | "y < 0" by linarith
  then show ?thesis
  proof cases
    case 1
    with xy show ?thesis by (simp add: py_int_def floor_mono)
  next
    case 2
    then have "\<lceil>x\<rceil> \<le> 0" "0 \<le> \<lfloor>y\<rfloor>" by (simp_all add: ceiling_le_zero)
    then have "\<lceil>x\<rceil> \<le> \<lfloor>y\<rfloor>" by linarith
    with 2 show ?thesis by (simp add: py_int_def)
  next
    case 3
    with xy show ?thesis by (simp add: py_int_def ceiling_mono)
  qed
qed

lemma py_int_error: "\<bar>real_of_int (py_int x) - x\<bar> < 1"
  unfolding py_int_def by (simp add: abs_if) linarith

lemma py_int_less:
  assumes "x + 2 \<le> y"
  shows "py_int x < py_int y"
proof -
  have "real_of_int (py_int x) < x + 1" using py_int_error [of x] by linarith
  moreover have "y - 1 < real_of_int (py_int y)" using py_int_error [of y] by linarith
  ultimately have "real_of_int (py_int x) < real_of_int (py_int y)" using assms by linarith
  then show ?thesis by (simp only: of_int_less_iff)
qed

lemma mono_to_double: "mono to_double"
  by (rule monoI) (rule to_double_mono)

lemma to_double_1 [simp]: "to_double 1 = 1"
  using to_double_of_int [of 1] by simp

lemma to_double_unit:
  assumes "0 \<le> x" "x \<le> 1"
  shows "0 \<le> to_double x" and "to_double x \<le> 1"
  using to_double_mono [OF assms(1)] to_double_mono [OF assms(2)] by simp_all

lemma int_true_div_Inr: "int_true_div i n = Inr q \<Longrightarrow> 0 < n \<and> q = to_double (real i / real n)"
  by (auto simp: int_true_div_def fl_def Let_def split: if_splits)

lemma int_to_float_Inr: "int_to_float e = Inr x \<Longrightarrow> x = to_double (real_of_int e)"
  by (auto simp: int_to_float_def fl_def Let_def split: if_splits)

lemma float_to_int_Inr:
  "float_to_int (times_1000 (float_add a b)) = Inr x \<Longrightarrow>
   x = py_int (to_double (to_double (a + b) * 1000))"
  by (auto simp: float_add_def fl_def Let_def split: if_splits)

lemma epoch_1000x_Inr:
  assumes "epoch_1000x i n e = Inr x"
  shows "0 < n" and "x = epoch_1000x_rounded to_double i n e"
proof -
  from assms obtain q ef where q: "int_true_div i n = Inr q" and ef: "int_to_float e = Inr ef"
    and x: "float_to_int (times_1000 (float_add q ef)) = Inr x"
    by (auto simp: epoch_1000x_def split: sum.splits)
  from int_true_div_Inr [OF q] show "0 < n" by simp
  from int_true_div_Inr [OF q] int_to_float_Inr [OF ef] float_to_int_Inr [OF x]
  show "x = epoch_1000x_rounded to_double i n e" by (simp add: epoch_1000x_rounded_def)
qed

lemma epoch_1000x_not_exit: "epoch_1000x i n e \<noteq> Inl (SystemExit c)"
proof -
  have a: "float_to_int v \<noteq> Inl (SystemExit c)" for v by (cases v) simp_all
  show ?thesis
    using a by (auto simp: epoch_1000x_def int_true_div_def int_to_float_def
        split: sum.splits pyfloat.splits if_splits)
qed

lemma epoch_1000x_rounded_mono:
  assumes "mono rnd" and "i \<le> j"
  shows "epoch_1000x_rounded rnd i n e \<le> epoch_1000x_rounded rnd j n e"
proof -
  have "real i / real n \<le> real j / real n"
    using assms(2) by (simp add: divide_right_mono)
  then have "rnd (real i / real n) \<le> rnd (real j / real n)"
    by (rule monoD [OF assms(1)])
  then have "rnd (real i / real n) + rnd (real_of_int e) \<le> rnd (real j / real n) + rnd (real_of_int e)"
    by simp
  then have "rnd (rnd (real i / real n) + rnd (real_of_int e))
      \<le> rnd (rnd (real j / real n) + rnd (real_of_int e))"
    by (rule monoD [OF assms(1)])
  then have "rnd (rnd (real i / real n) + rnd (real_of_int e)) * 1000
      \<le> rnd (rnd (real j / real n) + rnd (real_of_int e)) * 1000"
    by simp
  then have "rnd (rnd (rnd (real i / real n) + rnd (real_of_int e)) * 1000)
      \<le> rnd (rnd (rnd (real j / real n) + rnd (real_of_int e)) * 1000)"
    by (rule monoD [OF assms(1)])
  then show ?thesis
    unfolding epoch_1000x_rounded_def by (rule py_int_mono)
qed

lemma epoch_1000x_mono:
  assumes "epoch_1000x i n e = Inr a" and "epoch_1000x j n e = Inr b" and "i \<le> j"
  shows "a \<le> b"
  unfolding epoch_1000x_Inr(2) [OF assms(1)] epoch_1000x_Inr(2) [OF assms(2)]
  by (rule epoch_1000x_rounded_mono [OF mono_to_double assms(3)])

text \<open>The three roundings of the coordinate, for an epoch of magnitude below \<open>2 ^ k\<close>.\<close>

lemma coordinate_analysis:
  fixes k :: nat
  assumes n: "0 < n" and i: "i \<le> n" and e: "\<bar>e\<bar> + 1 \<le> 2 ^ k" and k: "k \<le> 53"
  obtains s p where "epoch_1000x i n e = Inr (py_int p)"
    and "0 \<le> to_double (real i / real n)" and "to_double (real i / real n) \<le> 1"
    and "\<bar>to_double (real i / real n) - real i / real n\<bar> \<le> 2 powi (int k - 53)"
    and "\<bar>s - (to_double (real i / real n) + real_of_int e)\<bar> \<le> 2 powi (int k - 53)"
    and "\<bar>p - s * 1000\<bar> \<le> 1024 * 2 powi (int k - 53)"
    and "s = to_double (to_double (real i / real n) + real_of_int e)"
    and "p = to_double (s * 1000)"
proof -
  define a where "a = to_double (real i / real n)"
  define s where "s = to_double (a + real_of_int e)"
  define p where "p = to_double (s * 1000)"
  define u :: real where "u = 2 powi (int k - 53)"
  have u: "0 < u" by (simp add: u_def)
  have pk: "(2::real) powi int k = 2 ^ 53 * u"
  proof -
    have "int k = 53 + (int k - 53)" by simp
    then have "(2::real) powi int k = 2 powi (53 + (int k - 53))" by (simp only:)
    also have "\<dots> = 2 powi 53 * 2 powi (int k - 53)" by (rule pow2_split)
    finally show ?thesis by (simp add: u_def)
  qed
  have q: "0 \<le> real i / real n" "real i / real n \<le> 1" using n i by simp_all
  have a0: "0 \<le> a" and a1: "a \<le> 1" unfolding a_def by (rule to_double_unit [OF q])+
  have q0: "\<bar>real i / real n\<bar> \<le> 2 powi 0" using q by simp
  have "\<bar>a - real i / real n\<bar> \<le> 2 powi (0 - 53)"
    unfolding a_def by (rule to_double_error [OF q0]) simp
  also have "\<dots> \<le> u" unfolding u_def by (rule power_int_increasing) simp_all
  finally have au: "\<bar>a - real i / real n\<bar> \<le> u" .
  have d: "int_true_div i n = Inr a"
    using n fl_Fin [OF q0] by (simp add: int_true_div_def a_def)
  have er: "\<bar>real_of_int e\<bar> + 1 \<le> 2 powi int k"
  proof -
    have "real_of_int (\<bar>e\<bar> + 1) \<le> real_of_int (2 ^ k)" using e by (simp only: of_int_le_iff)
    then show ?thesis by simp
  qed
  have e53: "\<bar>e\<bar> \<le> 2 ^ 53"
  proof -
    have "(2::int) ^ k \<le> 2 ^ 53" using k by (intro power_increasing) simp_all
    with e show ?thesis by linarith
  qed
  have ee: "to_double (real_of_int e) = real_of_int e" by (rule to_double_of_int [OF e53])
  have e53r: "\<bar>real_of_int e\<bar> \<le> 2 powi 53"
  proof -
    have "real_of_int \<bar>e\<bar> \<le> real_of_int (2 ^ 53)" using e53 by (simp only: of_int_le_iff)
    then show ?thesis by simp
  qed
  have f: "int_to_float e = Inr (real_of_int e)"
    using fl_Fin [OF e53r] by (simp add: int_to_float_def ee)
  have ae: "\<bar>a + real_of_int e\<bar> \<le> 2 powi int k" using a0 a1 er by linarith
  have kk: "- 1022 \<le> int k" "int k \<le> 1022" using k by simp_all
  have fs: "float_add a (real_of_int e) = Fin s"
    using fl_Fin [OF ae kk] by (simp add: float_add_def s_def)
  have se: "\<bar>s - (a + real_of_int e)\<bar> \<le> u"
    unfolding s_def u_def by (rule to_double_error [OF ae kk(1)])
  have "\<bar>s\<bar> \<le> 2 ^ 53 * u + u" using se ae unfolding pk by linarith
  then have "\<bar>s\<bar> * 1000 \<le> 1024 * (2 ^ 53 * u)" using u by simp
  also have "\<dots> = 2 powi (int k + 10)"
  proof -
    have "(2::real) powi (int k + 10) = 2 powi int k * 2 powi 10" by (rule pow2_split)
    then show ?thesis unfolding pk by simp
  qed
  finally have s1000: "\<bar>s * 1000\<bar> \<le> 2 powi (int k + 10)" by (simp add: abs_mult)
  have kk2: "- 1022 \<le> int k + 10" "int k + 10 \<le> 1022" using k by simp_all
  have fp: "fl (s * 1000) = Fin p"
    using fl_Fin [OF s1000 kk2] by (simp add: p_def)
  have "\<bar>p - s * 1000\<bar> \<le> 2 powi (int k + 10 - 53)"
    unfolding p_def by (rule to_double_error [OF s1000 kk2(1)])
  also have "\<dots> = 1024 * u"
  proof -
    have "int k + 10 - 53 = 10 + (int k - 53)" by simp
    then have "(2::real) powi (int k + 10 - 53) = 2 powi (10 + (int k - 53))" by (simp only:)
    also have "\<dots> = 2 powi 10 * 2 powi (int k - 53)" by (rule pow2_split)
    finally show ?thesis by (simp add: u_def)
  qed
  finally have pe: "\<bar>p - s * 1000\<bar> \<le> 1024 * u" .
  have x: "epoch_1000x i n e = Inr (py_int p)"
    by (simp add: epoch_1000x_def d f fs fp)
  show thesis
    by (rule that [of p s]) (use x a0 a1 au se pe s_def p_def in \<open>simp_all only: a_def u_def\<close>)
qed

lemma epoch_1000x_pinned:
  fixes k :: nat
  assumes "0 < n" and "i \<le> n" and "\<bar>e\<bar> + 1 \<le> 2 ^ k" and "k \<le> 53"
  shows "\<exists>x. epoch_1000x i n e = Inr x \<and>
           \<bar>real_of_int x - (real i / real n + real_of_int e) * 1000\<bar> < 1 + 2 powi (int k - 41)"
proof -
  define u :: real where "u = 2 powi (int k - 53)"
  define t where "t = real i / real n"
  from coordinate_analysis [OF assms] obtain s p where
    x: "epoch_1000x i n e = Inr (py_int p)"
    and au: "\<bar>to_double t - t\<bar> \<le> u"
    and se: "\<bar>s - (to_double t + real_of_int e)\<bar> \<le> u"
    and pe: "\<bar>p - s * 1000\<bar> \<le> 1024 * u"
    unfolding u_def t_def by blast
  have u: "0 < u" by (simp add: u_def)
  have k41: "(2::real) powi (int k - 41) = 4096 * u"
  proof -
    have "int k - 41 = 12 + (int k - 53)" by simp
    then have "(2::real) powi (int k - 41) = 2 powi (12 + (int k - 53))" by (simp only:)
    also have "\<dots> = 2 powi 12 * 2 powi (int k - 53)" by (rule pow2_split)
    finally show ?thesis by (simp add: u_def)
  qed
  have "\<bar>p - (t + real_of_int e) * 1000\<bar> \<le> 3024 * u"
    using au se pe unfolding abs_le_iff by (simp only: distrib_right) linarith
  moreover have "\<bar>real_of_int (py_int p) - p\<bar> < 1" by (rule py_int_error)
  ultimately have "\<bar>real_of_int (py_int p) - (t + real_of_int e) * 1000\<bar> < 1 + 4096 * u"
    using u by linarith
  then have "\<bar>real_of_int (py_int p) - (real i / real n + real_of_int e) * 1000\<bar>
      < 1 + 2 powi (int k - 41)"
    unfolding k41 t_def .
  with x show ?thesis by blast
qed

lemma epoch_1000x_next_epoch:
  assumes "0 < n" and "i \<le> n" and "- (2 ^ 52) < e" and "e + 1 < 2 ^ 52"
  shows "\<exists>a b. epoch_1000x i n e = Inr a \<and> epoch_1000x i n (e + 1) = Inr b \<and> a < b"
proof -
  define a where "a = to_double (real i / real n)"
  have e1: "\<bar>e\<bar> + 1 \<le> 2 ^ 52" and e2: "\<bar>e + 1\<bar> + 1 \<le> 2 ^ 52" using assms(3,4) by simp_all
  have k: "(52::nat) \<le> 53" by simp
  from coordinate_analysis [OF assms(1,2) e1 k] obtain s1 p1 where
    x1: "epoch_1000x i n e = Inr (py_int p1)"
    and a0: "0 \<le> a" and a1: "a \<le> 1"
    and s1: "s1 = to_double (a + real_of_int e)"
    and p1: "p1 = to_double (s1 * 1000)"
    unfolding a_def by blast
  from coordinate_analysis [OF assms(1,2) e2 k] obtain s2 p2 where
    x2: "epoch_1000x i n (e + 1) = Inr (py_int p2)"
    and s2: "s2 = to_double (a + real_of_int (e + 1))"
    and p2: "p2 = to_double (s2 * 1000)"
    unfolding a_def by blast
  have er: "- (2 ^ 52) + 1 \<le> real_of_int e" "real_of_int e + 2 \<le> 2 ^ 52"
  proof -
    have "- (2 ^ 52) + 1 \<le> e" using assms(3) by simp
    then have "real_of_int (- (2 ^ 52) + 1) \<le> real_of_int e" by (simp only: of_int_le_iff)
    then show "- (2 ^ 52) + 1 \<le> real_of_int e" by simp
    have "e + 2 \<le> 2 ^ 52" using assms(4) by simp
    then have "real_of_int (e + 2) \<le> real_of_int (2 ^ 52)" by (simp only: of_int_le_iff)
    then show "real_of_int e + 2 \<le> 2 ^ 52" by simp
  qed
  have y1: "\<bar>a + real_of_int e\<bar> \<le> 2 ^ 52" and y2: "\<bar>a + real_of_int e + 1\<bar> \<le> 2 ^ 52"
    using a0 a1 er by (simp_all add: abs_le_iff)
  have s2': "s2 = to_double (a + real_of_int e + 1)" unfolding s2 by (simp add: add.assoc)
  have d: "s1 + 5 / 8 \<le> s2" unfolding s1 s2' by (rule to_double_next [OF y1 y2])
  have b1: "\<bar>s1\<bar> \<le> 2 ^ 52" unfolding s1 by (rule to_double_bound_52 [OF y1])
  have b2: "\<bar>s2\<bar> \<le> 2 ^ 52" unfolding s2' by (rule to_double_bound_52 [OF y2])
  have z1: "\<bar>s1 * 1000\<bar> < 2 powi 62" using b1 by (simp add: abs_mult)
  have z2: "\<bar>s2 * 1000\<bar> < 2 powi 62" using b2 by (simp add: abs_mult)
  have q1: "\<bar>p1 - s1 * 1000\<bar> \<le> 256" using to_double_error_strict [OF z1] unfolding p1 by simp
  have q2: "\<bar>p2 - s2 * 1000\<bar> \<le> 256" using to_double_error_strict [OF z2] unfolding p2 by simp
  have "p1 + 2 \<le> p2" using d q1 q2 by linarith
  from py_int_less [OF this] x1 x2 show ?thesis by blast
qed

lemma fl_eval: "to_double x = y \<Longrightarrow> \<bar>y\<bar> < 2 ^ 1024 \<Longrightarrow> fl x = Fin y"
  by (auto simp: fl_def Let_def abs_less_iff)

lemma epoch_1000x_eval:
  assumes "0 < n"
    and "to_double (real i / real n) = a" and "\<bar>a\<bar> < 2 ^ 1024"
    and "to_double (real_of_int e) = ef" and "\<bar>ef\<bar> < 2 ^ 1024"
    and "to_double (a + ef) = s" and "\<bar>s\<bar> < 2 ^ 1024"
    and "to_double (s * 1000) = p" and "\<bar>p\<bar> < 2 ^ 1024"
  shows "epoch_1000x i n e = Inr (py_int p)"
  using assms(1) fl_eval [OF assms(2,3)] fl_eval [OF assms(4,5)] fl_eval [OF assms(6,7)]
    fl_eval [OF assms(8,9)]
  by (simp add: epoch_1000x_def int_true_div_def int_to_float_def float_add_def)

lemma epoch_1000x_0_3_2: "epoch_1000x 0 3 2 = Inr 2000"
proof -
  have a: "to_double (real 0 / real 3) = 0" by simp
  have ef: "to_double (real_of_int 2) = 2" using to_double_of_int [of 2] by simp
  have s: "to_double (0 + 2) = 2" using to_double_of_int [of 2] by simp
  have p: "to_double (2 * 1000) = 2000" using to_double_of_int [of 2000] by simp
  from epoch_1000x_eval [OF _ a _ ef _ s _ p] show ?thesis by (simp add: py_int_def)
qed

lemma epoch_1000x_9_25_1: "epoch_1000x 9 25 1 = Inr 1359"
proof -
  have a: "to_double (real 9 / real 25) = 3242591731706757 / 2 ^ 53"
    using to_double_eval [of "- 2" "9 / 25"] by (simp add: round_half_even_def)
  have ef: "to_double (real_of_int 1) = 1" by simp
  have s: "to_double (3242591731706757 / 2 ^ 53 + 1) = 3062447746611937 / 2 ^ 51"
    using to_double_eval [of 0 "3242591731706757 / 2 ^ 53 + 1"] by (simp add: round_half_even_def)
  have p: "to_double (3062447746611937 / 2 ^ 51 * 1000) = 5981343255101439 / 2 ^ 42"
    using to_double_eval [of 10 "3062447746611937 / 2 ^ 51 * 1000"] by (simp add: round_half_even_def)
  from epoch_1000x_eval [OF _ a _ ef _ s _ p] show ?thesis by (simp add: py_int_def)
qed

lemma epoch_1000x_10_25_1: "epoch_1000x 10 25 1 = Inr 1400"
proof -
  have a: "to_double (real 10 / real 25) = 3602879701896397 / 2 ^ 53"
    using to_double_eval [of "- 2" "10 / 25"] by (simp add: round_half_even_def)
  have ef: "to_double (real_of_int 1) = 1" by simp
  have s: "to_double (3602879701896397 / 2 ^ 53 + 1) = 3152519739159347 / 2 ^ 51"
    using to_double_eval [of 0 "3602879701896397 / 2 ^ 53 + 1"] by (simp add: round_half_even_def)
  have p: "to_double (3152519739159347 / 2 ^ 51 * 1000) = 1400"
    using to_double_eval [of 10 "3152519739159347 / 2 ^ 51 * 1000"] by (simp add: round_half_even_def)
  from epoch_1000x_eval [OF _ a _ ef _ s _ p] show ?thesis by (simp add: py_int_def)
qed

lemma epoch_1000x_2_53: "epoch_1000x 0 1 (2 ^ 53) = Inr 9007199254740992000"
proof -
  have a: "to_double (real 0 / real 1) = 0" by simp
  have ef: "to_double (real_of_int (2 ^ 53)) = 2 ^ 53" using to_double_of_int [of "2 ^ 53"] by simp
  have s: "to_double (0 + 2 ^ 53) = 2 ^ 53" using to_double_of_int [of "2 ^ 53"] by simp
  have p: "to_double (2 ^ 53 * 1000) = 9007199254740992000"
    using to_double_eval [of 62 "2 ^ 53 * 1000"] by (simp add: round_half_even_def)
  from epoch_1000x_eval [OF _ a _ ef _ s _ p] show ?thesis by (simp add: py_int_def)
qed

lemma epoch_1000x_2_53_1: "epoch_1000x 0 1 (2 ^ 53 + 1) = Inr 9007199254740992000"
proof -
  have a: "to_double (real 0 / real 1) = 0" by simp
  have ef: "to_double (real_of_int (2 ^ 53 + 1)) = 2 ^ 53"
    using to_double_eval [of 53 "2 ^ 53 + 1"] by (simp add: round_half_even_def)
  have s: "to_double (0 + 2 ^ 53) = 2 ^ 53" using to_double_of_int [of "2 ^ 53"] by simp
  have p: "to_double (2 ^ 53 * 1000) = 9007199254740992000"
    using to_double_eval [of 62 "2 ^ 53 * 1000"] by (simp add: round_half_even_def)
  from epoch_1000x_eval [OF _ a _ ef _ s _ p] show ?thesis by (simp add: py_int_def)
qed

section \<open>Properties of the training driver\<close>

lemma trace_emit [simp]: "trace (emit ev s) = trace s @ [ev]"
  by (simp add: emit_def)

lemma model_emit [simp]: "model (emit ev s) = model s"
  and optimizer_emit [simp]: "optimizer (emit ev s) = optimizer s"
  and model_ema_emit [simp]: "model_ema (emit ev s) = model_ema s"
  and meters_emit [simp]: "meters (emit ev s) = meters s"
  by (simp_all add: emit_def)

lemma trace_optimize:
  "trace (optimize C args loss s) =
     trace s @ [ZeroGrad, LossScaler (max_norm args) (second_order C (optimizer s)), CudaSynchronize]
       @ (case model_ema s of None \<Rightarrow> [] | Some e \<Rightarrow> [EmaUpdate])"
  by (simp add: optimize_def second_order_def Let_def split: prod.splits option.splits)

lemma train_loop_append:
  "train_loop C args n i (pre @ rest) s0 =
     (case train_loop C args n i pre s0 of
        (Some e, s) \<Rightarrow> (Some e, s)
      | (None, s) \<Rightarrow> train_loop C args n (i + length pre) rest s)"
  by (induction pre arbitrary: i s0) (auto split: prod.splits option.splits)

lemma train_step_nonfinite:
  "\<not> isfinite (loss_value C args (model s) b) \<Longrightarrow>
   train_step C args n i b s =
     (Some (SystemExit 1),
      s\<lparr>trace := trace s @ forward_events args @ [Print (LossStop (loss_value C args (model s) b))]\<rparr>)"
  by (simp add: train_step_def loss_value_def Let_def emit_def)

lemma record_step_no_exit: "fst (record_step C args n i lv s) \<noteq> Some (SystemExit c)"
  using epoch_1000x_not_exit [of i n "epoch args" c]
  by (auto simp: record_step_def Let_def read_lr_def
      split: sum.splits option.splits list.splits if_splits)

lemma train_step_finite:
  "isfinite (loss_value C args (model s) b) \<Longrightarrow> fst (train_step C args n i b s) \<noteq> Some (SystemExit c)"
  by (simp add: train_step_def loss_value_def Let_def record_step_no_exit)

lemma train_loop_exit:
  "fst (train_loop C args n i bs s0) = Some (SystemExit c) \<Longrightarrow>
   c = 1 \<and> (\<exists>pre b rest s. bs = pre @ b # rest \<and> train_loop C args n i pre s0 = (None, s)
              \<and> \<not> isfinite (loss_value C args (model s) b))"
proof (induction bs arbitrary: i s0)
  case Nil
  then show ?case by simp
next
  case (Cons b bs)
  show ?case
  proof (cases "train_step C args n i b s0")
    case (Pair r s1)
    show ?thesis
    proof (cases r)
      case None
      with Pair Cons.prems have "fst (train_loop C args n (Suc i) bs s1) = Some (SystemExit c)"
        by simp
      from Cons.IH [OF this] obtain pre b' rest s where
        c: "c = 1" and bs: "bs = pre @ b' # rest"
        and pre: "train_loop C args n (Suc i) pre s1 = (None, s)"
        and nf: "\<not> isfinite (loss_value C args (model s) b')"
        by blast
      have "train_loop C args n i (b # pre) s0 = (None, s)"
        using Pair None pre by simp
      with c bs nf show ?thesis
        by (metis append_Cons)
    next
      case (Some e)
      with Pair Cons.prems have e: "e = SystemExit c" by simp
      have nf: "\<not> isfinite (loss_value C args (model s0) b)"
        using train_step_finite [of C args s0 b n i c] Pair Some e by auto
      have "c = 1"
        using train_step_nonfinite [OF nf, of n i] Pair Some e by simp
      moreover have "train_loop C args n i [] s0 = (None, s0)" by simp
      ultimately show ?thesis using nf by (metis append_Nil)
    qed
  qed
qed

subsection \<open>The concrete run\<close>

lemmas demo_defs = demo_collaborators_def demo_args_def demo_state_def
  train_step_def record_step_def optimize_def read_lr_def batch_loss_def mixed_batch_def
  loss_value_def forward_events_def emit_def epoch_1000x_0_3_2 logger_update_def
  meter_update_def second_order_def Let_def

lemma demo_first:
  "train_loop demo_collaborators demo_args 3 0 [(Fin 1, 0)] demo_state =
     (None, \<lparr>model = 1,
       optimizer = \<lparr>param_groups = [[''lr'' \<mapsto> Fin (1 / 10)]], is_second_order = None, internals = 1\<rparr>,
       model_ema = Some 1, meters = [''loss'' \<mapsto> [(Fin 1, 1)], ''lr'' \<mapsto> [(Fin (1 / 10), 1)]],
       trace = [Forward, ZeroGrad, LossScaler 0 False, CudaSynchronize, EmaUpdate, AllReduceMean (Fin 1),
                AddScalar ''loss'' (Fin 1) 2000, AddScalar ''lr'' (Fin (1 / 10)) 2000]\<rparr>)"
  by (simp add: demo_defs)

lemma demo_step:
  "train_step demo_collaborators demo_args 3 0 (Fin 1, 0) demo_state =
     (None, \<lparr>model = 1,
       optimizer = \<lparr>param_groups = [[''lr'' \<mapsto> Fin (1 / 10)]], is_second_order = None, internals = 1\<rparr>,
       model_ema = Some 1, meters = [''loss'' \<mapsto> [(Fin 1, 1)], ''lr'' \<mapsto> [(Fin (1 / 10), 1)]],
       trace = [Forward, ZeroGrad, LossScaler 0 False, CudaSynchronize, EmaUpdate, AllReduceMean (Fin 1),
                AddScalar ''loss'' (Fin 1) 2000, AddScalar ''lr'' (Fin (1 / 10)) 2000]\<rparr>)"
  by (simp add: demo_defs)

lemma demo_finite: "isfinite (loss_value demo_collaborators demo_args (model demo_state) (Fin 1, 0))"
  by (simp add: demo_defs)

subsection \<open>The stability guard\<close>

lemma train_one_epoch_unfold:
  "train_one_epoch C args data_loader s0 =
     (case train_loop C args (length data_loader) 0 data_loader (train_loop_start args s0) of
        (Some e, s') \<Rightarrow> (Inl e, s')
      | (None, s') \<Rightarrow>
          (Inr (global_avgs (global_avg C) (synchronize_between_processes (reduce_meter C) (meters s'))),
           emit (Print AveragedStats)
             (s'\<lparr>meters := synchronize_between_processes (reduce_meter C) (meters s')\<rparr>)))"
  by (simp add: train_one_epoch_def train_loop_start_def Let_def split: prod.splits option.splits)

lemma train_one_epoch_nonfinite:
  assumes "train_loop C args (length (pre @ b # rest)) 0 pre (train_loop_start args s0) = (None, s)"
    and "\<not> isfinite (loss_value C args (model s) b)"
  shows "train_one_epoch C args (pre @ b # rest) s0 =
     (Inl (SystemExit 1),
      s\<lparr>trace := trace s @ forward_events args @ [Print (LossStop (loss_value C args (model s) b))]\<rparr>)"
proof -
  have "train_loop C args (length (pre @ b # rest)) 0 (pre @ b # rest) (train_loop_start args s0) =
      (Some (SystemExit 1),
       s\<lparr>trace := trace s @ forward_events args @ [Print (LossStop (loss_value C args (model s) b))]\<rparr>)"
    unfolding train_loop_append [of C args _ 0 pre "b # rest"] assms(1)
    by (simp add: train_step_nonfinite [OF assms(2)])
  then show ?thesis unfolding train_one_epoch_unfold by simp
qed

lemma train_one_epoch_exit:
  assumes "fst (train_one_epoch C args data_loader s0) = Inl (SystemExit c)"
  shows "c = 1 \<and> (\<exists>pre b rest s. data_loader = pre @ b # rest
           \<and> train_loop C args (length data_loader) 0 pre (train_loop_start args s0) = (None, s)
           \<and> \<not> isfinite (loss_value C args (model s) b)
           \<and> snd (train_one_epoch C args data_loader s0) =
               s\<lparr>trace := trace s @ forward_events args
                    @ [Print (LossStop (loss_value C args (model s) b))]\<rparr>)"
proof -
  have "fst (train_loop C args (length data_loader) 0 data_loader (train_loop_start args s0))
      = Some (SystemExit c)"
    using assms unfolding train_one_epoch_unfold by (auto split: prod.splits option.splits)
  from train_loop_exit [OF this] obtain pre b rest s where c: "c = 1"
    and dl: "data_loader = pre @ b # rest"
    and pre: "train_loop C args (length data_loader) 0 pre (train_loop_start args s0) = (None, s)"
    and nf: "\<not> isfinite (loss_value C args (model s) b)"
    by blast
  have "snd (train_one_epoch C args data_loader s0) =
      s\<lparr>trace := trace s @ forward_events args @ [Print (LossStop (loss_value C args (model s) b))]\<rparr>"
    using train_one_epoch_nonfinite [OF pre [unfolded dl] nf] unfolding dl by simp
  with c dl pre nf show ?thesis by blast
qed

lemma demo_loader_split: "demo_loader = [(Fin 1, 0)] @ (NaN, 0) # [(Fin 2, 0)]"
  by (simp add: demo_loader_def)

lemma demo_loader_length: "length ([(Fin 1, 0)] @ (NaN, 0) # [(Fin 2, 0)] :: (pyfloat \<times> nat) list) = 3"
  by simp

lemma demo_start:
  "train_loop_start demo_args demo_state =
     demo_state\<lparr>meters := [''lr'' \<mapsto> []], trace := [ModelTrain True, Print (LogDir ''runs'')]\<rparr>"
  by (simp add: train_loop_start_def demo_args_def demo_state_def add_meter_def emit_def)

lemma demo_first_epoch:
  "fst (train_loop demo_collaborators demo_args 3 0 [(Fin 1, 0)] (train_loop_start demo_args demo_state)) = None"
  "model (snd (train_loop demo_collaborators demo_args 3 0 [(Fin 1, 0)] (train_loop_start demo_args demo_state))) = 1"
  "trace (snd (train_loop demo_collaborators demo_args 3 0 [(Fin 1, 0)] (train_loop_start demo_args demo_state))) =
     [ModelTrain True, Print (LogDir ''runs''), Forward, ZeroGrad, LossScaler 0 False, CudaSynchronize,
      EmaUpdate, AllReduceMean (Fin 1), AddScalar ''loss'' (Fin 1) 2000, AddScalar ''lr'' (Fin (1 / 10)) 2000]"
  unfolding demo_start by (simp_all add: demo_defs)

text \<open>
  Claim C1. When the batches before a batch are processed normally and the loss of that batch
  is not finite, \<open>train_one_epoch\<close> ends with \<open>SystemExit 1\<close> and returns nothing else:
  the diagnostic message is the last event, the model, the optimizer, the EMA model and the
  meters are those left by the previous batch (no optimization step for this batch), the
  batches after it play no part, and neither the reduction of the meters nor the summary
  line follows. A run of \<open>train_one_epoch\<close> that ends with \<open>SystemExit\<close> has exit status
  1 and stopped in this way at a batch of non-finite loss. The same holds of the loop started
  at any index and in any state, and a step whose loss is finite does not end with
  \<open>SystemExit\<close>.
\<close>

theorem nonfinite_loss_exits:
  "(train_loop C args (length (pre @ b # rest)) 0 pre (train_loop_start args s0) = (None, s) \<longrightarrow>
    \<not> isfinite (loss_value C args (model s) b) \<longrightarrow>
      train_one_epoch C args (pre @ b # rest) s0 =
        (Inl (SystemExit 1),
         s\<lparr>trace := trace s @ forward_events args @ [Print (LossStop (loss_value C args (model s) b))]\<rparr>))
   \<and> (fst (train_one_epoch C args data_loader s0) = Inl (SystemExit c) \<longrightarrow>
        c = 1 \<and> (\<exists>pre b rest s. data_loader = pre @ b # rest
           \<and> train_loop C args (length data_loader) 0 pre (train_loop_start args s0) = (None, s)
           \<and> \<not> isfinite (loss_value C args (model s) b)
           \<and> snd (train_one_epoch C args data_loader s0) =
               s\<lparr>trace := trace s @ forward_events args
                    @ [Print (LossStop (loss_value C args (model s) b))]\<rparr>))
   \<and> (train_loop C args n i pre s0 = (None, s) \<longrightarrow> \<not> isfinite (loss_value C args (model s) b) \<longrightarrow>
      train_loop C args n i (pre @ b # rest) s0 =
        (Some (SystemExit 1),
         s\<lparr>trace := trace s @ forward_events args @ [Print (LossStop (loss_value C args (model s) b))]\<rparr>))
   \<and> (isfinite (loss_value C args (model s) b) \<longrightarrow>
        (\<forall>c. fst (train_step C args n j b s) \<noteq> Some (SystemExit c)))
   \<and> (fst (train_loop C args n i bs s0) = Some (SystemExit c) \<longrightarrow>
        c = 1 \<and> (\<exists>pre b rest s. bs = pre @ b # rest \<and> train_loop C args n i pre s0 = (None, s)
                  \<and> \<not> isfinite (loss_value C args (model s) b)))"
proof (intro conjI impI)
  show "train_one_epoch C args (pre @ b # rest) s0 =
        (Inl (SystemExit 1),
         s\<lparr>trace := trace s @ forward_events args @ [Print (LossStop (loss_value C args (model s) b))]\<rparr>)"
    if "train_loop C args (length (pre @ b # rest)) 0 pre (train_loop_start args s0) = (None, s)"
      and "\<not> isfinite (loss_value C args (model s) b)"
    using that by (rule train_one_epoch_nonfinite)
  show "c = 1" if "fst (train_one_epoch C args data_loader s0) = Inl (SystemExit c)"
    using train_one_epoch_exit [OF that] by (rule conjunct1)
  show "\<exists>pre b rest s. data_loader = pre @ b # rest
           \<and> train_loop C args (length data_loader) 0 pre (train_loop_start args s0) = (None, s)
           \<and> \<not> isfinite (loss_value C args (model s) b)
           \<and> snd (train_one_epoch C args data_loader s0) =
               s\<lparr>trace := trace s @ forward_events args
                    @ [Print (LossStop (loss_value C args (model s) b))]\<rparr>"
    if "fst (train_one_epoch C args data_loader s0) = Inl (SystemExit c)"
    using train_one_epoch_exit [OF that] by (rule conjunct2)
  show "train_loop C args n i (pre @ b # rest) s0 =
        (Some (SystemExit 1),
         s\<lparr>trace := trace s @ forward_events args @ [Print (LossStop (loss_value C args (model s) b))]\<rparr>)"
    if "train_loop C args n i pre s0 = (None, s)" and "\<not> isfinite (loss_value C args (model s) b)"
    using that by (simp add: train_loop_append train_step_nonfinite)
  show "\<forall>c. fst (train_step C args n j b s) \<noteq> Some (SystemExit c)"
    if "isfinite (loss_value C args (model s) b)"
    using that by (simp add: train_step_finite)
  show "c = 1" if "fst (train_loop C args n i bs s0) = Some (SystemExit c)"
    using train_loop_exit [OF that] by (rule conjunct1)
  show "\<exists>pre b rest s. bs = pre @ b # rest \<and> train_loop C args n i pre s0 = (None, s)
                  \<and> \<not> isfinite (loss_value C args (model s) b)"
    if "fst (train_loop C args n i bs s0) = Some (SystemExit c)"
    using train_loop_exit [OF that] by (rule conjunct2)
qed

theorem nonfinite_loss_exits_witness:
  "demo_loader = [(Fin 1, 0)] @ (NaN, 0) # [(Fin 2, 0)]
   \<and> fst (train_loop demo_collaborators demo_args (length demo_loader) 0 [(Fin 1, 0)]
         (train_loop_start demo_args demo_state)) = None
   \<and> \<not> isfinite (loss_value demo_collaborators demo_args
         (model (snd (train_loop demo_collaborators demo_args (length demo_loader) 0 [(Fin 1, 0)]
            (train_loop_start demo_args demo_state)))) (NaN, 0))
   \<and> fst (train_one_epoch demo_collaborators demo_args demo_loader demo_state) = Inl (SystemExit 1)
   \<and> trace (snd (train_one_epoch demo_collaborators demo_args demo_loader demo_state)) =
       [ModelTrain True, Print (LogDir ''runs''), Forward, ZeroGrad, LossScaler 0 False, CudaSynchronize,
        EmaUpdate, AllReduceMean (Fin 1), AddScalar ''loss'' (Fin 1) 2000, AddScalar ''lr'' (Fin (1 / 10)) 2000,
        Forward, Print (LossStop NaN)]
   \<and> model (snd (train_one_epoch demo_collaborators demo_args demo_loader demo_state)) = 1
   \<and> (\<exists>pre b rest s. demo_loader = pre @ b # rest
         \<and> train_loop demo_collaborators demo_args (length demo_loader) 0 pre
              (train_loop_start demo_args demo_state) = (None, s)
         \<and> \<not> isfinite (loss_value demo_collaborators demo_args (model s) b)
         \<and> snd (train_one_epoch demo_collaborators demo_args demo_loader demo_state) =
              s\<lparr>trace := trace s @ forward_events demo_args
                    @ [Print (LossStop (loss_value demo_collaborators demo_args (model s) b))]\<rparr>)
   \<and> fst (train_loop demo_collaborators demo_args 3 0 [(Fin 1, 0)] demo_state) = None
   \<and> \<not> isfinite (loss_value demo_collaborators demo_args
         (model (snd (train_loop demo_collaborators demo_args 3 0 [(Fin 1, 0)] demo_state))) (NaN, 0))
   \<and> fst (train_loop demo_collaborators demo_args 3 0 ([(Fin 1, 0)] @ (NaN, 0) # [(Fin 2, 0)]) demo_state)
       = Some (SystemExit 1)
   \<and> trace (snd (train_loop demo_collaborators demo_args 3 0 ([(Fin 1, 0)] @ (NaN, 0) # [(Fin 2, 0)]) demo_state))
       = [Forward, ZeroGrad, LossScaler 0 False, CudaSynchronize, EmaUpdate, AllReduceMean (Fin 1),
          AddScalar ''loss'' (Fin 1) 2000, AddScalar ''lr'' (Fin (1 / 10)) 2000,
          Forward, Print (LossStop NaN)]
   \<and> isfinite (loss_value demo_collaborators demo_args (model demo_state) (Fin 1, 0))
   \<and> fst (train_step demo_collaborators demo_args 3 0 (Fin 1, 0) demo_state) \<noteq> Some (SystemExit 1)
   \<and> (\<exists>pre b rest s. [(Fin 1, 0)] @ (NaN, 0) # [(Fin 2, 0)] = pre @ b # rest
         \<and> train_loop demo_collaborators demo_args 3 0 pre demo_state = (None, s)
         \<and> \<not> isfinite (loss_value demo_collaborators demo_args (model s) b))"
proof -
  let ?l = "[(Fin 1, 0)] @ (NaN, 0) # [(Fin 2, 0)] :: (pyfloat \<times> nat) list"
  let ?t = "snd (train_loop demo_collaborators demo_args 3 0 [(Fin 1, 0)] (train_loop_start demo_args demo_state))"
  have len: "length demo_loader = 3" by (simp add: demo_loader_def)
  have d0: "demo_loader = ?l" by (rule demo_loader_split)
  have d1: "fst (train_loop demo_collaborators demo_args (length demo_loader) 0 [(Fin 1, 0)]
         (train_loop_start demo_args demo_state)) = None"
    unfolding len by (rule demo_first_epoch(1))
  have tpre: "train_loop demo_collaborators demo_args (length ?l) 0 [(Fin 1, 0)]
      (train_loop_start demo_args demo_state) = (None, ?t)"
    unfolding demo_loader_length using demo_first_epoch(1) by (simp add: prod_eq_iff del: train_loop.simps)
  have tnf: "\<not> isfinite (loss_value demo_collaborators demo_args (model ?t) (NaN, 0))"
    unfolding demo_first_epoch(2) by (simp add: demo_defs)
  have d2: "\<not> isfinite (loss_value demo_collaborators demo_args
         (model (snd (train_loop demo_collaborators demo_args (length demo_loader) 0 [(Fin 1, 0)]
            (train_loop_start demo_args demo_state)))) (NaN, 0))"
    unfolding len by (rule tnf)
  have run: "train_one_epoch demo_collaborators demo_args ?l demo_state =
      (Inl (SystemExit 1),
       ?t\<lparr>trace := trace ?t @ forward_events demo_args @
            [Print (LossStop (loss_value demo_collaborators demo_args (model ?t) (NaN, 0)))]\<rparr>)"
    by (rule nonfinite_loss_exits [where C = demo_collaborators and args = demo_args
          and pre = "[(Fin 1, 0)]" and b = "(NaN, 0)" and rest = "[(Fin 2, 0)]" and ?s0.0 = demo_state
          and s = ?t, THEN conjunct1, THEN mp, THEN mp, OF tpre tnf])
  have tt: "trace ?t @ forward_events demo_args @
            [Print (LossStop (loss_value demo_collaborators demo_args (model ?t) (NaN, 0)))]
      = [ModelTrain True, Print (LogDir ''runs''), Forward, ZeroGrad, LossScaler 0 False, CudaSynchronize,
        EmaUpdate, AllReduceMean (Fin 1), AddScalar ''loss'' (Fin 1) 2000, AddScalar ''lr'' (Fin (1 / 10)) 2000,
        Forward, Print (LossStop NaN)]"
    unfolding demo_first_epoch(2,3) by (simp add: demo_defs)
  have d3: "fst (train_one_epoch demo_collaborators demo_args demo_loader demo_state) = Inl (SystemExit 1)"
    unfolding d0 run by simp
  have d4: "trace (snd (train_one_epoch demo_collaborators demo_args demo_loader demo_state)) =
       [ModelTrain True, Print (LogDir ''runs''), Forward, ZeroGrad, LossScaler 0 False, CudaSynchronize,
        EmaUpdate, AllReduceMean (Fin 1), AddScalar ''loss'' (Fin 1) 2000, AddScalar ''lr'' (Fin (1 / 10)) 2000,
        Forward, Print (LossStop NaN)]"
    unfolding d0 run using tt by (simp del: train_loop.simps)
  have d5: "model (snd (train_one_epoch demo_collaborators demo_args demo_loader demo_state)) = 1"
    unfolding d0 run by (simp add: demo_first_epoch(2) del: train_loop.simps)
  have d6: "\<exists>pre b rest s. demo_loader = pre @ b # rest
         \<and> train_loop demo_collaborators demo_args (length demo_loader) 0 pre
              (train_loop_start demo_args demo_state) = (None, s)
         \<and> \<not> isfinite (loss_value demo_collaborators demo_args (model s) b)
         \<and> snd (train_one_epoch demo_collaborators demo_args demo_loader demo_state) =
              s\<lparr>trace := trace s @ forward_events demo_args
                    @ [Print (LossStop (loss_value demo_collaborators demo_args (model s) b))]\<rparr>"
    using nonfinite_loss_exits [where C = demo_collaborators and args = demo_args
        and data_loader = demo_loader and ?s0.0 = demo_state and c = 1,
        THEN conjunct2, THEN conjunct1, THEN mp, OF d3]
    by (rule conjunct2)
  let ?s = "snd (train_loop demo_collaborators demo_args 3 0 [(Fin 1, 0)] demo_state)"
  have pre: "train_loop demo_collaborators demo_args 3 0 [(Fin 1, 0)] demo_state = (None, ?s)"
    unfolding demo_first by simp
  have nf: "\<not> isfinite (loss_value demo_collaborators demo_args (model ?s) (NaN, 0))"
    unfolding demo_first by (simp add: demo_defs)
  have f: "isfinite (loss_value demo_collaborators demo_args (model demo_state) (Fin 1, 0))"
    by (simp add: demo_defs)
  have e: "train_loop demo_collaborators demo_args 3 0 ([(Fin 1, 0)] @ (NaN, 0) # [(Fin 2, 0)]) demo_state =
        (Some (SystemExit 1),
         ?s\<lparr>trace := trace ?s @ forward_events demo_args @
            [Print (LossStop (loss_value demo_collaborators demo_args (model ?s) (NaN, 0)))]\<rparr>)"
    by (rule nonfinite_loss_exits [where C = demo_collaborators and args = demo_args and n = 3 and i = 0
          and pre = "[(Fin 1, 0)]" and b = "(NaN, 0)" and rest = "[(Fin 2, 0)]" and ?s0.0 = demo_state
          and s = ?s, THEN conjunct2, THEN conjunct2, THEN conjunct1, THEN mp, THEN mp, OF pre nf])
  have g: "fst (train_step demo_collaborators demo_args 3 0 (Fin 1, 0) demo_state) \<noteq> Some (SystemExit 1)"
    by (rule nonfinite_loss_exits [where C = demo_collaborators and args = demo_args and n = 3 and j = 0
          and b = "(Fin 1, 0)" and s = demo_state,
          THEN conjunct2, THEN conjunct2, THEN conjunct2, THEN conjunct1, THEN mp, OF f, THEN spec])
  have t: "trace ?s @ forward_events demo_args @
            [Print (LossStop (loss_value demo_collaborators demo_args (model ?s) (NaN, 0)))]
      = [Forward, ZeroGrad, LossScaler 0 False, CudaSynchronize, EmaUpdate, AllReduceMean (Fin 1),
          AddScalar ''loss'' (Fin 1) 2000, AddScalar ''lr'' (Fin (1 / 10)) 2000,
          Forward, Print (LossStop NaN)]"
    unfolding demo_first by (simp add: demo_defs)
  have c1: "fst (train_loop demo_collaborators demo_args 3 0 [(Fin 1, 0)] demo_state) = None"
    unfolding demo_first by simp
  have c3: "fst (train_loop demo_collaborators demo_args 3 0 ([(Fin 1, 0)] @ (NaN, 0) # [(Fin 2, 0)]) demo_state)
       = Some (SystemExit 1)"
    unfolding e by simp
  have c4: "trace (snd (train_loop demo_collaborators demo_args 3 0 ([(Fin 1, 0)] @ (NaN, 0) # [(Fin 2, 0)]) demo_state))
       = [Forward, ZeroGrad, LossScaler 0 False, CudaSynchronize, EmaUpdate, AllReduceMean (Fin 1),
          AddScalar ''loss'' (Fin 1) 2000, AddScalar ''lr'' (Fin (1 / 10)) 2000,
          Forward, Print (LossStop NaN)]"
    unfolding e using t by (simp del: train_loop.simps)
  have c5: "\<exists>pre b rest s. [(Fin 1, 0)] @ (NaN, 0) # [(Fin 2, 0)] = pre @ b # rest
         \<and> train_loop demo_collaborators demo_args 3 0 pre demo_state = (None, s)
         \<and> \<not> isfinite (loss_value demo_collaborators demo_args (model s) b)"
    using nonfinite_loss_exits [where C = demo_collaborators and args = demo_args and n = 3 and i = 0
        and ?s0.0 = demo_state and bs = "[(Fin 1, 0)] @ (NaN, 0) # [(Fin 2, 0)]" and c = 1,
        THEN conjunct2, THEN conjunct2, THEN conjunct2, THEN conjunct2, THEN mp, OF c3]
    by (rule conjunct2)
  show ?thesis
    using d0 d1 d2 d3 d4 d5 d6 c1 nf c3 c4 f g c5 by (intro conjI) assumption+
qed

subsection \<open>Synchronization and the EMA update\<close>

lemma ema_discipline_neutral:
  "list_all neutral evs \<Longrightarrow> ema_discipline ema (evs @ rest) = ema_discipline ema rest"
proof (induction evs)
  case Nil
  then show ?case by simp
next
  case (Cons ev evs)
  then show ?case by (cases ev) simp_all
qed

lemma record_step_trace:
  "\<exists>post. trace (snd (record_step C args n i lv s)) = trace s @ post \<and> list_all neutral post"
  by (auto simp: record_step_def Let_def split: sum.splits option.splits)

lemma record_step_model_ema [simp]:
  "model_ema (snd (record_step C args n i lv s)) = model_ema s"
  by (auto simp: record_step_def Let_def split: sum.splits option.splits)

lemma record_step_model [simp]:
  "model (snd (record_step C args n i lv s)) = model s"
  by (auto simp: record_step_def Let_def split: sum.splits option.splits)

lemma record_step_optimizer [simp]:
  "optimizer (snd (record_step C args n i lv s)) = optimizer s"
  by (auto simp: record_step_def Let_def split: sum.splits option.splits)

lemma model_optimize:
  "model (optimize C args loss s) =
     fst (loss_scaler C loss (zero_grad C (optimizer s)) (max_norm args) (model s) (second_order C (optimizer s)))"
  by (simp add: optimize_def second_order_def Let_def split: prod.splits option.splits)

lemma optimizer_optimize:
  "optimizer (optimize C args loss s) =
     snd (loss_scaler C loss (zero_grad C (optimizer s)) (max_norm args) (model s) (second_order C (optimizer s)))"
  by (simp add: optimize_def second_order_def Let_def split: prod.splits option.splits)

lemma model_ema_optimize:
  "model_ema (optimize C args loss s) =
     map_option (\<lambda>e. ema_update C e (model (optimize C args loss s))) (model_ema s)"
  by (simp add: optimize_def second_order_def Let_def split: prod.splits option.splits)

lemma meters_optimize [simp]: "meters (optimize C args loss s) = meters s"
  by (simp add: optimize_def Let_def split: prod.splits option.splits)

lemma forward_events_neutral: "list_all neutral (forward_events args)"
  by (simp add: forward_events_def split: option.splits)

lemma train_step_finite_eq:
  "isfinite (loss_value C args (model s) b) \<Longrightarrow>
   train_step C args n i b s =
     record_step C args n i (loss_value C args (model s) b)
       (optimize C args (batch_loss C args (model s) b) (s\<lparr>trace := trace s @ forward_events args\<rparr>))"
  by (simp add: train_step_def loss_value_def Let_def)

lemma train_step_trace_finite:
  assumes "isfinite (loss_value C args (model s) b)"
  shows "\<exists>post. trace (snd (train_step C args n i b s)) =
           trace s @ forward_events args
             @ [ZeroGrad, LossScaler (max_norm args) (second_order C (optimizer s)), CudaSynchronize]
             @ (case model_ema s of None \<Rightarrow> [] | Some e \<Rightarrow> [EmaUpdate]) @ post
          \<and> list_all neutral post"
proof -
  let ?s1 = "optimize C args (batch_loss C args (model s) b) (s\<lparr>trace := trace s @ forward_events args\<rparr>)"
  obtain post where p: "trace (snd (record_step C args n i (loss_value C args (model s) b) ?s1)) = trace ?s1 @ post"
    and n: "list_all neutral post"
    using record_step_trace by blast
  show ?thesis
    using p n by (simp add: train_step_finite_eq [OF assms] trace_optimize)
qed

lemma train_step_model_ema_None:
  "(model_ema (snd (train_step C args n i b s)) = None) = (model_ema s = None)"
  by (cases "isfinite (loss_value C args (model s) b)")
     (simp_all add: train_step_finite_eq train_step_nonfinite model_ema_optimize)

lemma train_step_discipline:
  "\<exists>evs. trace (snd (train_step C args n i b s)) = trace s @ evs
     \<and> (\<forall>rest. ema_discipline (model_ema s \<noteq> None) (evs @ rest) = ema_discipline (model_ema s \<noteq> None) rest)"
proof (cases "isfinite (loss_value C args (model s) b)")
  case True
  from train_step_trace_finite [OF True, of n i] obtain post where
    t: "trace (snd (train_step C args n i b s)) =
           trace s @ forward_events args
             @ [ZeroGrad, LossScaler (max_norm args) (second_order C (optimizer s)), CudaSynchronize]
             @ (case model_ema s of None \<Rightarrow> [] | Some e \<Rightarrow> [EmaUpdate]) @ post"
    and n: "list_all neutral post" by blast
  let ?evs = "forward_events args
             @ [ZeroGrad, LossScaler (max_norm args) (second_order C (optimizer s)), CudaSynchronize]
             @ (case model_ema s of None \<Rightarrow> [] | Some e \<Rightarrow> [EmaUpdate]) @ post"
  have "ema_discipline (model_ema s \<noteq> None) (?evs @ rest) = ema_discipline (model_ema s \<noteq> None) rest" for rest
    by (cases "model_ema s")
       (simp_all add: ema_discipline_neutral [OF forward_events_neutral] ema_discipline_neutral [OF n])
  with t show ?thesis by blast
next
  case False
  have "list_all neutral (forward_events args @ [Print (LossStop (loss_value C args (model s) b))])"
    using forward_events_neutral by simp
  from ema_discipline_neutral [OF this] show ?thesis
    by (simp add: train_step_nonfinite [OF False])
qed

lemma train_loop_discipline:
  "\<exists>evs. trace (snd (train_loop C args n i bs s0)) = trace s0 @ evs
     \<and> ema_discipline (model_ema s0 \<noteq> None) evs"
proof (induction bs arbitrary: i s0)
  case Nil
  show ?case by simp
next
  case (Cons b bs)
  obtain r s1 where st: "train_step C args n i b s0 = (r, s1)" by (cases "train_step C args n i b s0")
  from train_step_discipline [of C args n i b s0] st obtain evs where
    t: "trace s1 = trace s0 @ evs"
    and d: "\<And>rest. ema_discipline (model_ema s0 \<noteq> None) (evs @ rest) = ema_discipline (model_ema s0 \<noteq> None) rest"
    by auto
  have e: "(model_ema s1 = None) = (model_ema s0 = None)"
    using train_step_model_ema_None [of C args n i b s0] st by simp
  show ?case
  proof (cases r)
    case None
    from Cons.IH [of "Suc i" s1] obtain evs' where
      t': "trace (snd (train_loop C args n (Suc i) bs s1)) = trace s1 @ evs'"
      and d': "ema_discipline (model_ema s1 \<noteq> None) evs'" by blast
    have "trace (snd (train_loop C args n i (b # bs) s0)) = trace s0 @ (evs @ evs')"
      using st None t t' by simp
    moreover have "ema_discipline (model_ema s0 \<noteq> None) (evs @ evs')"
      using d d' e by simp
    ultimately show ?thesis by blast
  next
    case (Some err)
    have "trace (snd (train_loop C args n i (b # bs) s0)) = trace s0 @ (evs @ [])"
      using st Some t by simp
    moreover have "ema_discipline (model_ema s0 \<noteq> None) (evs @ [])"
      using d [of "[]"] by simp
    ultimately show ?thesis by blast
  qed
qed

text \<open>
  Claim C6. In a step whose loss is finite, the events after the forward pass are the
  zeroing of the gradients, the scaled step, the synchronization and then the EMA update
  exactly when an EMA model is configured; nothing after them in the step is a scaled step,
  a synchronization or an EMA update, and the EMA model is updated from the model left by
  the scaled step. Over a whole run, the trace obeys the discipline: each scaled step is
  followed at once by a synchronization, and that by an EMA update if and only if an EMA
  model is configured.
\<close>

theorem synchronize_before_ema:
  "(isfinite (loss_value C args (model s) b) \<longrightarrow>
      (\<exists>post. trace (snd (train_step C args n i b s)) =
           trace s @ forward_events args
             @ [ZeroGrad, LossScaler (max_norm args) (second_order C (optimizer s)), CudaSynchronize]
             @ (case model_ema s of None \<Rightarrow> [] | Some e \<Rightarrow> [EmaUpdate]) @ post
          \<and> list_all neutral post)
      \<and> model_ema (snd (train_step C args n i b s)) =
          map_option (\<lambda>e. ema_update C e (model (snd (train_step C args n i b s)))) (model_ema s))
   \<and> (\<exists>evs. trace (snd (train_loop C args n i bs s0)) = trace s0 @ evs
         \<and> ema_discipline (model_ema s0 \<noteq> None) evs)"
proof -
  have "model_ema (snd (train_step C args n i b s)) =
          map_option (\<lambda>e. ema_update C e (model (snd (train_step C args n i b s)))) (model_ema s)"
    if "isfinite (loss_value C args (model s) b)"
    using that by (simp add: train_step_finite_eq model_ema_optimize)
  then show ?thesis
    using train_step_trace_finite [of C args s b n i] train_loop_discipline [of C args n i bs s0]
    by blast
qed

theorem synchronize_before_ema_witness:
  "isfinite (loss_value demo_collaborators demo_args (model demo_state) (Fin 1, 0))
   \<and> (\<exists>post. trace (snd (train_step demo_collaborators demo_args 3 0 (Fin 1, 0) demo_state)) =
          [Forward, ZeroGrad, LossScaler 0 False, CudaSynchronize, EmaUpdate] @ post
        \<and> list_all neutral post)
   \<and> model_ema (snd (train_step demo_collaborators demo_args 3 0 (Fin 1, 0) demo_state)) = Some 1
   \<and> ema_discipline True (trace (snd (train_loop demo_collaborators demo_args 3 0 demo_loader demo_state)))"
proof -
  note inst = synchronize_before_ema [of demo_collaborators demo_args demo_state "(Fin 1, 0)" 3 0
      demo_loader demo_state]
  have a: "trace demo_state @ forward_events demo_args
             @ [ZeroGrad, LossScaler (max_norm demo_args) (second_order demo_collaborators (optimizer demo_state)),
                CudaSynchronize]
             @ (case model_ema demo_state of None \<Rightarrow> [] | Some e \<Rightarrow> [EmaUpdate]) @ post
        = [Forward, ZeroGrad, LossScaler 0 False, CudaSynchronize, EmaUpdate] @ post" for post
    by (simp add: demo_defs)
  have b: "map_option (\<lambda>e. ema_update demo_collaborators e
              (model (snd (train_step demo_collaborators demo_args 3 0 (Fin 1, 0) demo_state))))
            (model_ema demo_state) = Some 1"
    unfolding demo_step by (simp add: demo_defs)
  have c: "model_ema demo_state \<noteq> None" "trace demo_state = []"
    by (simp_all add: demo_defs)
  show ?thesis
    using inst demo_finite unfolding a b using c by auto
qed

subsection \<open>The coordinate of the structured log\<close>

lemma record_step_trace_lr:
  "read_lr (optimizer s) = Inr lr \<Longrightarrow>
   trace (snd (record_step C args n i lv s)) =
     trace s @ AllReduceMean lv #
       (case log_writer args of
          None \<Rightarrow> []
        | Some d \<Rightarrow>
            (case epoch_1000x i n (epoch args) of
               Inl e \<Rightarrow> []
             | Inr x \<Rightarrow> [AddScalar ''loss'' (all_reduce_mean C lv) x, AddScalar ''lr'' lr x]))"
  by (auto simp: record_step_def Let_def split: sum.splits option.splits)

lemma record_step_meters_lr:
  "read_lr (optimizer s) = Inr lr \<Longrightarrow>
   meters (snd (record_step C args n i lv s)) =
     logger_update ''lr'' lr (logger_update ''loss'' lv (meters s))"
  by (auto simp: record_step_def Let_def split: sum.splits option.splits)

lemma record_step_None:
  "fst (record_step C args n i lv s) = None \<Longrightarrow> \<exists>lr. read_lr (optimizer s) = Inr lr"
  by (auto simp: record_step_def Let_def split: sum.splits option.splits)

lemma record_step_coordinate:
  "fst (record_step C args n i lv s) = None \<Longrightarrow> log_writer args = Some d \<Longrightarrow>
   \<exists>x. epoch_1000x i n (epoch args) = Inr x"
  by (auto simp: record_step_def Let_def split: sum.splits option.splits)

lemma scalar_log_append: "scalar_log (xs @ ys) = scalar_log xs @ scalar_log ys"
  by (induction xs rule: scalar_log.induct) simp_all

lemma scalar_log_forward_events [simp]: "scalar_log (forward_events args) = []"
  by (simp add: forward_events_def split: option.splits)

lemma scalar_log_train_loop_start [simp]:
  "scalar_log (trace (train_loop_start args s0)) = scalar_log (trace s0)"
  by (simp add: train_loop_start_def Let_def scalar_log_append split: option.splits)

lemma train_step_None:
  assumes "train_step C args n i b s = (None, s1)"
  shows "isfinite (loss_value C args (model s) b)"
    and "\<exists>lr. read_lr (optimizer s1) = Inr lr \<and>
           trace s1 =
             trace s @ forward_events args
               @ [ZeroGrad, LossScaler (max_norm args) (second_order C (optimizer s)), CudaSynchronize]
               @ (case model_ema s of None \<Rightarrow> [] | Some e \<Rightarrow> [EmaUpdate])
               @ AllReduceMean (loss_value C args (model s) b) #
                 (case log_writer args of
                    None \<Rightarrow> []
                  | Some d \<Rightarrow>
                      (case epoch_1000x i n (epoch args) of
                         Inl e \<Rightarrow> []
                       | Inr x \<Rightarrow> [AddScalar ''loss'' (all_reduce_mean C (loss_value C args (model s) b)) x,
                                    AddScalar ''lr'' lr x]))"
    and "log_writer args = Some d \<Longrightarrow> \<exists>x. epoch_1000x i n (epoch args) = Inr x"
proof -
  show f: "isfinite (loss_value C args (model s) b)"
  proof (rule ccontr)
    assume "\<not> isfinite (loss_value C args (model s) b)"
    from train_step_nonfinite [OF this, of n i] assms show False by simp
  qed
  let ?s1 = "optimize C args (batch_loss C args (model s) b) (s\<lparr>trace := trace s @ forward_events args\<rparr>)"
  let ?lv = "loss_value C args (model s) b"
  have rs: "record_step C args n i ?lv ?s1 = (None, s1)"
    using assms by (simp add: train_step_finite_eq [OF f])
  then have r1: "fst (record_step C args n i ?lv ?s1) = None"
    and r2: "snd (record_step C args n i ?lv ?s1) = s1" by simp_all
  from record_step_None [OF r1] obtain lr where lr: "read_lr (optimizer ?s1) = Inr lr" by blast
  have o: "optimizer s1 = optimizer ?s1"
    using record_step_optimizer [of C args n i ?lv ?s1] unfolding r2 .
  have t: "trace s1 = trace ?s1 @ AllReduceMean ?lv #
       (case log_writer args of
          None \<Rightarrow> []
        | Some d \<Rightarrow>
            (case epoch_1000x i n (epoch args) of
               Inl e \<Rightarrow> []
             | Inr x \<Rightarrow> [AddScalar ''loss'' (all_reduce_mean C ?lv) x, AddScalar ''lr'' lr x]))"
    using record_step_trace_lr [OF lr, of C args n i ?lv] unfolding r2 .
  have "read_lr (optimizer s1) = Inr lr" using lr o by simp
  moreover have "trace s1 =
             trace s @ forward_events args
               @ [ZeroGrad, LossScaler (max_norm args) (second_order C (optimizer s)), CudaSynchronize]
               @ (case model_ema s of None \<Rightarrow> [] | Some e \<Rightarrow> [EmaUpdate])
               @ AllReduceMean ?lv #
                 (case log_writer args of
                    None \<Rightarrow> []
                  | Some d \<Rightarrow>
                      (case epoch_1000x i n (epoch args) of
                         Inl e \<Rightarrow> []
                       | Inr x \<Rightarrow> [AddScalar ''loss'' (all_reduce_mean C ?lv) x, AddScalar ''lr'' lr x]))"
    unfolding t by (simp add: trace_optimize)
  ultimately show "\<exists>lr. read_lr (optimizer s1) = Inr lr \<and>
           trace s1 =
             trace s @ forward_events args
               @ [ZeroGrad, LossScaler (max_norm args) (second_order C (optimizer s)), CudaSynchronize]
               @ (case model_ema s of None \<Rightarrow> [] | Some e \<Rightarrow> [EmaUpdate])
               @ AllReduceMean ?lv #
                 (case log_writer args of
                    None \<Rightarrow> []
                  | Some d \<Rightarrow>
                      (case epoch_1000x i n (epoch args) of
                         Inl e \<Rightarrow> []
                       | Inr x \<Rightarrow> [AddScalar ''loss'' (all_reduce_mean C ?lv) x, AddScalar ''lr'' lr x]))"
    by blast
  show "\<exists>x. epoch_1000x i n (epoch args) = Inr x" if "log_writer args = Some d"
    using record_step_coordinate [OF r1 that] .
qed

lemma train_step_scalar_log:
  assumes "train_step C args n i b s = (None, s1)"
  shows "log_writer args = None \<Longrightarrow> scalar_log (trace s1) = scalar_log (trace s)"
    and "log_writer args = Some d \<Longrightarrow>
      \<exists>x. epoch_1000x i n (epoch args) = Inr x
         \<and> scalar_log (trace s1) = scalar_log (trace s) @ [(''loss'', x), (''lr'', x)]"
proof -
  from train_step_None(2) [OF assms] obtain lr where
    t: "trace s1 =
             trace s @ forward_events args
               @ [ZeroGrad, LossScaler (max_norm args) (second_order C (optimizer s)), CudaSynchronize]
               @ (case model_ema s of None \<Rightarrow> [] | Some e \<Rightarrow> [EmaUpdate])
               @ AllReduceMean (loss_value C args (model s) b) #
                 (case log_writer args of
                    None \<Rightarrow> []
                  | Some d \<Rightarrow>
                      (case epoch_1000x i n (epoch args) of
                         Inl e \<Rightarrow> []
                       | Inr x \<Rightarrow> [AddScalar ''loss'' (all_reduce_mean C (loss_value C args (model s) b)) x,
                                    AddScalar ''lr'' lr x]))"
    by blast
  show "scalar_log (trace s1) = scalar_log (trace s)" if "log_writer args = None"
    unfolding t using that by (simp add: scalar_log_append split: option.splits)
  show "\<exists>x. epoch_1000x i n (epoch args) = Inr x
         \<and> scalar_log (trace s1) = scalar_log (trace s) @ [(''loss'', x), (''lr'', x)]"
    if w: "log_writer args = Some d"
  proof -
    from train_step_None(3) [OF assms w] obtain x where x: "epoch_1000x i n (epoch args) = Inr x"
      by blast
    have "scalar_log (trace s1) = scalar_log (trace s) @ [(''loss'', x), (''lr'', x)]"
      unfolding t using w x by (simp add: scalar_log_append split: option.splits)
    with x show ?thesis by blast
  qed
qed

lemma train_loop_Cons_None:
  assumes "train_loop C args n i (b # bs) s = (None, s')"
  obtains s1 where "train_step C args n i b s = (None, s1)"
    and "train_loop C args n (Suc i) bs s1 = (None, s')"
  using assms by (auto split: prod.splits option.splits)

lemma train_loop_scalar_log_None:
  assumes "train_loop C args n i bs s = (None, s')" and "log_writer args = None"
  shows "scalar_log (trace s') = scalar_log (trace s)"
  using assms(1)
proof (induction bs arbitrary: i s)
  case Nil
  then show ?case by simp
next
  case (Cons b bs)
  from train_loop_Cons_None [OF Cons.prems] obtain s1 where
    st: "train_step C args n i b s = (None, s1)"
    and r: "train_loop C args n (Suc i) bs s1 = (None, s')" by blast
  from Cons.IH [OF r] train_step_scalar_log(1) [OF st assms(2)] show ?case by simp
qed

lemma train_loop_scalar_log:
  assumes "train_loop C args n i bs s = (None, s')" and "log_writer args = Some d"
  shows "\<exists>xs. length xs = length bs
     \<and> (\<forall>k<length bs. epoch_1000x (i + k) n (epoch args) = Inr (xs ! k))
     \<and> scalar_log (trace s') =
         scalar_log (trace s) @ concat (map (\<lambda>x. [(''loss'', x), (''lr'', x)]) xs)"
  using assms(1)
proof (induction bs arbitrary: i s)
  case Nil
  then show ?case by simp
next
  case (Cons b bs)
  from train_loop_Cons_None [OF Cons.prems] obtain s1 where
    st: "train_step C args n i b s = (None, s1)"
    and r: "train_loop C args n (Suc i) bs s1 = (None, s')" by blast
  from Cons.IH [OF r] obtain xs where len: "length xs = length bs"
    and co: "\<And>k. k < length bs \<Longrightarrow> epoch_1000x (Suc i + k) n (epoch args) = Inr (xs ! k)"
    and sl: "scalar_log (trace s') =
         scalar_log (trace s1) @ concat (map (\<lambda>x. [(''loss'', x), (''lr'', x)]) xs)"
    by blast
  from train_step_scalar_log(2) [OF st assms(2)] obtain x where
    x: "epoch_1000x i n (epoch args) = Inr x"
    and s1: "scalar_log (trace s1) = scalar_log (trace s) @ [(''loss'', x), (''lr'', x)]"
    by blast
  have a: "length (x # xs) = length (b # bs)" using len by simp
  have b: "epoch_1000x (i + k) n (epoch args) = Inr ((x # xs) ! k)" if "k < length (b # bs)" for k
  proof (cases k)
    case 0
    with x show ?thesis by simp
  next
    case (Suc k')
    with that have "k' < length bs" by simp
    from co [OF this] show ?thesis using Suc by simp
  qed
  have c: "scalar_log (trace s') =
         scalar_log (trace s) @ concat (map (\<lambda>x. [(''loss'', x), (''lr'', x)]) (x # xs))"
    unfolding sl s1 by simp
  from a b c show ?case by blast
qed

lemma train_loop_trace_prefix: "\<exists>evs. trace (snd (train_loop C args n i bs s)) = trace s @ evs"
  using train_loop_discipline [of C args n i bs s] by blast

lemma train_loop_split:
  assumes "train_loop C args n i (pre @ b # rest) s = (None, s')"
  shows "\<exists>sK sK1. train_loop C args n i pre s = (None, sK)
     \<and> train_step C args n (i + length pre) b sK = (None, sK1)
     \<and> train_loop C args n (Suc (i + length pre)) rest sK1 = (None, s')"
  using assms by (auto simp: train_loop_append split: prod.splits option.splits)

lemma train_one_epoch_Inr:
  assumes "train_one_epoch C args data_loader s0 = (Inr stats, s')"
  shows "\<exists>s''. train_loop C args (length data_loader) 0 data_loader (train_loop_start args s0) = (None, s'')
     \<and> trace s' = trace s'' @ [Print AveragedStats]"
  using assms unfolding train_one_epoch_unfold
  by (auto split: prod.splits option.splits)

lemma train_one_epoch_step:
  assumes run: "train_one_epoch C args data_loader s0 = (Inr stats, s')"
    and w: "log_writer args = Some d" and K: "K < length data_loader"
  shows "\<exists>sK sK1 lr x rest.
      train_loop C args (length data_loader) 0 (take K data_loader) (train_loop_start args s0) = (None, sK)
    \<and> train_step C args (length data_loader) K (data_loader ! K) sK = (None, sK1)
    \<and> read_lr (optimizer sK1) = Inr lr
    \<and> epoch_1000x K (length data_loader) (epoch args) = Inr x
    \<and> trace sK1 =
        trace sK @ forward_events args
          @ [ZeroGrad, LossScaler (max_norm args) (second_order C (optimizer sK)), CudaSynchronize]
          @ (case model_ema sK of None \<Rightarrow> [] | Some e \<Rightarrow> [EmaUpdate])
          @ [AllReduceMean (loss_value C args (model sK) (data_loader ! K)),
             AddScalar ''loss'' (all_reduce_mean C (loss_value C args (model sK) (data_loader ! K))) x,
             AddScalar ''lr'' lr x]
    \<and> trace s' = trace sK1 @ rest"
proof -
  from train_one_epoch_Inr [OF run] obtain s'' where
    l: "train_loop C args (length data_loader) 0 data_loader (train_loop_start args s0) = (None, s'')"
    and t: "trace s' = trace s'' @ [Print AveragedStats]" by blast
  have dl: "data_loader = take K data_loader @ data_loader ! K # drop (Suc K) data_loader"
    by (rule id_take_nth_drop [OF K])
  have lk: "length (take K data_loader) = K" using K by simp
  have "train_loop C args (length data_loader) 0
      (take K data_loader @ data_loader ! K # drop (Suc K) data_loader) (train_loop_start args s0) = (None, s'')"
    using l dl by simp
  from train_loop_split [OF this] obtain sK sK1 where
    a: "train_loop C args (length data_loader) 0 (take K data_loader) (train_loop_start args s0) = (None, sK)"
    and b: "train_step C args (length data_loader) K (data_loader ! K) sK = (None, sK1)"
    and c: "train_loop C args (length data_loader) (Suc K) (drop (Suc K) data_loader) sK1 = (None, s'')"
    unfolding lk by auto
  from train_step_None(3) [OF b w] obtain x where
    x: "epoch_1000x K (length data_loader) (epoch args) = Inr x" by blast
  from train_step_None(2) [OF b] obtain lr where lr: "read_lr (optimizer sK1) = Inr lr"
    and ts: "trace sK1 =
        trace sK @ forward_events args
          @ [ZeroGrad, LossScaler (max_norm args) (second_order C (optimizer sK)), CudaSynchronize]
          @ (case model_ema sK of None \<Rightarrow> [] | Some e \<Rightarrow> [EmaUpdate])
          @ [AllReduceMean (loss_value C args (model sK) (data_loader ! K)),
             AddScalar ''loss'' (all_reduce_mean C (loss_value C args (model sK) (data_loader ! K))) x,
             AddScalar ''lr'' lr x]"
    unfolding w x by auto
  from train_loop_trace_prefix [of C args "length data_loader" "Suc K" "drop (Suc K) data_loader" sK1]
  obtain evs where "trace s'' = trace sK1 @ evs" unfolding c by auto
  then have "trace s' = trace sK1 @ (evs @ [Print AveragedStats])" using t by simp
  with a b lr x ts show ?thesis by blast
qed

lemma train_one_epoch_scalar_log:
  assumes run: "train_one_epoch C args data_loader s0 = (Inr stats, s')"
    and w: "log_writer args = Some d"
  shows "\<exists>xs. length xs = length data_loader
      \<and> (\<forall>K<length data_loader. epoch_1000x K (length data_loader) (epoch args) = Inr (xs ! K))
      \<and> scalar_log (trace s') =
          scalar_log (trace s0) @ concat (map (\<lambda>x. [(''loss'', x), (''lr'', x)]) xs)"
proof -
  from train_one_epoch_Inr [OF run] obtain s'' where
    l: "train_loop C args (length data_loader) 0 data_loader (train_loop_start args s0) = (None, s'')"
    and t: "trace s' = trace s'' @ [Print AveragedStats]" by blast
  from train_loop_scalar_log [OF l w] obtain xs where
    "length xs = length data_loader"
    "\<forall>k<length data_loader. epoch_1000x (0 + k) (length data_loader) (epoch args) = Inr (xs ! k)"
    "scalar_log (trace s'') =
       scalar_log (trace (train_loop_start args s0)) @ concat (map (\<lambda>x. [(''loss'', x), (''lr'', x)]) xs)"
    by blast
  then show ?thesis unfolding t by (auto simp: scalar_log_append)
qed

lemma train_one_epoch_scalar_log_None:
  assumes run: "train_one_epoch C args data_loader s0 = (Inr stats, s')"
    and w: "log_writer args = None"
  shows "scalar_log (trace s') = scalar_log (trace s0)"
proof -
  from train_one_epoch_Inr [OF run] obtain s'' where
    l: "train_loop C args (length data_loader) 0 data_loader (train_loop_start args s0) = (None, s'')"
    and t: "trace s' = trace s'' @ [Print AveragedStats]" by blast
  from train_loop_scalar_log_None [OF l w] show ?thesis
    unfolding t by (simp add: scalar_log_append)
qed

lemma epoch_1000x_1_3_2: "epoch_1000x (Suc 0) 3 2 = Inr 2333"
proof -
  have a: "to_double (real (Suc 0) / real 3) = 6004799503160661 / 2 ^ 54"
    using to_double_eval [of "- 2" "1 / 3"] by (simp add: round_half_even_def)
  have ef: "to_double (real_of_int 2) = 2" using to_double_of_int [of 2] by simp
  have s: "to_double (6004799503160661 / 2 ^ 54 + 2) = 5254199565265579 / 2 ^ 51"
    using to_double_eval [of 1 "6004799503160661 / 2 ^ 54 + 2"] by (simp add: round_half_even_def)
  have p: "to_double (5254199565265579 / 2 ^ 51 * 1000) = 5131054262954667 / 2 ^ 41"
    using to_double_eval [of 11 "5254199565265579 / 2 ^ 51 * 1000"] by (simp add: round_half_even_def)
  from epoch_1000x_eval [OF _ a _ ef _ s _ p] show ?thesis by (simp add: py_int_def)
qed

lemma epoch_1000x_2_3_2: "epoch_1000x (Suc (Suc 0)) 3 2 = Inr 2666"
proof -
  have a: "to_double (real (Suc (Suc 0)) / real 3) = 6004799503160661 / 2 ^ 53"
    using to_double_eval [of "- 1" "2 / 3"] by (simp add: round_half_even_def)
  have ef: "to_double (real_of_int 2) = 2" using to_double_of_int [of 2] by simp
  have s: "to_double (6004799503160661 / 2 ^ 53 + 2) = 6004799503160661 / 2 ^ 51"
    using to_double_eval [of 1 "6004799503160661 / 2 ^ 53 + 2"] by (simp add: round_half_even_def)
  have p: "to_double (6004799503160661 / 2 ^ 51 * 1000) = 5864062014805333 / 2 ^ 41"
    using to_double_eval [of 11 "6004799503160661 / 2 ^ 51 * 1000"] by (simp add: round_half_even_def)
  from epoch_1000x_eval [OF _ a _ ef _ s _ p] show ?thesis by (simp add: py_int_def)
qed

lemma epoch_1000x_2_52_1: "epoch_1000x 1 2 (2 ^ 52 + 1) = Inr 4503599627370498048"
proof -
  have a: "to_double (real 1 / real 2) = 1 / 2"
    using to_double_eval [of "- 1" "1 / 2"] by (simp add: round_half_even_def)
  have ef: "to_double (real_of_int (2 ^ 52 + 1)) = 2 ^ 52 + 1"
    using to_double_of_int [of "2 ^ 52 + 1"] by simp
  have s: "to_double (1 / 2 + (2 ^ 52 + 1)) = 2 ^ 52 + 2"
    using to_double_eval [of 52 "1 / 2 + (2 ^ 52 + 1)"] by (simp add: round_half_even_def)
  have p: "to_double ((2 ^ 52 + 2) * 1000) = 4503599627370498048"
    using to_double_eval [of 61 "(2 ^ 52 + 2) * 1000"] by (simp add: round_half_even_def)
  from epoch_1000x_eval [OF _ a _ ef _ s _ p] show ?thesis by (simp add: py_int_def)
qed

lemma epoch_1000x_2_52_2: "epoch_1000x 1 2 (2 ^ 52 + 1 + 1) = Inr 4503599627370498048"
proof -
  have a: "to_double (real 1 / real 2) = 1 / 2"
    using to_double_eval [of "- 1" "1 / 2"] by (simp add: round_half_even_def)
  have ef: "to_double (real_of_int (2 ^ 52 + 1 + 1)) = 2 ^ 52 + 2"
    using to_double_of_int [of "2 ^ 52 + 2"] by simp
  have s: "to_double (1 / 2 + (2 ^ 52 + 2)) = 2 ^ 52 + 2"
    using to_double_eval [of 52 "1 / 2 + (2 ^ 52 + 2)"] by (simp add: round_half_even_def)
  have p: "to_double ((2 ^ 52 + 2) * 1000) = 4503599627370498048"
    using to_double_eval [of 61 "(2 ^ 52 + 2) * 1000"] by (simp add: round_half_even_def)
  from epoch_1000x_eval [OF _ a _ ef _ s _ p] show ?thesis by (simp add: py_int_def)
qed

lemma finite_loader_length: "length finite_loader = 3"
  by (simp add: finite_loader_def)

lemma finite_run:
  "fst (train_loop demo_collaborators demo_args 3 0 finite_loader (train_loop_start demo_args demo_state)) = None"
  unfolding demo_start finite_loader_def
  by (simp add: demo_defs epoch_1000x_1_3_2 epoch_1000x_2_3_2)

lemma finite_run_silent:
  "fst (train_loop demo_collaborators (demo_args\<lparr>log_writer := None\<rparr>) 3 0 finite_loader
      (train_loop_start (demo_args\<lparr>log_writer := None\<rparr>) demo_state)) = None"
  unfolding finite_loader_def
  by (simp add: demo_defs train_loop_start_def add_meter_def)

lemma list_of_length_3: "length xs = 3 \<Longrightarrow> xs = [xs ! 0, xs ! Suc 0, xs ! Suc (Suc 0)]"
  by (auto simp: numeral_3_eq_3 length_Suc_conv)

text \<open>
  Claim C8 as stated fails in double precision: from an epoch to the next the coordinate
  need not grow. At step 1 of 2 the epochs \<open>2 ^ 52 + 1\<close> and \<open>2 ^ 52 + 2\<close> are logged at
  the same coordinate, and so are the epochs \<open>2 ^ 53\<close> and \<open>2 ^ 53 + 1\<close> at step 0 of 1.
\<close>

theorem log_coordinate_counterexample:
  "epoch_1000x 1 2 (2 ^ 52 + 1) = Inr 4503599627370498048
   \<and> epoch_1000x 1 2 (2 ^ 52 + 1 + 1) = Inr 4503599627370498048
   \<and> epoch_1000x 0 1 (2 ^ 53) = Inr 9007199254740992000
   \<and> epoch_1000x 0 1 (2 ^ 53 + 1) = Inr 9007199254740992000"
  using epoch_1000x_2_52_1 epoch_1000x_2_52_2 epoch_1000x_2_53 epoch_1000x_2_53_1
  by (intro conjI) assumption+

text \<open>
  Claim C8, with the strict growth kept to epochs below \<open>2 ^ 52\<close> in magnitude. In a run of
  \<open>train_one_epoch\<close> that completes with a log sink, the scalars written are, for each
  index \<open>K\<close> of the loader in turn, the loss and then the learning rate, both at the
  coordinate \<open>epoch_1000x K (length data_loader) epoch\<close>; step \<open>K\<close> ends by writing the
  reduced loss of its batch and the learning rate read after its scaled step; without a sink
  nothing is written. A coordinate that line 78 returns is the truncation of the product
  computed with a rounding after the division, the conversion of the epoch, the sum and the
  product; for a fixed length of the loader it does not decrease as the step index grows; it
  is returned, and lies within \<open>1 + 2 powi (k - 41)\<close> of \<open>(i / n + e) * 1000\<close>, when
  \<open>i \<le> n\<close> and the epoch is below \<open>2 ^ k\<close> in magnitude with \<open>k \<le> 53\<close>; and it grows
  strictly from an epoch to the next when both are below \<open>2 ^ 52\<close> in magnitude.
\<close>

theorem log_coordinate:
  "(train_one_epoch C args data_loader s0 = (Inr stats, s') \<longrightarrow> log_writer args = Some d \<longrightarrow>
      (\<exists>xs. length xs = length data_loader
        \<and> (\<forall>K<length data_loader. epoch_1000x K (length data_loader) (epoch args) = Inr (xs ! K))
        \<and> scalar_log (trace s') =
            scalar_log (trace s0) @ concat (map (\<lambda>x. [(''loss'', x), (''lr'', x)]) xs)))
   \<and> (train_one_epoch C args data_loader s0 = (Inr stats, s') \<longrightarrow> log_writer args = Some d \<longrightarrow>
      K < length data_loader \<longrightarrow>
      (\<exists>sK sK1 lr x rest.
          train_loop C args (length data_loader) 0 (take K data_loader) (train_loop_start args s0) = (None, sK)
        \<and> train_step C args (length data_loader) K (data_loader ! K) sK = (None, sK1)
        \<and> read_lr (optimizer sK1) = Inr lr
        \<and> epoch_1000x K (length data_loader) (epoch args) = Inr x
        \<and> trace sK1 =
            trace sK @ forward_events args
              @ [ZeroGrad, LossScaler (max_norm args) (second_order C (optimizer sK)), CudaSynchronize]
              @ (case model_ema sK of None \<Rightarrow> [] | Some e \<Rightarrow> [EmaUpdate])
              @ [AllReduceMean (loss_value C args (model sK) (data_loader ! K)),
                 AddScalar ''loss'' (all_reduce_mean C (loss_value C args (model sK) (data_loader ! K))) x,
                 AddScalar ''lr'' lr x]
        \<and> trace s' = trace sK1 @ rest))
   \<and> (train_one_epoch C args data_loader s0 = (Inr stats, s') \<longrightarrow> log_writer args = None \<longrightarrow>
        scalar_log (trace s') = scalar_log (trace s0))
   \<and> (epoch_1000x i n e = Inr x \<longrightarrow>
        0 < n \<and> x = py_int (to_double (to_double (to_double (real i / real n)
                          + to_double (real_of_int e)) * 1000)))
   \<and> (epoch_1000x i n e = Inr x \<longrightarrow> epoch_1000x j n e = Inr y \<longrightarrow> i \<le> j \<longrightarrow> x \<le> y)
   \<and> (0 < n \<longrightarrow> i \<le> n \<longrightarrow> \<bar>e\<bar> + 1 \<le> 2 ^ k \<longrightarrow> k \<le> 53 \<longrightarrow>
        (\<exists>x. epoch_1000x i n e = Inr x
           \<and> \<bar>real_of_int x - (real i / real n + real_of_int e) * 1000\<bar> < 1 + 2 powi (int k - 41)))
   \<and> (0 < n \<longrightarrow> i \<le> n \<longrightarrow> - (2 ^ 52) < e \<longrightarrow> e + 1 < 2 ^ 52 \<longrightarrow>
        (\<exists>x y. epoch_1000x i n e = Inr x \<and> epoch_1000x i n (e + 1) = Inr y \<and> x < y))"
proof (intro conjI impI)
  show "\<exists>xs. length xs = length data_loader
        \<and> (\<forall>K<length data_loader. epoch_1000x K (length data_loader) (epoch args) = Inr (xs ! K))
        \<and> scalar_log (trace s') =
            scalar_log (trace s0) @ concat (map (\<lambda>x. [(''loss'', x), (''lr'', x)]) xs)"
    if "train_one_epoch C args data_loader s0 = (Inr stats, s')" and "log_writer args = Some d"
    using that by (rule train_one_epoch_scalar_log)
  show "\<exists>sK sK1 lr x rest.
          train_loop C args (length data_loader) 0 (take K data_loader) (train_loop_start args s0) = (None, sK)
        \<and> train_step C args (length data_loader) K (data_loader ! K) sK = (None, sK1)
        \<and> read_lr (optimizer sK1) = Inr lr
        \<and> epoch_1000x K (length data_loader) (epoch args) = Inr x
        \<and> trace sK1 =
            trace sK @ forward_events args
              @ [ZeroGrad, LossScaler (max_norm args) (second_order C (optimizer sK)), CudaSynchronize]
              @ (case model_ema sK of None \<Rightarrow> [] | Some e \<Rightarrow> [EmaUpdate])
              @ [AllReduceMean (loss_value C args (model sK) (data_loader ! K)),
                 AddScalar ''loss'' (all_reduce_mean C (loss_value C args (model sK) (data_loader ! K))) x,
                 AddScalar ''lr'' lr x]
        \<and> trace s' = trace sK1 @ rest"
    if "train_one_epoch C args data_loader s0 = (Inr stats, s')" and "log_writer args = Some d"
      and "K < length data_loader"
    using that by (rule train_one_epoch_step)
  show "scalar_log (trace s') = scalar_log (trace s0)"
    if "train_one_epoch C args data_loader s0 = (Inr stats, s')" and "log_writer args = None"
    using that by (rule train_one_epoch_scalar_log_None)
  show "0 < n" if "epoch_1000x i n e = Inr x"
    using that by (rule epoch_1000x_Inr)
  show "x = py_int (to_double (to_double (to_double (real i / real n)
                          + to_double (real_of_int e)) * 1000))"
    if "epoch_1000x i n e = Inr x"
    using epoch_1000x_Inr(2) [OF that] by (simp only: epoch_1000x_rounded_def)
  show "x \<le> y" if "epoch_1000x i n e = Inr x" and "epoch_1000x j n e = Inr y" and "i \<le> j"
    using that by (rule epoch_1000x_mono)
  show "\<exists>x. epoch_1000x i n e = Inr x
           \<and> \<bar>real_of_int x - (real i / real n + real_of_int e) * 1000\<bar> < 1 + 2 powi (int k - 41)"
    if "0 < n" and "i \<le> n" and "\<bar>e\<bar> + 1 \<le> 2 ^ k" and "k \<le> 53"
    using that by (rule epoch_1000x_pinned)
  show "\<exists>x y. epoch_1000x i n e = Inr x \<and> epoch_1000x i n (e + 1) = Inr y \<and> x < y"
    if "0 < n" and "i \<le> n" and "- (2 ^ 52) < e" and "e + 1 < 2 ^ 52"
    using that by (rule epoch_1000x_next_epoch)
qed

theorem log_coordinate_witness:
  "(\<exists>stats. fst (train_one_epoch demo_collaborators demo_args finite_loader demo_state) = Inr stats)
   \<and> log_writer demo_args = Some ''runs''
   \<and> scalar_log (trace (snd (train_one_epoch demo_collaborators demo_args finite_loader demo_state))) =
       [(''loss'', 2000), (''lr'', 2000), (''loss'', 2333), (''lr'', 2333), (''loss'', 2666), (''lr'', 2666)]
   \<and> Suc 0 < length finite_loader
   \<and> (\<exists>sK sK1 rest.
         train_loop demo_collaborators demo_args (length finite_loader) 0 (take (Suc 0) finite_loader)
           (train_loop_start demo_args demo_state) = (None, sK)
       \<and> train_step demo_collaborators demo_args (length finite_loader) (Suc 0) (finite_loader ! Suc 0) sK
           = (None, sK1)
       \<and> read_lr (optimizer sK1) = Inr (Fin (1 / 5))
       \<and> epoch_1000x (Suc 0) (length finite_loader) (epoch demo_args) = Inr 2333
       \<and> trace sK1 =
           trace sK @ [Forward, ZeroGrad, LossScaler 0 False, CudaSynchronize, EmaUpdate,
                       AllReduceMean (Fin 2), AddScalar ''loss'' (Fin 2) 2333,
                       AddScalar ''lr'' (Fin (1 / 5)) 2333]
       \<and> trace (snd (train_one_epoch demo_collaborators demo_args finite_loader demo_state)) = trace sK1 @ rest)
   \<and> (\<exists>stats. fst (train_one_epoch demo_collaborators (demo_args\<lparr>log_writer := None\<rparr>) finite_loader
                 demo_state) = Inr stats)
   \<and> scalar_log (trace (snd (train_one_epoch demo_collaborators (demo_args\<lparr>log_writer := None\<rparr>)
         finite_loader demo_state))) = []
   \<and> epoch_1000x 9 25 1 = Inr 1359
   \<and> (1359::int) = py_int (to_double (to_double (to_double (real 9 / real 25)
                          + to_double (real_of_int 1)) * 1000))
   \<and> epoch_1000x 10 25 1 = Inr 1400
   \<and> (1359::int) \<le> 1400
   \<and> (\<exists>x. epoch_1000x 9 25 1 = Inr x
         \<and> \<bar>real_of_int x - (real 9 / real 25 + real_of_int 1) * 1000\<bar> < 1 + 2 powi (int 1 - 41))
   \<and> (\<exists>x y. epoch_1000x 9 25 1 = Inr x \<and> epoch_1000x 9 25 (1 + 1) = Inr y \<and> x < y)"
proof -
  let ?r = "train_one_epoch demo_collaborators demo_args finite_loader demo_state"
  let ?L = "snd (train_loop demo_collaborators demo_args 3 0 finite_loader (train_loop_start demo_args demo_state))"
  have ep: "epoch demo_args = 2" and lw: "log_writer demo_args = Some ''runs''"
    by (simp_all add: demo_args_def)
  have l2: "train_loop demo_collaborators demo_args (length finite_loader) 0 finite_loader
      (train_loop_start demo_args demo_state) = (None, ?L)"
    unfolding finite_loader_length using finite_run by (simp add: prod_eq_iff del: train_loop.simps)
  have run: "?r = (Inr (projr (fst ?r)), snd ?r)"
    unfolding train_one_epoch_unfold l2 by simp
  then have "fst ?r = Inr (projr (fst ?r))" by (simp add: prod_eq_iff)
  then have w1: "\<exists>stats. fst ?r = Inr stats" by (rule exI [of _ "projr (fst ?r)"])
  from log_coordinate [where C = demo_collaborators and args = demo_args and data_loader = finite_loader
      and ?s0.0 = demo_state and stats = "projr (fst ?r)" and s' = "snd ?r" and d = "''runs''",
      THEN conjunct1, THEN mp, THEN mp, OF run lw]
  obtain xs where len: "length xs = 3"
    and co: "\<And>K. K < 3 \<Longrightarrow> epoch_1000x K 3 2 = Inr (xs ! K)"
    and sl: "scalar_log (trace (snd ?r)) =
       scalar_log (trace demo_state) @ concat (map (\<lambda>x. [(''loss'', x), (''lr'', x)]) xs)"
    unfolding finite_loader_length ep by blast
  have "xs ! 0 = 2000" using co [of 0] by (simp add: epoch_1000x_0_3_2)
  moreover have "xs ! Suc 0 = 2333" using co [of "Suc 0"] by (simp add: epoch_1000x_1_3_2)
  moreover have "xs ! Suc (Suc 0) = 2666" using co [of "Suc (Suc 0)"] by (simp add: epoch_1000x_2_3_2)
  ultimately have xs: "xs = [2000, 2333, 2666]" using list_of_length_3 [OF len] by simp
  have w3: "scalar_log (trace (snd ?r)) =
       [(''loss'', 2000), (''lr'', 2000), (''loss'', 2333), (''lr'', 2333), (''loss'', 2666), (''lr'', 2666)]"
    unfolding sl xs by (simp add: demo_state_def)
  have K1: "Suc 0 < length finite_loader" by (simp add: finite_loader_length)
  from log_coordinate [where C = demo_collaborators and args = demo_args and data_loader = finite_loader
      and ?s0.0 = demo_state and stats = "projr (fst ?r)" and s' = "snd ?r" and d = "''runs''"
      and K = "Suc 0",
      THEN conjunct2, THEN conjunct1, THEN mp, THEN mp, THEN mp, OF run lw K1]
  obtain sK sK1 lr x rest where
    a: "train_loop demo_collaborators demo_args (length finite_loader) 0 (take (Suc 0) finite_loader)
           (train_loop_start demo_args demo_state) = (None, sK)"
    and b: "train_step demo_collaborators demo_args (length finite_loader) (Suc 0) (finite_loader ! Suc 0) sK
           = (None, sK1)"
    and c: "read_lr (optimizer sK1) = Inr lr"
    and d: "epoch_1000x (Suc 0) (length finite_loader) (epoch demo_args) = Inr x"
    and e: "trace sK1 =
            trace sK @ forward_events demo_args
              @ [ZeroGrad, LossScaler (max_norm demo_args) (second_order demo_collaborators (optimizer sK)),
                 CudaSynchronize]
              @ (case model_ema sK of None \<Rightarrow> [] | Some e \<Rightarrow> [EmaUpdate])
              @ [AllReduceMean (loss_value demo_collaborators demo_args (model sK) (finite_loader ! Suc 0)),
                 AddScalar ''loss'' (all_reduce_mean demo_collaborators
                    (loss_value demo_collaborators demo_args (model sK) (finite_loader ! Suc 0))) x,
                 AddScalar ''lr'' lr x]"
    and f: "trace (snd ?r) = trace sK1 @ rest"
    by blast
  have x: "x = 2333" using d unfolding finite_loader_length ep by (simp add: epoch_1000x_1_3_2)
  have sK: "model sK = 1" "model_ema sK = Some 1"
    "optimizer sK = \<lparr>param_groups = [[''lr'' \<mapsto> Fin (1 / 10)]], is_second_order = None, internals = 1\<rparr>"
    using a [unfolded finite_loader_length] unfolding finite_loader_def demo_start
    by (auto simp: demo_defs)
  have "optimizer sK1 =
      optimizer (snd (train_step demo_collaborators demo_args (length finite_loader) (Suc 0)
        (finite_loader ! Suc 0) sK))"
    unfolding b by simp
  also have "\<dots> = \<lparr>param_groups = [[''lr'' \<mapsto> Fin (1 / 5)]], is_second_order = None, internals = 2\<rparr>"
    unfolding finite_loader_length unfolding finite_loader_def
    by (simp add: demo_defs epoch_1000x_1_3_2 sK)
  finally have "read_lr (optimizer sK1) = Inr (Fin (1 / 5))" by (simp add: read_lr_def)
  with c have lr: "lr = Fin (1 / 5)" by simp
  have e': "trace sK1 =
           trace sK @ [Forward, ZeroGrad, LossScaler 0 False, CudaSynchronize, EmaUpdate,
                       AllReduceMean (Fin 2), AddScalar ''loss'' (Fin 2) 2333,
                       AddScalar ''lr'' (Fin (1 / 5)) 2333]"
    unfolding e x lr finite_loader_def by (simp add: demo_defs sK)
  have w4: "\<exists>sK sK1 rest.
         train_loop demo_collaborators demo_args (length finite_loader) 0 (take (Suc 0) finite_loader)
           (train_loop_start demo_args demo_state) = (None, sK)
       \<and> train_step demo_collaborators demo_args (length finite_loader) (Suc 0) (finite_loader ! Suc 0) sK
           = (None, sK1)
       \<and> read_lr (optimizer sK1) = Inr (Fin (1 / 5))
       \<and> epoch_1000x (Suc 0) (length finite_loader) (epoch demo_args) = Inr 2333
       \<and> trace sK1 =
           trace sK @ [Forward, ZeroGrad, LossScaler 0 False, CudaSynchronize, EmaUpdate,
                       AllReduceMean (Fin 2), AddScalar ''loss'' (Fin 2) 2333,
                       AddScalar ''lr'' (Fin (1 / 5)) 2333]
       \<and> trace (snd ?r) = trace sK1 @ rest"
    using a b c [unfolded lr] d [unfolded x] e' f by (intro exI conjI)
  let ?a = "demo_args\<lparr>log_writer := None\<rparr>"
  let ?q = "train_one_epoch demo_collaborators ?a finite_loader demo_state"
  let ?M = "snd (train_loop demo_collaborators ?a 3 0 finite_loader (train_loop_start ?a demo_state))"
  have lwn: "log_writer ?a = None" by simp
  have l3: "train_loop demo_collaborators ?a (length finite_loader) 0 finite_loader
      (train_loop_start ?a demo_state) = (None, ?M)"
    unfolding finite_loader_length using finite_run_silent by (simp add: prod_eq_iff del: train_loop.simps)
  have runq: "?q = (Inr (projr (fst ?q)), snd ?q)"
    unfolding train_one_epoch_unfold l3 by simp
  then have "fst ?q = Inr (projr (fst ?q))" by (simp add: prod_eq_iff)
  then have w5: "\<exists>stats. fst ?q = Inr stats" by (rule exI [of _ "projr (fst ?q)"])
  have "scalar_log (trace (snd ?q)) = scalar_log (trace demo_state)"
    by (rule log_coordinate [where C = demo_collaborators and args = ?a and data_loader = finite_loader
      and ?s0.0 = demo_state and stats = "projr (fst ?q)" and s' = "snd ?q",
      THEN conjunct2, THEN conjunct2, THEN conjunct1, THEN mp, THEN mp, OF runq lwn])
  then have w6: "scalar_log (trace (snd ?q)) = []" by (simp add: demo_state_def)
  note rest = log_coordinate [where i = 9 and n = 25 and e = 1 and x = 1359 and j = 10 and y = 1400
      and k = 1, THEN conjunct2, THEN conjunct2, THEN conjunct2]
  have w7: "(1359::int) = py_int (to_double (to_double (to_double (real 9 / real 25)
                          + to_double (real_of_int 1)) * 1000))"
    using rest [THEN conjunct1, THEN mp, OF epoch_1000x_9_25_1] by (rule conjunct2)
  have w8: "(1359::int) \<le> 1400"
    using rest [THEN conjunct2, THEN conjunct1, THEN mp, THEN mp, THEN mp,
        OF epoch_1000x_9_25_1 epoch_1000x_10_25_1] by simp
  have h: "(0::nat) < 25" "(9::nat) \<le> 25" "\<bar>1::int\<bar> + 1 \<le> 2 ^ 1" "(1::nat) \<le> 53"
    "- (2 ^ 52) < (1::int)" "(1::int) + 1 < 2 ^ 52" by simp_all
  have w9: "\<exists>x. epoch_1000x 9 25 1 = Inr x
         \<and> \<bar>real_of_int x - (real 9 / real 25 + real_of_int 1) * 1000\<bar> < 1 + 2 powi (int 1 - 41)"
    by (rule rest [THEN conjunct2, THEN conjunct2, THEN conjunct1, THEN mp, THEN mp, THEN mp, THEN mp,
        OF h(1) h(2) h(3) h(4)])
  have w10: "\<exists>x y. epoch_1000x 9 25 1 = Inr x \<and> epoch_1000x 9 25 (1 + 1) = Inr y \<and> x < y"
    by (rule rest [THEN conjunct2, THEN conjunct2, THEN conjunct2, THEN mp, THEN mp, THEN mp, THEN mp,
        OF h(1) h(2) h(5) h(6)])
  show ?thesis
    using w1 lw w3 K1 w4 w5 w6 epoch_1000x_9_25_1 w7 epoch_1000x_10_25_1 w8 w9 w10
    by (intro conjI) assumption+
qed

subsection \<open>The recorded learning rate\<close>

text \<open>
  Claim C9. When step \<open>K\<close> of a run completes, the learning rate appended to the
  \<open>lr\<close> meter, and written last to the log sink when one is configured, is the one
  read from the first parameter group of the optimizer as the scaled step of that very step
  left it.
\<close>

theorem lr_recorded_after_update:
  assumes "train_loop C args n 0 (take K data_loader) s0 = (None, sK)"
    and "K < length data_loader"
    and "train_loop C args n 0 (take (Suc K) data_loader) s0 = (None, sK1)"
  shows "\<exists>lr. read_lr (optimizer sK1) = Inr lr
     \<and> optimizer sK1 =
         snd (loss_scaler C (batch_loss C args (model sK) (data_loader ! K)) (zero_grad C (optimizer sK))
                (max_norm args) (model sK) (second_order C (optimizer sK)))
     \<and> meters sK1 =
         logger_update ''lr'' lr
           (logger_update ''loss'' (loss_value C args (model sK) (data_loader ! K)) (meters sK))
     \<and> (\<forall>d. log_writer args = Some d \<longrightarrow>
          (\<exists>x. epoch_1000x K n (epoch args) = Inr x \<and> last (trace sK1) = AddScalar ''lr'' lr x))"
proof -
  let ?b = "data_loader ! K"
  have st: "train_step C args n K ?b sK = (None, sK1)"
    using assms by (simp add: take_Suc_conv_app_nth train_loop_append split: prod.splits option.splits)
  have f: "isfinite (loss_value C args (model sK) ?b)"
    using train_step_nonfinite [of C args sK ?b n K] st by auto
  let ?s1 = "optimize C args (batch_loss C args (model sK) ?b) (sK\<lparr>trace := trace sK @ forward_events args\<rparr>)"
  have rs: "record_step C args n K (loss_value C args (model sK) ?b) ?s1 = (None, sK1)"
    using st by (simp add: train_step_finite_eq [OF f])
  then obtain lr where lr: "read_lr (optimizer ?s1) = Inr lr"
    using record_step_None [of C args n K "loss_value C args (model sK) ?b" ?s1] by auto
  have o: "optimizer sK1 = optimizer ?s1"
    using record_step_optimizer [of C args n K "loss_value C args (model sK) ?b" ?s1] rs by simp
  have m: "meters sK1 = logger_update ''lr'' lr (logger_update ''loss'' (loss_value C args (model sK) ?b) (meters sK))"
    using record_step_meters_lr [OF lr, of C args n K "loss_value C args (model sK) ?b"] rs by simp
  have t: "trace sK1 = trace ?s1 @ AllReduceMean (loss_value C args (model sK) ?b) #
       (case log_writer args of
          None \<Rightarrow> []
        | Some d \<Rightarrow>
            (case epoch_1000x K n (epoch args) of
               Inl e \<Rightarrow> []
             | Inr x \<Rightarrow> [AddScalar ''loss'' (all_reduce_mean C (loss_value C args (model sK) ?b)) x,
                          AddScalar ''lr'' lr x]))"
    using record_step_trace_lr [OF lr, of C args n K "loss_value C args (model sK) ?b"] rs by simp
  have w: "\<exists>x. epoch_1000x K n (epoch args) = Inr x \<and> last (trace sK1) = AddScalar ''lr'' lr x"
    if "log_writer args = Some d" for d
  proof (cases "epoch_1000x K n (epoch args)")
    case (Inl e)
    with rs lr that show ?thesis
      by (simp add: record_step_def Let_def)
  next
    case (Inr x)
    with t that show ?thesis by simp
  qed
  have "read_lr (optimizer sK1) = Inr lr"
    using lr o by simp
  moreover have "optimizer sK1 =
         snd (loss_scaler C (batch_loss C args (model sK) ?b) (zero_grad C (optimizer sK))
                (max_norm args) (model sK) (second_order C (optimizer sK)))"
    using o by (simp add: optimizer_optimize)
  ultimately show ?thesis
    using m w by blast
qed

theorem lr_recorded_after_update_witness:
  "train_loop demo_collaborators demo_args 3 0 (take 0 demo_loader) demo_state = (None, demo_state)
   \<and> 0 < length demo_loader
   \<and> fst (train_loop demo_collaborators demo_args 3 0 (take (Suc 0) demo_loader) demo_state) = None
   \<and> read_lr (optimizer (snd (train_loop demo_collaborators demo_args 3 0 (take (Suc 0) demo_loader) demo_state)))
       = Inr (Fin (1 / 10))
   \<and> read_lr (optimizer demo_state) = Inr (Fin 1)
   \<and> meters (snd (train_loop demo_collaborators demo_args 3 0 (take (Suc 0) demo_loader) demo_state)) ''lr''
       = Some [(Fin (1 / 10), 1)]
   \<and> last (trace (snd (train_loop demo_collaborators demo_args 3 0 (take (Suc 0) demo_loader) demo_state)))
       = AddScalar ''lr'' (Fin (1 / 10)) 2000"
proof -
  let ?s1 = "snd (train_loop demo_collaborators demo_args 3 0 (take (Suc 0) demo_loader) demo_state)"
  have t1: "take (Suc 0) demo_loader = [(Fin 1, 0)]" by (simp add: demo_loader_def)
  have h1: "train_loop demo_collaborators demo_args 3 0 (take 0 demo_loader) demo_state = (None, demo_state)"
    by simp
  have h2: "0 < length demo_loader" by (simp add: demo_loader_def)
  have h3: "train_loop demo_collaborators demo_args 3 0 (take (Suc 0) demo_loader) demo_state = (None, ?s1)"
    unfolding t1 demo_first by simp
  from lr_recorded_after_update [OF h1 h2 h3] obtain lr where
    lr: "read_lr (optimizer ?s1) = Inr lr"
    and m: "meters ?s1 = logger_update ''lr'' lr
           (logger_update ''loss'' (loss_value demo_collaborators demo_args (model demo_state) (demo_loader ! 0))
              (meters demo_state))"
    and w: "\<forall>d. log_writer demo_args = Some d \<longrightarrow>
          (\<exists>x. epoch_1000x 0 3 (epoch demo_args) = Inr x \<and> last (trace ?s1) = AddScalar ''lr'' lr x)"
    by blast
  have v: "read_lr (optimizer ?s1) = Inr (Fin (1 / 10))"
    unfolding t1 demo_first by (simp add: read_lr_def)
  with lr have lr_eq: "lr = Fin (1 / 10)" by simp
  have c3: "fst (train_loop demo_collaborators demo_args 3 0 (take (Suc 0) demo_loader) demo_state) = None"
    unfolding t1 demo_first by simp
  have c5: "read_lr (optimizer demo_state) = Inr (Fin 1)"
    by (simp add: read_lr_def demo_state_def)
  have c6: "meters ?s1 ''lr'' = Some [(Fin (1 / 10), 1)]"
    unfolding m lr_eq by (simp add: logger_update_def meter_update_def demo_state_def)
  have "log_writer demo_args = Some ''runs''" by (simp add: demo_args_def)
  with w obtain x where x: "epoch_1000x 0 3 (epoch demo_args) = Inr x"
    and l: "last (trace ?s1) = AddScalar ''lr'' lr x" by blast
  have "x = 2000" using x by (simp add: demo_args_def epoch_1000x_0_3_2)
  with l lr_eq have c7: "last (trace ?s1) = AddScalar ''lr'' (Fin (1 / 10)) 2000" by simp
  show ?thesis
    using h1 h2 c3 v c5 c6 c7 by blast
qed

section \<open>Properties of the evaluation driver\<close>

lemma log_call_simps [simp]:
  "eval_trace (log_call ev s) = eval_trace s @ [ev]"
  "cache (log_call ev s) = cache s"
  "batch_num (log_call ev s) = batch_num s"
  "eval_meters (log_call ev s) = eval_meters s"
  "dirs (log_call ev s) = dirs s"
  by (simp_all add: log_call_def)

lemma forward_pass_simps [simp]:
  "cache (forward_pass C images s) = capture C images Map.empty"
  "eval_trace (forward_pass C images s) = eval_trace s @ [CacheClear, RunModel]"
  "batch_num (forward_pass C images s) = batch_num s"
  "eval_meters (forward_pass C images s) = eval_meters s"
  "dirs (forward_pass C images s) = dirs s"
  by (simp_all add: forward_pass_def cache_clear_def Let_def)

lemma savefig_cases:
  "savefig path fig s =
     (if ''out/visual'' \<in> dirs s then (None, log_call (SaveFig path fig) s) else (Some FileNotFoundError, s))"
  by (simp add: savefig_def)

text \<open>What drawing the cells leaves untouched, and what it adds to the trace.\<close>

lemma draw_cells_frame:
  "cache (snd (draw_cells d target a base idxs cells s)) = cache s
   \<and> batch_num (snd (draw_cells d target a base idxs cells s)) = batch_num s
   \<and> eval_meters (snd (draw_cells d target a base idxs cells s)) = eval_meters s
   \<and> dirs (snd (draw_cells d target a base idxs cells s)) = dirs s"
  by (induction idxs arbitrary: cells s)
     (auto simp: Let_def split: sum.splits prod.splits)

lemma draw_cells_trace:
  "\<exists>k \<le> length idxs. eval_trace (snd (draw_cells d target a base idxs cells s)) =
      eval_trace s @ map (\<lambda>i. GetItem (base + i)) (take k idxs)"
proof (induction idxs arbitrary: cells s)
  case Nil
  then show ?case by simp
next
  case (Cons i idxs)
  let ?s = "log_call (GetItem (base + i)) s"
  have stop: "\<exists>k \<le> length (i # idxs). eval_trace ?s = eval_trace s @ map (\<lambda>i. GetItem (base + i)) (take k (i # idxs))"
    by (rule exI [of _ 1]) simp
  have go: "\<exists>k \<le> length (i # idxs). eval_trace (snd (draw_cells d target a base idxs cells' ?s)) =
      eval_trace s @ map (\<lambda>i. GetItem (base + i)) (take k (i # idxs))" for cells'
  proof -
    from Cons.IH [of cells' ?s] obtain k where k: "k \<le> length idxs"
      and t: "eval_trace (snd (draw_cells d target a base idxs cells' ?s)) =
         eval_trace ?s @ map (\<lambda>i. GetItem (base + i)) (take k idxs)" by blast
    show ?thesis
      by (rule exI [of _ "Suc k"]) (use k t in simp)
  qed
  show ?case
    using stop go by (auto simp: Let_def split: sum.splits prod.splits simp del: take_Suc_Cons)
qed

lemma and_then_Inr [simp]: "and_then (Inr v) f = f v"
  and and_then_Inl [simp]: "and_then (Inl e) f = Inl e"
  by (simp_all add: and_then_def)

lemma sqrt_search_le: "sqrt_search n k * sqrt_search n k \<le> n"
  by (induction k) simp_all

lemma sqrt_search_bound: "sqrt_search n k \<le> k"
  by (induction k) auto

lemma sqrt_search_greatest: "sqrt_search n k < j \<Longrightarrow> j \<le> k \<Longrightarrow> n < j * j"
proof (induction k)
  case 0
  then show ?case by simp
next
  case (Suc k)
  then show ?case
    by (cases "j = Suc k") (auto split: if_splits)
qed

lemma isqrt_le: "isqrt n * isqrt n \<le> n"
  by (simp add: isqrt_def sqrt_search_le)

lemma isqrt_greatest: "n < Suc (isqrt n) * Suc (isqrt n)"
proof (cases "Suc (isqrt n) \<le> n")
  case True
  then show ?thesis
    using sqrt_search_greatest [of n n "Suc (isqrt n)"] by (simp add: isqrt_def)
next
  case False
  then have "n \<le> isqrt n" by simp
  then show ?thesis
    by simp
qed

lemma isqrt_unique: "k * k \<le> n \<Longrightarrow> n < Suc k * Suc k \<Longrightarrow> isqrt n = k"
proof -
  assume a: "k * k \<le> n" and b: "n < Suc k * Suc k"
  have "\<not> isqrt n < k"
  proof
    assume "isqrt n < k"
    then have le: "Suc (isqrt n) \<le> k" by simp
    have "Suc (isqrt n) * Suc (isqrt n) \<le> k * k"
      by (rule mult_le_mono [OF le le])
    with a isqrt_greatest [of n] show False by simp
  qed
  moreover have "\<not> k < isqrt n"
  proof
    assume "k < isqrt n"
    then have le: "Suc k \<le> isqrt n" by simp
    have "Suc k * Suc k \<le> isqrt n * isqrt n"
      by (rule mult_le_mono [OF le le])
    with b isqrt_le [of n] show False by simp
  qed
  ultimately show ?thesis by simp
qed

lemma isqrt_square [simp]: "isqrt (k * k) = k"
  by (rule isqrt_unique) simp_all

lemma isqrt_floor_sqrt: "isqrt n = nat \<lfloor>sqrt (real n)\<rfloor>"
proof (rule isqrt_unique)
  let ?k = "nat \<lfloor>sqrt (real n)\<rfloor>"
  have k: "real ?k \<le> sqrt (real n)" "sqrt (real n) < real ?k + 1"
    by (simp_all add: of_nat_nat)
  have "real ?k * real ?k \<le> sqrt (real n) * sqrt (real n)"
    using k(1) by (intro mult_mono) simp_all
  then have "real (?k * ?k) \<le> real n" by simp
  then show "?k * ?k \<le> n" by (simp only: of_nat_le_iff)
  have "(sqrt (real n))\<^sup>2 < (real ?k + 1)\<^sup>2"
    using k(2) by (intro power_strict_mono) simp_all
  then have "real n < real (Suc ?k * Suc ?k)" by (simp add: power2_eq_square algebra_simps)
  then show "n < Suc ?k * Suc ?k" by (simp only: of_nat_less_iff)
qed

lemma np_mean_axis1:
  assumes "shape a = N # H # rest"
  shows "np_mean avg 1 a =
     Inr \<lparr>shape = N # rest,
          data = map (\<lambda>q. avg (map (\<lambda>h. data a ! (((q div prod_list rest) * H + h) * prod_list rest
                                               + q mod prod_list rest)) [0..<H]))
                     [0..<N * prod_list rest]\<rparr>"
  using assms by (simp add: np_mean_def Let_def)

lemma np_mean_axis2:
  assumes "shape a = [B, M, R]"
  shows "np_mean avg 2 a =
     Inr \<lparr>shape = [B, M], data = map (\<lambda>q. avg (map (\<lambda>r. data a ! (q * R + r)) [0..<R])) [0..<B * M]\<rparr>"
  using assms by (simp add: np_mean_def)

lemma reshape_index_bound:
  fixes b m r q j :: nat
  assumes "q < b" "j < r"
  shows "q * r + j < b * r"
proof -
  have "q * r + j < q * r + r" using assms by simp
  also have "\<dots> = Suc q * r" by simp
  also have "\<dots> \<le> b * r" using assms by (intro mult_le_mono1) simp
  finally show ?thesis .
qed

lemma reduce_attention_eq:
  assumes attn: "shape attn = N # H # W # rest"
    and rw: "shape r_weight = r0 # P # rrest"
    and pos: "0 < B * (P * W)"
    and dvd: "(N * (W * prod_list rest)) mod (B * (P * W)) = 0"
  shows "reduce_attention avg attn r_weight B =
     Inr \<lparr>shape = [B, P * W],
          data = map (\<lambda>c. avg (map (\<lambda>r.
                   avg (map (\<lambda>h. data attn !
                          ((((c * (N * (W * prod_list rest) div (B * (P * W))) + r) div (W * prod_list rest)) * H + h)
                             * (W * prod_list rest)
                           + (c * (N * (W * prod_list rest) div (B * (P * W))) + r) mod (W * prod_list rest)))
                        [0..<H]))
                   [0..<N * (W * prod_list rest) div (B * (P * W))]))
                 [0..<B * (P * W)]\<rparr>"
proof -
  define K where "K = W * prod_list rest"
  define M where "M = P * W"
  define R where "R = N * K div (B * M)"
  define g where "g = (\<lambda>q. avg (map (\<lambda>h. data attn ! (((q div K) * H + h) * K + q mod K)) [0..<H]))"
  define a1 where "a1 = \<lparr>shape = N # W # rest, data = map g [0..<N * K]\<rparr>"
  define a2 where "a2 = \<lparr>shape = [B, M, R], data = map g [0..<N * K]\<rparr>"
  have m1: "np_mean avg 1 attn = Inr a1"
    using np_mean_axis1 [of attn N H "W # rest" avg] attn
    by (simp add: a1_def g_def K_def)
  have len: "length (data a1) = N * K" by (simp add: a1_def)
  have pos': "B * M \<noteq> 0" using pos by (simp add: M_def)
  have dvd': "N * K mod (B * M) = 0" using dvd by (simp only: K_def M_def)
  have rs: "np_reshape_infer [B, M] a1 = Inr a2"
    unfolding np_reshape_infer_def Let_def len using pos' dvd'
    by (simp add: a1_def a2_def R_def)
  have total: "B * M * R = N * K"
    unfolding R_def using dvd' by (metis mod_0_imp_dvd dvd_mult_div_cancel)
  have idx: "data a2 ! (q * R + r) = g (q * R + r)" if "q < B * M" "r < R" for q r
  proof -
    have "q * R + r < B * M * R"
      using that by (rule reshape_index_bound)
    then have "q * R + r < N * K" by (simp only: total)
    then show ?thesis by (simp add: a2_def)
  qed
  have "map (\<lambda>q. avg (map (\<lambda>r. data a2 ! (q * R + r)) [0..<R])) [0..<B * M]
      = map (\<lambda>q. avg (map (\<lambda>r. g (q * R + r)) [0..<R])) [0..<B * M]"
    by (intro map_cong arg_cong [of _ _ avg] refl) (simp add: idx)
  then have m2: "np_mean avg 2 a2 =
      Inr \<lparr>shape = [B, M], data = map (\<lambda>q. avg (map (\<lambda>r. g (q * R + r)) [0..<R])) [0..<B * M]\<rparr>"
    using np_mean_axis2 [of a2 B M R avg] by (simp add: a2_def)
  have s2: "shape_at attn 2 = Inr W" and s1: "shape_at r_weight 1 = Inr P"
    using attn rw by (simp_all add: shape_at_def py_nth_def)
  have "reduce_attention avg attn r_weight B =
      Inr \<lparr>shape = [B, M], data = map (\<lambda>q. avg (map (\<lambda>r. g (q * R + r)) [0..<R])) [0..<B * M]\<rparr>"
    unfolding reduce_attention_def s2 s1 m1 and_then_Inr M_def [symmetric] rs m2 ..
  then show ?thesis
    unfolding g_def R_def M_def K_def .
qed

lemma np_getitem_row:
  assumes "shape a = [B, n]" "wf_array a" "i < B"
  shows "np_getitem a i = Inr \<lparr>shape = [n], data = map (\<lambda>j. data a ! (i * n + j)) [0..<n]\<rparr>"
proof -
  have len: "length (data a) = B * n"
    using assms by (simp add: wf_array_def)
  have "Suc i * n \<le> B * n"
    using assms(3) by (intro mult_le_mono1) simp
  then have fit: "i * n + n \<le> length (data a)"
    by (simp add: len)
  have "take n (drop (i * n) (data a)) = map (\<lambda>j. data a ! (i * n + j)) [0..<n]"
  proof (rule nth_equalityI)
    show "length (take n (drop (i * n) (data a))) = length (map (\<lambda>j. data a ! (i * n + j)) [0..<n])"
      using fit by simp
  next
    fix j
    assume "j < length (take n (drop (i * n) (data a)))"
    then have j: "j < n" by simp
    with fit show "take n (drop (i * n) (data a)) ! j = map (\<lambda>j. data a ! (i * n + j)) [0..<n] ! j"
      by simp
  qed
  then show ?thesis
    using assms by (simp add: np_getitem_def)
qed

lemma np_repeat_rows:
  assumes "shape g = [s, s]"
  shows "np_repeat 3 0 g =
     Inr \<lparr>shape = [3 * s, s],
          data = map (\<lambda>q. data g ! (((q div (3 * s * s)) * s + (q div s) mod (3 * s) div 3) * s + q mod s))
                     [0..<3 * s * s]\<rparr>"
  using assms by (simp add: np_repeat_def Let_def)

lemma np_repeat_columns:
  assumes "shape g = [t, s]"
  shows "np_repeat 3 1 g =
     Inr \<lparr>shape = [t, 3 * s],
          data = map (\<lambda>q. data g ! ((q div (3 * s)) * s + q mod (3 * s) div 3)) [0..<t * (3 * s)]\<rparr>"
  using assms by (simp add: np_repeat_def Let_def)

lemma grid_index:
  fixes r c s :: nat
  assumes "c < s"
  shows "(r * s + c) div s = r" "(r * s + c) mod s = c"
  using assms by simp_all

lemma cell_bound:
  fixes r c s t :: nat
  assumes "r < t" "c < s"
  shows "r * s + c < t * s"
  using assms by (rule reshape_index_bound)

lemma upsample_source:
  fixes q s :: nat
  assumes q: "q < 3 * s * (3 * s)"
  defines "j \<equiv> (q div (3 * s)) * s + q mod (3 * s) div 3"
  shows "j < 3 * s * s"
    and "((j div (3 * s * s)) * s + (j div s) mod (3 * s) div 3) * s + j mod s
           = (q div (3 * s)) div 3 * s + q mod (3 * s) div 3"
    and "(q div (3 * s)) div 3 * s + q mod (3 * s) div 3 < s * s"
proof -
  have s: "0 < s" using q by (cases s) simp_all
  define r where "r = q div (3 * s)"
  define c where "c = q mod (3 * s) div 3"
  have r: "r < 3 * s"
    unfolding r_def using q s by (simp add: less_mult_imp_div_less)
  have "q mod (3 * s) < 3 * s" using s by simp
  then have c: "c < s" unfolding c_def by (simp add: less_mult_imp_div_less mult.commute)
  have j: "j = r * s + c" by (simp add: j_def r_def c_def)
  show "j < 3 * s * s"
    unfolding j using r c by (rule cell_bound)
  then have z: "j div (3 * s * s) = 0" by simp
  have "r div 3 < s" using r by (simp add: less_mult_imp_div_less mult.commute)
  then show "(q div (3 * s)) div 3 * s + q mod (3 * s) div 3 < s * s"
    unfolding r_def [symmetric] c_def [symmetric] using c by (rule cell_bound)
  show "((j div (3 * s * s)) * s + (j div s) mod (3 * s) div 3) * s + j mod s
           = (q div (3 * s)) div 3 * s + q mod (3 * s) div 3"
    unfolding z r_def [symmetric] c_def [symmetric]
    using r c by (simp add: j grid_index [OF c])
qed

lemma attention_map_eq:
  assumes sh: "shape a = [B, s * s]" and wf: "wf_array a" and i: "i < B"
  shows "attention_map a i =
     Inr \<lparr>shape = [3 * s, 3 * s],
          data = map (\<lambda>q. data a ! (i * (s * s) + ((q div (3 * s)) div 3 * s + q mod (3 * s) div 3)))
                     [0..<3 * s * (3 * s)]\<rparr>"
proof -
  define v where "v = map (\<lambda>j. data a ! (i * (s * s) + j)) [0..<s * s]"
  define u where "u = map (\<lambda>q. v ! (((q div (3 * s * s)) * s + (q div s) mod (3 * s) div 3) * s + q mod s))
                     [0..<3 * s * s]"
  have g0: "np_getitem a i = Inr \<lparr>shape = [s * s], data = v\<rparr>"
    using np_getitem_row [OF sh wf i] by (simp add: v_def)
  have n: "shape_at \<lparr>shape = [s * s], data = v\<rparr> 0 = Inr (s * s)"
    by (simp add: shape_at_def py_nth_def)
  have rs: "np_reshape [s, s] \<lparr>shape = [s * s], data = v\<rparr> = Inr \<lparr>shape = [s, s], data = v\<rparr>"
    by (simp add: np_reshape_def v_def)
  have r0: "np_repeat 3 0 \<lparr>shape = [s, s], data = v\<rparr> = Inr \<lparr>shape = [3 * s, s], data = u\<rparr>"
    using np_repeat_rows [of "\<lparr>shape = [s, s], data = v\<rparr>" s] by (simp add: u_def)
  have r1: "np_repeat 3 1 \<lparr>shape = [3 * s, s], data = u\<rparr> =
      Inr \<lparr>shape = [3 * s, 3 * s],
           data = map (\<lambda>q. u ! ((q div (3 * s)) * s + q mod (3 * s) div 3)) [0..<3 * s * (3 * s)]\<rparr>"
    using np_repeat_columns [of "\<lparr>shape = [3 * s, s], data = u\<rparr>" "3 * s" s] by simp
  have el: "u ! ((q div (3 * s)) * s + q mod (3 * s) div 3)
      = data a ! (i * (s * s) + ((q div (3 * s)) div 3 * s + q mod (3 * s) div 3))"
    if q: "q < 3 * s * (3 * s)" for q
  proof -
    note src = upsample_source [OF q]
    define j where "j = (q div (3 * s)) * s + q mod (3 * s) div 3"
    define k where "k = (q div (3 * s)) div 3 * s + q mod (3 * s) div 3"
    have j: "j < 3 * s * s - 0" and k: "k < s * s - 0"
      using src(1) src(3) by (simp_all add: j_def k_def)
    have jk: "((j div (3 * s * s)) * s + (j div s) mod (3 * s) div 3) * s + j mod s = k"
      using src(2) by (simp only: j_def k_def)
    have "u ! j = v ! (((0 + j) div (3 * s * s) * s + ((0 + j) div s) mod (3 * s) div 3) * s + (0 + j) mod s)"
      unfolding u_def by (rule nth_map_upt [OF j])
    also have "\<dots> = v ! k"
      by (simp only: add_0 jk)
    also have "\<dots> = data a ! (i * (s * s) + (0 + k))"
      unfolding v_def by (rule nth_map_upt [OF k])
    finally show ?thesis
      by (simp only: add_0 j_def k_def)
  qed
  have "map (\<lambda>q. u ! ((q div (3 * s)) * s + q mod (3 * s) div 3)) [0..<3 * s * (3 * s)]
      = map (\<lambda>q. data a ! (i * (s * s) + ((q div (3 * s)) div 3 * s + q mod (3 * s) div 3)))
            [0..<3 * s * (3 * s)]"
    by (intro map_cong refl) (simp add: el)
  then show ?thesis
    unfolding attention_map_def g0 n and_then_Inr Let_def isqrt_square rs r0 r1 by simp
qed

lemma attention_map_not_square:
  assumes sh: "shape a = [B, n]" and wf: "wf_array a" and i: "i < B"
    and n: "isqrt n * isqrt n \<noteq> n"
  shows "attention_map a i = Inl ValueError"
  unfolding attention_map_def np_getitem_row [OF sh wf i] and_then_Inr
  using n by (simp add: shape_at_def py_nth_def np_reshape_def Let_def)

lemma reduce_attention_cell:
  assumes attn: "shape attn = (B * P) # H # W # rest"
    and rw: "shape r_weight = r0 # P # rrest"
    and b: "b < B" and p: "p < P" and w: "w < W" and K: "0 < prod_list rest"
  shows "\<exists>a. reduce_attention avg attn r_weight B = Inr a \<and> shape a = [B, P * W]
     \<and> length (data a) = B * (P * W)
     \<and> data a ! (b * (P * W) + (p * W + w)) =
         avg (map (\<lambda>k. avg (map (\<lambda>h. data attn ! ((((b * P + p) * H + h) * W + w) * prod_list rest + k))
                                [0..<H]))
                  [0..<prod_list rest])"
proof -
  define K where "K = prod_list rest"
  have pos: "0 < B * (P * W)" using b p w by simp
  have eq: "B * P * (W * K) = B * (P * W) * K" by (simp add: algebra_simps)
  have dvd: "(B * P * (W * prod_list rest)) mod (B * (P * W)) = 0"
    unfolding K_def [symmetric] eq by simp
  have R: "B * P * (W * prod_list rest) div (B * (P * W)) = K"
    unfolding K_def [symmetric] eq using pos by simp
  note red = reduce_attention_eq [OF attn rw pos dvd, of avg, unfolded R, folded K_def]
  define c where "c = b * (P * W) + (p * W + w)"
  have pw: "p * W + w < P * W" using p w by (rule cell_bound)
  have c: "c < B * (P * W) - 0"
    unfolding c_def using cell_bound [OF b pw] by simp
  have split: "c * K + k = (b * P + p) * (W * K) + (w * K + k)" for k
    by (simp add: c_def algebra_simps)
  have inner: "(c * K + k) div (W * K) = b * P + p" "(c * K + k) mod (W * K) = w * K + k"
    if "k < K" for k
  proof -
    have "w * K + k < W * K" using w that by (rule cell_bound)
    then show "(c * K + k) div (W * K) = b * P + p" "(c * K + k) mod (W * K) = w * K + k"
      unfolding split by (rule grid_index)+
  qed
  have flat: "((b * P + p) * H + h) * (W * K) + (w * K + k) = (((b * P + p) * H + h) * W + w) * K + k" for h k
    by (simp add: algebra_simps)
  let ?f = "\<lambda>c. avg (map (\<lambda>r. avg (map (\<lambda>h. data attn !
                          ((((c * K + r) div (W * K)) * H + h) * (W * K) + (c * K + r) mod (W * K)))
                        [0..<H])) [0..<K])"
  have "map ?f [0..<B * (P * W)] ! c = ?f (0 + c)"
    by (rule nth_map_upt [OF c])
  also have "\<dots> = avg (map (\<lambda>k. avg (map (\<lambda>h. data attn ! ((((b * P + p) * H + h) * W + w) * K + k))
                                [0..<H])) [0..<K])"
    by (intro arg_cong [of _ _ avg] map_cong refl) (simp add: inner flat)
  finally show ?thesis
    unfolding red c_def K_def by simp
qed

text \<open>
  Claim C4. For attention weights of shape \<open>N, H, W, \<dots>\<close> and routing weights with
  \<open>P\<close> positions, the reduction yields an array of shape \<open>B, P * W\<close> whose entry at
  a cell is the mean, over the inferred last axis of the reshaped array, of the means over
  the head axis taken first. The attention map of sample \<open>i\<close> is the row \<open>i\<close> read as
  a square grid whose side is the integer square root of its length, with every entry
  repeated 3 times along both axes; a length that is not a square raises \<open>ValueError\<close>.
  The side is the floor of the real square root.
\<close>

theorem attention_reduction_and_upsampling:
  "(shape attn = N # H # W # rest \<longrightarrow> shape r_weight = r0 # P # rrest \<longrightarrow>
    0 < B * (P * W) \<longrightarrow> (N * (W * prod_list rest)) mod (B * (P * W)) = 0 \<longrightarrow>
      reduce_attention avg attn r_weight B =
        Inr \<lparr>shape = [B, P * W],
             data = map (\<lambda>c. avg (map (\<lambda>r.
                   avg (map (\<lambda>h. data attn !
                          ((((c * (N * (W * prod_list rest) div (B * (P * W))) + r) div (W * prod_list rest)) * H + h)
                             * (W * prod_list rest)
                           + (c * (N * (W * prod_list rest) div (B * (P * W))) + r) mod (W * prod_list rest)))
                        [0..<H]))
                   [0..<N * (W * prod_list rest) div (B * (P * W))]))
                 [0..<B * (P * W)]\<rparr>)
   \<and> (shape a = [B', n] \<longrightarrow> wf_array a \<longrightarrow> i < B' \<longrightarrow>
        attention_map a i =
          (if isqrt n * isqrt n = n
           then Inr \<lparr>shape = [3 * isqrt n, 3 * isqrt n],
                     data = map (\<lambda>q. data a ! (i * n + ((q div (3 * isqrt n)) div 3 * isqrt n
                                                         + q mod (3 * isqrt n) div 3)))
                                [0..<3 * isqrt n * (3 * isqrt n)]\<rparr>
           else Inl ValueError))
   \<and> isqrt n = nat \<lfloor>sqrt (real n)\<rfloor>"
proof -
  have "attention_map a i =
          (if isqrt n * isqrt n = n
           then Inr \<lparr>shape = [3 * isqrt n, 3 * isqrt n],
                     data = map (\<lambda>q. data a ! (i * n + ((q div (3 * isqrt n)) div 3 * isqrt n
                                                         + q mod (3 * isqrt n) div 3)))
                                [0..<3 * isqrt n * (3 * isqrt n)]\<rparr>
           else Inl ValueError)"
    if sh: "shape a = [B', n]" and wf: "wf_array a" and i: "i < B'"
  proof (cases "isqrt n * isqrt n = n")
    case True
    have sh': "shape a = [B', isqrt n * isqrt n]" using sh True by simp
    show ?thesis
      using attention_map_eq [OF sh' wf i] True by simp
  next
    case False
    then show ?thesis
      using attention_map_not_square [OF sh wf i] by simp
  qed
  then show ?thesis
    using reduce_attention_eq [of attn N H W rest r_weight r0 P rrest B avg] isqrt_floor_sqrt [of n]
    by blast
qed

lemma demo_upt: "[0..<36] = [0,1,2,3,4,5,6,7,8,9,10,11,12,13,14,15,16,17,18,19,20,21,22,23,24,25,26,27,28,
    29,30,31,32,33,34,35]" "[0..<2] = [0, 1]"
  by (simp_all add: upt_rec)

theorem attention_reduction_and_upsampling_witness:
  "reduce_attention demo_mean demo_attn demo_r_weight 2 =
     Inr \<lparr>shape = [2, 1], data = [Fin (5 / 2), Fin (13 / 2)]\<rparr>
   \<and> wf_array demo_reduced
   \<and> attention_map demo_reduced 0 =
       Inr \<lparr>shape = [6, 6],
            data = map Fin [1, 1, 1, 2, 2, 2, 1, 1, 1, 2, 2, 2, 1, 1, 1, 2, 2, 2,
                            3, 3, 3, 4, 4, 4, 3, 3, 3, 4, 4, 4, 3, 3, 3, 4, 4, 4]\<rparr>
   \<and> isqrt 4 = nat \<lfloor>sqrt (real 4)\<rfloor>"
proof -
  note inst = attention_reduction_and_upsampling [where attn = demo_attn and N = 2 and H = 2 and W = 1
      and rest = "[2]" and r_weight = demo_r_weight and ?r0.0 = 2 and P = 1 and rrest = "[1]" and B = 2
      and avg = demo_mean and a = demo_reduced and B' = 1 and n = 4 and i = 0]
  have h: "shape demo_attn = [2, 2, 1, 2]" "shape demo_r_weight = [2, 1, 1]"
    "(0::nat) < 2 * (1 * 1)" "((2::nat) * (1 * prod_list [2])) mod (2 * (1 * 1)) = 0"
    "shape demo_reduced = [1, 4]" "wf_array demo_reduced" "(0::nat) < 1"
    by (simp_all add: demo_attn_def demo_r_weight_def demo_reduced_def wf_array_def)
  have s: "isqrt 4 = 2" using isqrt_square [of 2] by simp
  from inst h have
    r: "reduce_attention demo_mean demo_attn demo_r_weight 2 =
        Inr \<lparr>shape = [2, 1 * 1],
             data = map (\<lambda>c. demo_mean (map (\<lambda>r.
                   demo_mean (map (\<lambda>h. data demo_attn !
                          ((((c * (2 * (1 * prod_list [2]) div (2 * (1 * 1))) + r) div (1 * prod_list [2])) * 2 + h)
                             * (1 * prod_list [2])
                           + (c * (2 * (1 * prod_list [2]) div (2 * (1 * 1))) + r) mod (1 * prod_list [2])))
                        [0..<2]))
                   [0..<2 * (1 * prod_list [2]) div (2 * (1 * 1))]))
                 [0..<2 * (1 * 1)]\<rparr>"
    and m: "attention_map demo_reduced 0 =
          (if isqrt 4 * isqrt 4 = 4
           then Inr \<lparr>shape = [3 * isqrt 4, 3 * isqrt 4],
                     data = map (\<lambda>q. data demo_reduced ! (0 * 4 + ((q div (3 * isqrt 4)) div 3 * isqrt 4
                                                         + q mod (3 * isqrt 4) div 3)))
                                [0..<3 * isqrt 4 * (3 * isqrt 4)]\<rparr>
           else Inl ValueError)"
    and q: "isqrt 4 = nat \<lfloor>sqrt (real 4)\<rfloor>"
    by blast+
  have r': "reduce_attention demo_mean demo_attn demo_r_weight 2 =
     Inr \<lparr>shape = [2, 1], data = [Fin (5 / 2), Fin (13 / 2)]\<rparr>"
    unfolding r by (simp add: demo_upt demo_attn_def demo_mean_def)
  have m': "attention_map demo_reduced 0 =
       Inr \<lparr>shape = [6, 6],
            data = map Fin [1, 1, 1, 2, 2, 2, 1, 1, 1, 2, 2, 2, 1, 1, 1, 2, 2, 2,
                            3, 3, 3, 4, 4, 4, 3, 3, 3, 4, 4, 4, 3, 3, 3, 4, 4, 4]\<rparr>"
    unfolding m s by (simp add: demo_upt demo_reduced_def)
  show ?thesis
    using r' h(6) m' q by blast
qed

lemma draw_cells_Inr:
  "draw_cells d target a base idxs cells s = (Inr cells', s') \<Longrightarrow>
     cells' = cells @ map (drawn_cell d a base) (filter (matches d target base) idxs)
     \<and> s' = s\<lparr>eval_trace := eval_trace s @ map (\<lambda>i. GetItem (base + i)) idxs\<rparr>
     \<and> (\<forall>i \<in> set idxs. base + i < length d \<and> i < length target)"
proof (induction idxs arbitrary: cells s)
  case Nil
  then show ?case by simp
next
  case (Cons i idxs)
  let ?s = "log_call (GetItem (base + i)) s"
  from Cons.prems have in_d: "base + i < length d" and in_t: "i < length target"
    by (auto simp: Let_def py_nth_def split: if_splits)
  show ?case
  proof (cases "matches d target base i")
    case True
    from Cons.prems in_d in_t True obtain m where m: "attention_map a i = Inr m"
      and rest: "draw_cells d target a base idxs (cells @ [(i div 10, i mod 10, fst (d ! (base + i)), m)]) ?s
          = (Inr cells', s')"
      by (auto simp: Let_def py_nth_def matches_def split: sum.splits prod.splits)
    from Cons.IH [OF rest] m True in_d in_t show ?thesis
      by (simp add: drawn_cell_def log_call_def)
  next
    case False
    from Cons.prems in_d in_t False have rest: "draw_cells d target a base idxs cells ?s = (Inr cells', s')"
      by (auto simp: Let_def py_nth_def matches_def split: sum.splits prod.splits)
    from Cons.IH [OF rest] False in_d in_t show ?thesis
      by (simp add: log_call_def)
  qed
qed

lemma draw_cells_total:
  "\<forall>i \<in> set idxs. base + i < length d \<and> i < length target
      \<and> (matches d target base i \<longrightarrow> (\<exists>m. attention_map a i = Inr m)) \<Longrightarrow>
   \<exists>cells'. fst (draw_cells d target a base idxs cells s) = Inr cells'"
proof (induction idxs arbitrary: cells s)
  case Nil
  then show ?case by simp
next
  case (Cons i idxs)
  then have in_d: "base + i < length d" and in_t: "i < length target"
    and am: "matches d target base i \<longrightarrow> (\<exists>m. attention_map a i = Inr m)"
    and rest: "\<forall>i \<in> set idxs. base + i < length d \<and> i < length target
      \<and> (matches d target base i \<longrightarrow> (\<exists>m. attention_map a i = Inr m))"
    by simp_all
  show ?case
  proof (cases "matches d target base i")
    case True
    with am obtain m where m: "attention_map a i = Inr m" by blast
    show ?thesis
      using Cons.IH [OF rest] in_d in_t True m
      by (auto simp: Let_def py_nth_def matches_def split: prod.splits)
  next
    case False
    show ?thesis
      using Cons.IH [OF rest] in_d in_t False
      by (auto simp: Let_def py_nth_def matches_def split: prod.splits)
  qed
qed

lemma savefig_present:
  "''out/visual'' \<in> dirs s \<Longrightarrow> savefig path fig s = (None, log_call (SaveFig path fig) s)"
  by (simp add: savefig_def)

lemma visualize_None:
  assumes "visualize C d target s = (None, s')"
  shows "\<exists>B a. read_cache C (cache s) = Inr (B, a)
     \<and> (\<forall>i < 100. B * batch_num s + i < length d \<and> i < length target)
     \<and> eval_trace s' = eval_trace s @ figure_events (''out/visual'' \<in> dirs s) (B * batch_num s) (batch_num s)
          (map (drawn_cell d a (B * batch_num s)) (filter (matches d target (B * batch_num s)) [0..<100]))
     \<and> batch_num s' = batch_num s + 1
     \<and> cache s' = cache s \<and> eval_meters s' = eval_meters s
     \<and> dirs s' = (if ''out/visual'' \<in> dirs s then dirs s else dirs s \<union> {''out'', ''out/visual''})"
proof -
  from assms obtain B a where rc: "read_cache C (cache s) = Inr (B, a)"
    by (auto simp: visualize_def split: sum.splits)
  obtain r s1 where dc: "draw_cells d target a (B * batch_num s) [0..<100] [] s = (r, s1)"
    by (cases "draw_cells d target a (B * batch_num s) [0..<100] [] s")
  with assms rc obtain cells where r: "r = Inr cells"
    by (cases r) (auto simp: visualize_def)
  note dci = draw_cells_Inr [OF dc [unfolded r]]
  have s1: "s1 = s\<lparr>eval_trace := eval_trace s @ map (\<lambda>i. GetItem (B * batch_num s + i)) [0..<100]\<rparr>"
    and cells: "cells = map (drawn_cell d a (B * batch_num s)) (filter (matches d target (B * batch_num s)) [0..<100])"
    and rng: "\<forall>i \<in> set [0..<100]. B * batch_num s + i < length d \<and> i < length target"
    using dci by simp_all
  have res: "s' =
      (if ''out/visual'' \<in> dirs s
       then (log_call (FigureSaved (figure_path (batch_num s)))
              (log_call (SaveFig (figure_path (batch_num s)) (AttentionGrid cells)) s1))
              \<lparr>batch_num := batch_num s + 1\<rparr>
       else (log_call (FigureSaved (figure_path (batch_num s)))
              (log_call (SaveFig (figure_path (batch_num s)) (AttentionGrid cells))
                (log_call (MakeDirs ''out/visual'') (s1\<lparr>dirs := dirs s \<union> {''out'', ''out/visual''}\<rparr>))))
              \<lparr>batch_num := batch_num s + 1\<rparr>)"
    using assms rc dc r by (auto simp: visualize_def Let_def savefig_def s1 log_call_def)
  show ?thesis
    using rc rng cells by (auto simp: res s1 figure_events_def)
qed

lemma visualize_frame:
  "cache (snd (visualize C d target s)) = cache s \<and> eval_meters (snd (visualize C d target s)) = eval_meters s"
proof (cases "read_cache C (cache s)")
  case (Inl e)
  then show ?thesis by (simp add: visualize_def)
next
  case (Inr p)
  obtain B a where p: "p = (B, a)" by (cases p)
  obtain r s1 where dc: "draw_cells d target a (B * batch_num s) [0..<100] [] s = (r, s1)"
    by (cases "draw_cells d target a (B * batch_num s) [0..<100] [] s")
  have f: "cache s1 = cache s" "eval_meters s1 = eval_meters s"
    using draw_cells_frame [of d target a "B * batch_num s" "[0..<100]" "[]" s] dc by simp_all
  show ?thesis
    using Inr p dc f by (cases r) (auto simp: visualize_def Let_def savefig_def)
qed

lemma visualize_quiet:
  fixes s :: "'i eval_state"
  shows "\<exists>post. eval_trace (snd (visualize C d target s)) = eval_trace s @ post \<and> list_all quiet post"
proof (cases "read_cache C (cache s)")
  case (Inl e)
  then show ?thesis by (simp add: visualize_def)
next
  case (Inr p)
  obtain B a where p: "p = (B, a)" by (cases p)
  obtain r s1 where dc: "draw_cells d target a (B * batch_num s) [0..<100] [] s = (r, s1)"
    by (cases "draw_cells d target a (B * batch_num s) [0..<100] [] s")
  from draw_cells_trace [of "[0..<100]" d target a "B * batch_num s" "[]" s] dc
  obtain k where t: "eval_trace s1 = eval_trace s @ map (\<lambda>i. GetItem (B * batch_num s + i)) (take k [0..<100])"
    by auto
  have q: "list_all quiet (map (\<lambda>i. GetItem (B * batch_num s + i)) (take k [0..<100]) @ more)"
    if "list_all quiet more" for more :: "'i eval_event list"
    using that by (auto simp: list_all_iff)
  show ?thesis
  proof (cases r)
    case (Inl e)
    with Inr p dc t q [of "[]"] show ?thesis
      by (simp add: visualize_def)
  next
    case (Inr cells)
    let ?saved = "[SaveFig (figure_path (batch_num s1)) (AttentionGrid cells),
                   FigureSaved (figure_path (batch_num s1))]"
    have "eval_trace (snd (visualize C d target s)) =
        eval_trace s @ map (\<lambda>i. GetItem (B * batch_num s + i)) (take k [0..<100])
          @ (if ''out/visual'' \<in> dirs s1 then ?saved else MakeDirs ''out/visual'' # ?saved)"
      using \<open>read_cache C (cache s) = Inr p\<close> p dc Inr t
      by (simp add: visualize_def Let_def savefig_def)
    moreover have "list_all quiet (map (\<lambda>i. GetItem (B * batch_num s + i)) (take k [0..<100])
          @ (if ''out/visual'' \<in> dirs s1 then ?saved else MakeDirs ''out/visual'' # ?saved))"
      by (rule q) simp
    ultimately show ?thesis by blast
  qed
qed

lemma eval_batch_skip:
  "\<not> triggered ori (images, target) \<Longrightarrow>
   eval_batch C ori (images, target) s =
     (None, (forward_pass C images s)\<lparr>eval_meters := recorded C (images, target) (eval_meters s)\<rparr>)"
  by (auto simp: eval_batch_def triggered_def recorded_def logger_update_def Let_def split: option.splits)

lemma eval_batch_viz:
  "ori = Some d \<Longrightarrow> 100 \<le> length target \<Longrightarrow>
   eval_batch C ori (images, target) s =
     (case visualize C d target (forward_pass C images s) of
        (Some e, s') \<Rightarrow> (Some e, s')
      | (None, s') \<Rightarrow> (None, s'\<lparr>eval_meters := recorded C (images, target) (eval_meters s)\<rparr>))"
  using visualize_frame [of C d target "forward_pass C images s"]
  by (auto simp: eval_batch_def recorded_def logger_update_def Let_def split: option.splits prod.splits)

lemma triggered_cases:
  obtains "\<not> triggered ori (images, target)"
  | d where "ori = Some d" "100 \<le> length target"
  by (cases ori) (auto simp: triggered_def)

lemma eval_batch_cache:
  "cache (snd (eval_batch C ori (images, target) s)) = capture C images Map.empty"
proof (cases rule: triggered_cases [of ori images target])
  case 1
  then show ?thesis by (simp add: eval_batch_skip)
next
  case (2 d)
  then show ?thesis
    using visualize_frame [of C d target "forward_pass C images s"]
    by (auto simp: eval_batch_viz split: prod.splits option.splits)
qed

lemma eval_batch_trace:
  fixes s :: "'i eval_state"
  shows "\<exists>post. eval_trace (snd (eval_batch C ori (images, target) s)) =
           eval_trace s @ [CacheClear, RunModel] @ post \<and> list_all quiet post"
proof (cases rule: triggered_cases [of ori images target])
  case 1
  then show ?thesis by (simp add: eval_batch_skip)
next
  case (2 d)
  from visualize_quiet [of C d target "forward_pass C images s"] obtain post where
    "eval_trace (snd (visualize C d target (forward_pass C images s))) =
       eval_trace (forward_pass C images s) @ post" "list_all quiet post" by blast
  with 2 show ?thesis
    by (auto simp: eval_batch_viz split: prod.splits option.splits)
qed

lemma eval_batch_meters:
  "fst (eval_batch C ori (images, target) s) = None \<Longrightarrow>
   eval_meters (snd (eval_batch C ori (images, target) s)) = recorded C (images, target) (eval_meters s)"
proof (cases rule: triggered_cases [of ori images target])
  case 1
  then show ?thesis by (simp add: eval_batch_skip)
next
  case (2 d)
  assume "fst (eval_batch C ori (images, target) s) = None"
  with 2 show ?thesis
    by (auto simp: eval_batch_viz split: prod.splits option.splits)
qed

lemma eval_batch_num:
  "fst (eval_batch C ori (images, target) s) = None \<Longrightarrow>
   batch_num (snd (eval_batch C ori (images, target) s)) =
     (if triggered ori (images, target) then batch_num s + 1 else batch_num s)"
proof (cases rule: triggered_cases [of ori images target])
  case 1
  then show ?thesis by (simp add: eval_batch_skip)
next
  case (2 d)
  assume ok: "fst (eval_batch C ori (images, target) s) = None"
  obtain r s1 where v: "visualize C d target (forward_pass C images s) = (r, s1)"
    by (cases "visualize C d target (forward_pass C images s)")
  with ok 2 have r: "r = None" by (cases r) (simp_all add: eval_batch_viz)
  from visualize_None [OF v [unfolded r]] have "batch_num s1 = batch_num s + 1" by auto
  with 2 v r show ?thesis
    by (simp add: eval_batch_viz triggered_def)
qed

lemma clear_discipline_quiet:
  "list_all quiet evs \<Longrightarrow> clear_discipline (evs @ rest) = clear_discipline rest"
proof (induction evs)
  case Nil
  then show ?case by simp
next
  case (Cons ev evs)
  then show ?case by (cases ev) simp_all
qed

lemma eval_loop_discipline:
  fixes s :: "'i eval_state"
  shows "\<exists>evs. eval_trace (snd (eval_loop C ori bs s)) = eval_trace s @ evs \<and> clear_discipline evs"
proof (induction bs arbitrary: s)
  case Nil
  show ?case by simp
next
  case (Cons b bs)
  obtain images target where b: "b = (images, target)" by (cases b)
  obtain r s1 where st: "eval_batch C ori (images, target) s = (r, s1)"
    by (cases "eval_batch C ori (images, target) s")
  from eval_batch_trace [of C ori images target s] st obtain post where
    t: "eval_trace s1 = eval_trace s @ [CacheClear, RunModel] @ post" and q: "list_all quiet post"
    by auto
  show ?case
  proof (cases r)
    case None
    from Cons.IH [of s1] obtain evs where
      t': "eval_trace (snd (eval_loop C ori bs s1)) = eval_trace s1 @ evs" and d: "clear_discipline evs"
      by blast
    have "eval_trace (snd (eval_loop C ori (b # bs) s)) = eval_trace s @ ([CacheClear, RunModel] @ post @ evs)"
      using b st None t t' by simp
    moreover have "clear_discipline ([CacheClear, RunModel] @ post @ evs)"
      using d by (simp add: clear_discipline_quiet [OF q])
    ultimately show ?thesis by blast
  next
    case (Some e)
    have "eval_trace (snd (eval_loop C ori (b # bs) s)) = eval_trace s @ ([CacheClear, RunModel] @ post @ [])"
      using b st Some t by simp
    moreover have "clear_discipline ([CacheClear, RunModel] @ post @ [])"
      using clear_discipline_quiet [OF q, of "[]"] by simp
    ultimately show ?thesis by blast
  qed
qed

text \<open>
  Claim C2. Whatever the cache holds before a batch, right after the forward pass of the
  batch it holds what that pass captures into an empty cache, and it still does at the end
  of the batch. The batch starts with the clearing of the cache followed at once by the
  run of the model, with or without a reference to the original dataset, and nothing
  later in the batch clears the cache or runs the model. Over a whole pass, every run of
  the model is preceded at once by a clearing of the cache.
\<close>

theorem cache_cleared_before_forward:
  fixes s :: "'i eval_state"
  shows "cache (forward_pass C images s) = capture C images Map.empty
   \<and> (\<exists>post. eval_trace (snd (eval_batch C ori (images, target) s)) =
          eval_trace s @ [CacheClear, RunModel] @ post \<and> list_all quiet post)
   \<and> cache (snd (eval_batch C ori (images, target) s)) = capture C images Map.empty
   \<and> (\<exists>evs. eval_trace (snd (eval_loop C ori bs s)) = eval_trace s @ evs \<and> clear_discipline evs)"
  using eval_batch_trace [of C ori images target s] eval_loop_discipline [of C ori bs s]
  by (simp add: eval_batch_cache)

lemma eval_loop_append:
  "eval_loop C ori (pre @ rest) s =
     (case eval_loop C ori pre s of
        (Some e, s') \<Rightarrow> (Some e, s')
      | (None, s') \<Rightarrow> eval_loop C ori rest s')"
  by (induction pre arbitrary: s) (auto split: prod.splits option.splits)

lemma eval_loop_meters:
  "fst (eval_loop C ori bs s) = None \<Longrightarrow>
   eval_meters (snd (eval_loop C ori bs s)) = fold (recorded C) bs (eval_meters s)"
proof (induction bs arbitrary: s)
  case Nil
  then show ?case by simp
next
  case (Cons b bs)
  obtain images target where b: "b = (images, target)" by (cases b)
  obtain r s1 where st: "eval_batch C ori (images, target) s = (r, s1)"
    by (cases "eval_batch C ori (images, target) s")
  with Cons.prems b have r: "r = None" by (cases r) simp_all
  have m: "eval_meters s1 = recorded C (images, target) (eval_meters s)"
    using eval_batch_meters [of C ori images target s] st r by simp
  have "fst (eval_loop C ori bs s1) = None"
    using Cons.prems b st r by simp
  from Cons.IH [OF this] show ?case
    using b st r m by simp
qed

lemma eval_loop_batch_num:
  "fst (eval_loop C ori bs s) = None \<Longrightarrow>
   batch_num (snd (eval_loop C ori bs s)) = batch_num s + length (filter (triggered ori) bs)"
proof (induction bs arbitrary: s)
  case Nil
  then show ?case by simp
next
  case (Cons b bs)
  obtain images target where b: "b = (images, target)" by (cases b)
  obtain r s1 where st: "eval_batch C ori (images, target) s = (r, s1)"
    by (cases "eval_batch C ori (images, target) s")
  with Cons.prems b have r: "r = None" by (cases r) simp_all
  have n: "batch_num s1 = (if triggered ori (images, target) then batch_num s + 1 else batch_num s)"
    using eval_batch_num [of C ori images target s] st r by simp
  have "fst (eval_loop C ori bs s1) = None"
    using Cons.prems b st r by simp
  from Cons.IH [OF this] show ?case
    using b st r n by simp
qed

lemma meter_update_apply:
  "meter_update k v n ml k' = (if k' = k then Some (the_meter ml k @ [(v, n)]) else ml k')"
  by (simp add: meter_update_def the_meter_def)

lemma the_meter_update:
  "the_meter (meter_update k v n ml) k' = (if k' = k then the_meter ml k @ [(v, n)] else the_meter ml k')"
  by (simp add: meter_update_def the_meter_def)

lemma recorded_apply:
  "recorded C b ml ''loss'' = Some (the_meter ml ''loss'' @ [loss_sample C b])"
  "recorded C b ml ''acc1'' = Some (the_meter ml ''acc1'' @ [acc_sample C 1 b])"
  "recorded C b ml ''acc5'' = Some (the_meter ml ''acc5'' @ [acc_sample C 5 b])"
  "k \<notin> {''loss'', ''acc1'', ''acc5''} \<Longrightarrow> recorded C b ml k = ml k"
proof -
  obtain images target where b: "b = (images, target)" by (cases b)
  show "recorded C b ml ''loss'' = Some (the_meter ml ''loss'' @ [loss_sample C b])"
    "recorded C b ml ''acc1'' = Some (the_meter ml ''acc1'' @ [acc_sample C 1 b])"
    "recorded C b ml ''acc5'' = Some (the_meter ml ''acc5'' @ [acc_sample C 5 b])"
    by (simp_all add: b recorded_def meter_update_apply the_meter_update loss_sample_def acc_sample_def Let_def)
  show "recorded C b ml k = ml k" if "k \<notin> {''loss'', ''acc1'', ''acc5''}"
    using that by (simp add: b recorded_def meter_update_apply Let_def)
qed

lemma fold_recorded:
  "bs \<noteq> [] \<Longrightarrow>
     fold (recorded C) bs ml ''loss'' = Some (the_meter ml ''loss'' @ map (loss_sample C) bs)
   \<and> fold (recorded C) bs ml ''acc1'' = Some (the_meter ml ''acc1'' @ map (acc_sample C 1) bs)
   \<and> fold (recorded C) bs ml ''acc5'' = Some (the_meter ml ''acc5'' @ map (acc_sample C 5) bs)"
proof (induction bs arbitrary: ml)
  case Nil
  then show ?case by simp
next
  case (Cons b bs)
  show ?case
  proof (cases "bs = []")
    case True
    then show ?thesis by (simp add: recorded_apply)
  next
    case False
    from Cons.IH [OF False, of "recorded C b ml"] show ?thesis
      by (simp add: recorded_apply the_meter_def)
  qed
qed

lemma fold_recorded_other:
  "k \<notin> {''loss'', ''acc1'', ''acc5''} \<Longrightarrow> fold (recorded C) bs ml k = ml k"
  by (induction bs arbitrary: ml) (simp_all add: recorded_apply)

lemma kernel_figures_frame:
  "cache (snd (kernel_figures params s)) = cache s
   \<and> batch_num (snd (kernel_figures params s)) = batch_num s
   \<and> eval_meters (snd (kernel_figures params s)) = eval_meters s
   \<and> dirs (snd (kernel_figures params s)) = dirs s"
  by (induction params s rule: kernel_figures.induct) (auto simp: savefig_def)

lemma kernel_figures_trace:
  fixes s :: "'i eval_state"
  shows "\<exists>sizes. eval_trace (snd (kernel_figures params s)) =
           eval_trace s @ map (\<lambda>sz. SaveFig kernel_path (KernelGrid sz)) sizes"
proof (induction params s rule: kernel_figures.induct)
  case (1 s)
  have "eval_trace s = eval_trace s @ map (\<lambda>sz. SaveFig kernel_path (KernelGrid sz)) []" by simp
  then show ?case by (metis kernel_figures.simps(1) snd_conv)
next
  case (2 name sz params s)
  show ?case
  proof (cases "''downsample_layers.0.0.weight'' = name \<and> 4 \<le> length sz \<and> ''out/visual'' \<in> dirs s")
    case True
    let ?s = "log_call (SaveFig ''out/visual/convolutional kernels in downsample 0.png'' (KernelGrid sz)) s"
    have sf: "savefig ''out/visual/convolutional kernels in downsample 0.png'' (KernelGrid sz) s = (None, ?s)"
      using True by (simp add: savefig_def)
    from 2(1) [OF _ _ sf [symmetric]] True obtain sizes where
      "eval_trace (snd (kernel_figures params ?s)) =
         eval_trace ?s @ map (\<lambda>sz. SaveFig kernel_path (KernelGrid sz)) sizes"
      by auto
    then have "eval_trace (snd (kernel_figures ((name, sz) # params) s)) =
        eval_trace s @ map (\<lambda>sz. SaveFig kernel_path (KernelGrid sz)) (sz # sizes)"
      using True sf by (simp add: kernel_path_def)
    then show ?thesis by blast
  next
    case False
    show ?thesis
    proof (cases "''downsample_layers.0.0.weight'' = name")
      case True
      with False have "eval_trace (snd (kernel_figures ((name, sz) # params) s)) =
          eval_trace s @ map (\<lambda>sz. SaveFig kernel_path (KernelGrid sz)) []"
        by (auto simp: savefig_def)
      then show ?thesis by blast
    next
      case False
      with 2(2) show ?thesis by simp
    qed
  qed
qed

lemma kernel_figures_written:
  assumes "''out/visual'' \<in> dirs s" "4 \<le> length sz"
    and "\<forall>p \<in> set pre \<union> set post. fst p \<noteq> ''downsample_layers.0.0.weight''"
  shows "kernel_figures (pre @ (''downsample_layers.0.0.weight'', sz) # post) s =
     (None, log_call (SaveFig kernel_path (KernelGrid sz)) s)"
proof -
  have skip: "kernel_figures ps s' = (None, s')"
    if "\<forall>p \<in> set ps. fst p \<noteq> ''downsample_layers.0.0.weight''" for ps and s' :: "'a eval_state"
    using that by (induction ps) auto
  have app: "kernel_figures (ps @ qs) s = kernel_figures qs s"
    if "\<forall>p \<in> set ps. fst p \<noteq> ''downsample_layers.0.0.weight''" for ps qs
    using that by (induction ps) auto
  show ?thesis
    using assms by (simp add: app skip savefig_def kernel_path_def)
qed

lemma kernel_figures_no_directory:
  assumes "''out/visual'' \<notin> dirs s" "4 \<le> length sz"
    and "\<forall>p \<in> set pre. fst p \<noteq> ''downsample_layers.0.0.weight''"
  shows "kernel_figures (pre @ (''downsample_layers.0.0.weight'', sz) # post) s = (Some FileNotFoundError, s)"
proof -
  have app: "kernel_figures (ps @ qs) s = kernel_figures qs s"
    if "\<forall>p \<in> set ps. fst p \<noteq> ''downsample_layers.0.0.weight''" for ps qs
    using that by (induction ps) auto
  show ?thesis
    using assms by (simp add: app savefig_def)
qed

lemmas demo_eval_defs = demo_eval_def demo_eval_state_def demo_capture_def demo_eval_loader_def
  eval_batch_def forward_pass_def cache_clear_def log_call_def logger_update_def meter_update_def
  Let_def

theorem cache_cleared_before_forward_witness:
  "cache demo_eval_state ''seen'' = Some [\<lparr>shape = [1], data = [Fin 99]\<rparr>]
   \<and> cache (forward_pass demo_eval [7] demo_eval_state) ''seen'' = Some [\<lparr>shape = [1], data = [Fin 7]\<rparr>]
   \<and> cache (snd (eval_batch demo_eval None ([7], [0]) demo_eval_state)) ''seen''
       = Some [\<lparr>shape = [1], data = [Fin 7]\<rparr>]
   \<and> (\<exists>post. eval_trace (snd (eval_batch demo_eval None ([7], [0]) demo_eval_state)) =
          [CacheClear, RunModel] @ post \<and> list_all quiet post)
   \<and> clear_discipline (eval_trace (snd (eval_loop demo_eval None demo_eval_loader demo_eval_state)))"
proof -
  note inst = cache_cleared_before_forward [of demo_eval "[7]" demo_eval_state None "[0]" demo_eval_loader]
  have c: "capture demo_eval [7] Map.empty ''seen'' = Some [\<lparr>shape = [1], data = [Fin 7]\<rparr>]"
    by (simp add: demo_eval_def demo_capture_def)
  have t: "eval_trace demo_eval_state = []" and o: "cache demo_eval_state ''seen'' = Some [\<lparr>shape = [1], data = [Fin 99]\<rparr>]"
    by (simp_all add: demo_eval_state_def)
  show ?thesis
    using inst c o unfolding t by auto
qed

lemma evaluate_unfold:
  "evaluate C dl ori s =
     (case kernel_phase C ori (log_call SetFont s) of
        (Some e, s1) \<Rightarrow> (Inl e, s1)
      | (None, s1) \<Rightarrow>
          (case eval_loop C ori dl (loop_start s1) of
             (Some e, s3) \<Rightarrow> (Inl e, s3)
           | (None, s3) \<Rightarrow>
               (Inr (global_avgs (eval_global_avg C)
                      (synchronize_between_processes (eval_reduce_meter C) (eval_meters s3))),
                log_call TestSummary
                  (s3\<lparr>eval_meters := synchronize_between_processes (eval_reduce_meter C) (eval_meters s3)\<rparr>))))"
  by (simp add: evaluate_def kernel_phase_def loop_start_def Let_def split: prod.splits option.splits)

lemma evaluate_Inr:
  assumes "evaluate C dl ori s = (Inr result, s')"
  shows "result = global_avgs (eval_global_avg C)
            (synchronize_between_processes (eval_reduce_meter C) (fold (recorded C) dl Map.empty))
     \<and> last (eval_trace s') = TestSummary
     \<and> batch_num s' = length (filter (triggered ori) dl)"
proof -
  obtain k s1 where kp: "kernel_phase C ori (log_call SetFont s) = (k, s1)"
    by (cases "kernel_phase C ori (log_call SetFont s)")
  obtain r s3 where lp: "eval_loop C ori dl (loop_start s1) = (r, s3)"
    by (cases "eval_loop C ori dl (loop_start s1)")
  have k: "k = None"
    using assms kp by (cases k) (simp_all add: evaluate_unfold)
  have r: "r = None"
    using assms kp k lp by (cases r) (simp_all add: evaluate_unfold)
  have res: "result = global_avgs (eval_global_avg C)
        (synchronize_between_processes (eval_reduce_meter C) (eval_meters s3))"
    and s': "s' = log_call TestSummary
        (s3\<lparr>eval_meters := synchronize_between_processes (eval_reduce_meter C) (eval_meters s3)\<rparr>)"
    using assms kp k lp r by (simp_all add: evaluate_unfold)
  have m: "eval_meters s3 = fold (recorded C) dl Map.empty"
    using eval_loop_meters [of C ori dl "loop_start s1"] lp r by (simp add: loop_start_def)
  have n: "batch_num s3 = length (filter (triggered ori) dl)"
    using eval_loop_batch_num [of C ori dl "loop_start s1"] lp r by (simp add: loop_start_def)
  show ?thesis
    using res m n by (simp add: s')
qed

text \<open>
  Claim C7. A batch that completes records the loss with count 1 and the top-1 and top-5
  accuracies with the number of images of the batch as count. An evaluation that
  completes returns, for each of the three names, the global average of the reduced meter
  that holds one such sample per batch in order, returns nothing under any other name, and
  ends with the summary line.
\<close>

theorem metrics_recorded_and_returned:
  "(fst (eval_batch C ori (images, target) s) = None \<longrightarrow>
      eval_meters (snd (eval_batch C ori (images, target) s)) =
        meter_update ''acc5'' (accuracy C (run_model C images) target 5) (length images)
          (meter_update ''acc1'' (accuracy C (run_model C images) target 1) (length images)
            (meter_update ''loss'' (cross_entropy C (run_model C images) target) 1 (eval_meters s))))
   \<and> (evaluate C data_loader ori s0 = (Inr result, s') \<longrightarrow>
        result = global_avgs (eval_global_avg C)
            (synchronize_between_processes (eval_reduce_meter C) (fold (recorded C) data_loader Map.empty))
        \<and> (data_loader \<noteq> [] \<longrightarrow>
              result ''loss'' = Some (eval_global_avg C (eval_reduce_meter C (map (loss_sample C) data_loader)))
            \<and> result ''acc1'' = Some (eval_global_avg C (eval_reduce_meter C (map (acc_sample C 1) data_loader)))
            \<and> result ''acc5'' = Some (eval_global_avg C (eval_reduce_meter C (map (acc_sample C 5) data_loader))))
        \<and> (\<forall>k. k \<notin> {''loss'', ''acc1'', ''acc5''} \<longrightarrow> result k = None)
        \<and> last (eval_trace s') = TestSummary)"
proof -
  have a: "eval_meters (snd (eval_batch C ori (images, target) s)) =
        meter_update ''acc5'' (accuracy C (run_model C images) target 5) (length images)
          (meter_update ''acc1'' (accuracy C (run_model C images) target 1) (length images)
            (meter_update ''loss'' (cross_entropy C (run_model C images) target) 1 (eval_meters s)))"
    if "fst (eval_batch C ori (images, target) s) = None"
    using eval_batch_meters [OF that] by (simp add: recorded_def Let_def)
  have b: "result = global_avgs (eval_global_avg C)
            (synchronize_between_processes (eval_reduce_meter C) (fold (recorded C) data_loader Map.empty))
        \<and> (data_loader \<noteq> [] \<longrightarrow>
              result ''loss'' = Some (eval_global_avg C (eval_reduce_meter C (map (loss_sample C) data_loader)))
            \<and> result ''acc1'' = Some (eval_global_avg C (eval_reduce_meter C (map (acc_sample C 1) data_loader)))
            \<and> result ''acc5'' = Some (eval_global_avg C (eval_reduce_meter C (map (acc_sample C 5) data_loader))))
        \<and> (\<forall>k. k \<notin> {''loss'', ''acc1'', ''acc5''} \<longrightarrow> result k = None)
        \<and> last (eval_trace s') = TestSummary"
    if ev: "evaluate C data_loader ori s0 = (Inr result, s')"
  proof -
    note e = evaluate_Inr [OF ev]
    have res: "result k = map_option (\<lambda>m. eval_global_avg C (eval_reduce_meter C m))
        (fold (recorded C) data_loader Map.empty k)" for k
      using e by (simp add: global_avgs_def synchronize_between_processes_def option.map_comp comp_def)
    have empty: "the_meter Map.empty k = []" for k
      by (simp add: the_meter_def)
    have named: "result ''loss'' = Some (eval_global_avg C (eval_reduce_meter C (map (loss_sample C) data_loader)))
            \<and> result ''acc1'' = Some (eval_global_avg C (eval_reduce_meter C (map (acc_sample C 1) data_loader)))
            \<and> result ''acc5'' = Some (eval_global_avg C (eval_reduce_meter C (map (acc_sample C 5) data_loader)))"
      if "data_loader \<noteq> []"
      using fold_recorded [OF that, of C Map.empty] by (simp add: res empty)
    have other: "result k = None" if "k \<notin> {''loss'', ''acc1'', ''acc5''}" for k
      using fold_recorded_other [OF that, of C data_loader Map.empty] by (simp add: res)
    show ?thesis
      using e named other by blast
  qed
  show ?thesis
    using a b by blast
qed

lemma demo_evaluate_completes:
  "\<exists>result s'. evaluate demo_eval demo_eval_loader None demo_eval_state = (Inr result, s')"
  by (simp add: evaluate_unfold kernel_phase_def loop_start_def demo_eval_defs)

theorem metrics_recorded_and_returned_witness:
  "fst (eval_batch demo_eval None ([8, 9], [1, 0]) demo_eval_state) = None
   \<and> eval_meters (snd (eval_batch demo_eval None ([8, 9], [1, 0]) demo_eval_state)) ''loss'' = Some [(Fin 2, 1)]
   \<and> eval_meters (snd (eval_batch demo_eval None ([8, 9], [1, 0]) demo_eval_state)) ''acc1'' = Some [(Fin 1, 2)]
   \<and> eval_meters (snd (eval_batch demo_eval None ([8, 9], [1, 0]) demo_eval_state)) ''acc5'' = Some [(Fin 5, 2)]
   \<and> (\<exists>result s'. evaluate demo_eval demo_eval_loader None demo_eval_state = (Inr result, s')
         \<and> demo_eval_loader \<noteq> []
         \<and> result ''loss'' = Some (Fin 1) \<and> result ''acc1'' = Some (Fin 1) \<and> result ''acc5'' = Some (Fin 5)
         \<and> result ''lr'' = None \<and> last (eval_trace s') = TestSummary)"
proof -
  obtain result s' where ev: "evaluate demo_eval demo_eval_loader None demo_eval_state = (Inr result, s')"
    using demo_evaluate_completes by blast
  have ok: "fst (eval_batch demo_eval None ([8, 9], [1, 0]) demo_eval_state) = None"
    by (simp add: demo_eval_defs)
  note inst = metrics_recorded_and_returned [of demo_eval None "[8, 9]" "[1, 0]" demo_eval_state
      demo_eval_loader demo_eval_state result s']
  have two: "Suc (Suc 0) = 2" by simp
  have ne: "demo_eval_loader \<noteq> []" by (simp add: demo_eval_loader_def)
  have fields: "run_model demo_eval = length" "accuracy demo_eval = (\<lambda>y t k. Fin (real k))"
    "cross_entropy demo_eval = (\<lambda>y t. Fin (real y))" "eval_reduce_meter demo_eval = (\<lambda>m. m)"
    "eval_global_avg demo_eval = (\<lambda>m. case m of [] \<Rightarrow> NaN | p # _ \<Rightarrow> fst p)"
    "eval_meters demo_eval_state = Map.empty"
    by (simp_all add: demo_eval_def demo_eval_state_def)
  from inst [THEN conjunct1, THEN mp, OF ok] have "eval_meters (snd (eval_batch demo_eval None ([8, 9], [1, 0]) demo_eval_state)) =
        meter_update ''acc5'' (accuracy demo_eval (run_model demo_eval [8, 9]) [1, 0] 5) (length [8, 9 :: nat])
          (meter_update ''acc1'' (accuracy demo_eval (run_model demo_eval [8, 9]) [1, 0] 1) (length [8, 9 :: nat])
            (meter_update ''loss'' (cross_entropy demo_eval (run_model demo_eval [8, 9]) [1, 0]) 1
               (eval_meters demo_eval_state)))"
    by simp
  then have m: "eval_meters (snd (eval_batch demo_eval None ([8, 9], [1, 0]) demo_eval_state)) =
        meter_update ''acc5'' (Fin 5) (Suc (Suc 0))
          (meter_update ''acc1'' (Fin 1) (Suc (Suc 0)) (meter_update ''loss'' (Fin 2) 1 Map.empty))"
    by (simp add: fields)
  have samples: "map (loss_sample demo_eval) demo_eval_loader = [(Fin 1, 1), (Fin 2, 1)]"
    "map (acc_sample demo_eval 1) demo_eval_loader = [(Fin 1, 1), (Fin 1, 2)]"
    "map (acc_sample demo_eval 5) demo_eval_loader = [(Fin 5, 1), (Fin 5, 2)]"
    by (simp_all add: loss_sample_def acc_sample_def demo_eval_def demo_eval_loader_def)
  note e = inst [THEN conjunct2, THEN mp, OF ev]
  note named = e [THEN conjunct2, THEN conjunct1, THEN mp, OF ne]
  note other = e [THEN conjunct2, THEN conjunct2, THEN conjunct1, THEN spec, of "''lr''"]
  note summary = e [THEN conjunct2, THEN conjunct2, THEN conjunct2]
  have r1: "result ''loss'' = Some (Fin 1)" "result ''acc1'' = Some (Fin 1)" "result ''acc5'' = Some (Fin 5)"
    using named unfolding samples by (simp_all add: fields)
  have r2: "result ''lr'' = None"
    using other by simp
  have b: "eval_meters (snd (eval_batch demo_eval None ([8, 9], [1, 0]) demo_eval_state)) ''loss'' = Some [(Fin 2, 1)]"
    "eval_meters (snd (eval_batch demo_eval None ([8, 9], [1, 0]) demo_eval_state)) ''acc1'' = Some [(Fin 1, 2)]"
    "eval_meters (snd (eval_batch demo_eval None ([8, 9], [1, 0]) demo_eval_state)) ''acc5'' = Some [(Fin 5, 2)]"
    unfolding m using two by (simp_all add: meter_update_def)
  have "evaluate demo_eval demo_eval_loader None demo_eval_state = (Inr result, s')
         \<and> demo_eval_loader \<noteq> []
         \<and> result ''loss'' = Some (Fin 1) \<and> result ''acc1'' = Some (Fin 1) \<and> result ''acc5'' = Some (Fin 5)
         \<and> result ''lr'' = None \<and> last (eval_trace s') = TestSummary"
    using ev ne r1 r2 summary by simp
  then have "\<exists>result s'. evaluate demo_eval demo_eval_loader None demo_eval_state = (Inr result, s')
         \<and> demo_eval_loader \<noteq> []
         \<and> result ''loss'' = Some (Fin 1) \<and> result ''acc1'' = Some (Fin 1) \<and> result ''acc5'' = Some (Fin 5)
         \<and> result ''lr'' = None \<and> last (eval_trace s') = TestSummary"
    by (intro exI)
  with ok b show ?thesis by simp
qed

lemma populated_append [simp]: "populated (evs @ evs') = populated evs @ populated evs'"
  by (induction evs rule: populated.induct) simp_all

lemma populated_get_items [simp]: "populated (map (\<lambda>i. GetItem (f i)) xs) = []"
  by (induction xs) simp_all

lemma populated_kernels [simp]: "populated (map (\<lambda>sz. SaveFig p (KernelGrid sz)) xs) = []"
  by (induction xs) simp_all

lemma populated_figure_events [simp]:
  "populated (figure_events e base n cells) = [length cells]"
  by (simp add: figure_events_def)

lemma read_cache_batch_size:
  "read_cache C c = Inr (B, a) \<Longrightarrow>
   \<exists>x. cache_first c ''Block.local_images.images'' = Inr x \<and> shape_at x 0 = Inr B"
  by (auto simp: read_cache_def and_then_def split: sum.splits)

lemma read_cache_eq:
  assumes "cache_first c ''Block.local_images.images'' = Inr x"
    and "cache_first c ''Block.local_r_weight.r_weight'' = Inr r_weight"
    and "cache_first c ''Block.local_r_idx.r_idx'' = Inr r_idx"
    and "cache_first c ''Block.local_attn_weight.attn_weight'' = Inr attn"
    and "shape x = B # xrest"
  shows "read_cache C c = and_then (reduce_attention (np_avg C) attn r_weight B) (\<lambda>a. Inr (B, a))"
  using assms by (simp add: read_cache_def shape_at_def py_nth_def)

lemma visualize_completes:
  assumes cx: "cache_first (cache s) ''Block.local_images.images'' = Inr x"
    and cr: "cache_first (cache s) ''Block.local_r_weight.r_weight'' = Inr r_weight"
    and ci: "cache_first (cache s) ''Block.local_r_idx.r_idx'' = Inr r_idx"
    and ca: "cache_first (cache s) ''Block.local_attn_weight.attn_weight'' = Inr attn"
    and sx: "shape x = B # xrest"
    and sa: "shape attn = N # H # W # rest"
    and sr: "shape r_weight = r0 # P # rrest"
    and pos: "0 < B * (P * W)"
    and dvd: "(N * (W * prod_list rest)) mod (B * (P * W)) = 0"
    and sq: "isqrt (P * W) * isqrt (P * W) = P * W"
    and big: "100 \<le> B"
    and ind: "B * batch_num s + 100 \<le> length d"
    and int: "100 \<le> length target"
  shows "fst (visualize C d target s) = None"
proof -
  note red = reduce_attention_eq [OF sa sr pos dvd, of "np_avg C"]
  then obtain a where a: "reduce_attention (np_avg C) attn r_weight B = Inr a"
    and sh: "shape a = [B, P * W]" and len: "length (data a) = B * (P * W)"
    by simp
  have wf: "wf_array a" using sh len by (simp add: wf_array_def)
  have rc: "read_cache C (cache s) = Inr (B, a)"
    using read_cache_eq [OF cx cr ci ca sx, of C] a by simp
  have sh': "shape a = [B, isqrt (P * W) * isqrt (P * W)]" using sh sq by simp
  have am: "\<exists>m. attention_map a i = Inr m" if "i < 100" for i
  proof -
    from that big have "i < B" by simp
    from attention_map_eq [OF sh' wf this] show ?thesis by blast
  qed
  have "\<forall>i \<in> set [0..<100]. B * batch_num s + i < length d \<and> i < length target
      \<and> (matches d target (B * batch_num s) i \<longrightarrow> (\<exists>m. attention_map a i = Inr m))"
    using ind int am by auto
  from draw_cells_total [OF this, of "[]" s] obtain cells where
    dc: "fst (draw_cells d target a (B * batch_num s) [0..<100] [] s) = Inr cells" by blast
  obtain s1 where dc': "draw_cells d target a (B * batch_num s) [0..<100] [] s = (Inr cells, s1)"
    using dc by (cases "draw_cells d target a (B * batch_num s) [0..<100] [] s") simp
  show ?thesis
    using rc dc' by (simp add: visualize_def Let_def savefig_def)
qed

lemma kernel_phase_frame:
  "cache (snd (kernel_phase C ori s)) = cache s
   \<and> batch_num (snd (kernel_phase C ori s)) = batch_num s
   \<and> dirs (snd (kernel_phase C ori s)) = dirs s"
  using kernel_figures_frame [of "named_parameters C" s]
  by (cases ori) (simp_all add: kernel_phase_def)

lemma kernel_phase_populated:
  "populated (eval_trace (snd (kernel_phase C ori s))) = populated (eval_trace s)"
proof (cases ori)
  case None
  then show ?thesis by (simp add: kernel_phase_def)
next
  case (Some d)
  from kernel_figures_trace [of "named_parameters C" s] obtain sizes where
    "eval_trace (snd (kernel_figures (named_parameters C) s)) =
       eval_trace s @ map (\<lambda>sz. SaveFig kernel_path (KernelGrid sz)) sizes" by blast
  with Some show ?thesis by (simp add: kernel_phase_def)
qed

lemma eval_batch_untriggered:
  assumes "\<not> triggered ori (images, target)"
  shows "fst (eval_batch C ori (images, target) s) = None"
    and "eval_trace (snd (eval_batch C ori (images, target) s)) = eval_trace s @ [CacheClear, RunModel]"
    and "batch_num (snd (eval_batch C ori (images, target) s)) = batch_num s"
    and "dirs (snd (eval_batch C ori (images, target) s)) = dirs s"
  using assms by (simp_all add: eval_batch_skip)

lemma eval_loop_untriggered:
  "\<forall>b \<in> set bs. \<not> triggered ori b \<Longrightarrow>
   fst (eval_loop C ori bs s) = None
   \<and> populated (eval_trace (snd (eval_loop C ori bs s))) = populated (eval_trace s)"
proof (induction bs arbitrary: s)
  case Nil
  then show ?case by simp
next
  case (Cons b bs)
  obtain images target where b: "b = (images, target)" by (cases b)
  from Cons.prems b have nt: "\<not> triggered ori (images, target)" by simp
  obtain r s1 where st: "eval_batch C ori (images, target) s = (r, s1)"
    by (cases "eval_batch C ori (images, target) s")
  have r: "r = None" and t: "eval_trace s1 = eval_trace s @ [CacheClear, RunModel]"
    using eval_batch_untriggered [OF nt, of C s] st by simp_all
  from Cons.prems have "\<forall>b \<in> set bs. \<not> triggered ori b" by simp
  from Cons.IH [OF this, of s1] show ?case
    using b st r t by simp
qed

lemma evaluate_small_batches:
  assumes "\<forall>b \<in> set dl. length (snd b) < 100"
  shows "populated (eval_trace (snd (evaluate C dl ori s))) = populated (eval_trace s)"
proof -
  obtain k s1 where kp: "kernel_phase C ori (log_call SetFont s) = (k, s1)"
    by (cases "kernel_phase C ori (log_call SetFont s)")
  have p1: "populated (eval_trace s1) = populated (eval_trace s)"
    using kernel_phase_populated [of C ori "log_call SetFont s"] kp by simp
  show ?thesis
  proof (cases k)
    case (Some e)
    with kp p1 show ?thesis by (simp add: evaluate_unfold)
  next
    case None
    have "\<forall>b \<in> set dl. \<not> triggered ori b"
      using assms by (auto simp: triggered_def)
    from eval_loop_untriggered [OF this, of C "loop_start s1"]
    have l: "fst (eval_loop C ori dl (loop_start s1)) = None"
      and p2: "populated (eval_trace (snd (eval_loop C ori dl (loop_start s1)))) = populated (eval_trace s1)"
      by (simp_all add: loop_start_def)
    obtain s3 where lp: "eval_loop C ori dl (loop_start s1) = (None, s3)"
      using l by (cases "eval_loop C ori dl (loop_start s1)") simp
    show ?thesis
      using kp None lp p1 p2 by (simp add: evaluate_unfold)
  qed
qed

lemma eval_batch_figure:
  assumes ori: "ori = Some d" and big: "100 \<le> length target"
    and ok: "fst (eval_batch C ori (images, target) s) = None"
  shows "\<exists>B a. read_cache C (capture C images Map.empty) = Inr (B, a)
     \<and> (\<forall>i < 100. B * batch_num s + i < length d)
     \<and> eval_trace (snd (eval_batch C ori (images, target) s)) =
         eval_trace s @ [CacheClear, RunModel]
           @ figure_events (''out/visual'' \<in> dirs s) (B * batch_num s) (batch_num s)
               (map (drawn_cell d a (B * batch_num s)) (filter (matches d target (B * batch_num s)) [0..<100]))
     \<and> batch_num (snd (eval_batch C ori (images, target) s)) = batch_num s + 1"
proof -
  obtain r s1 where v: "visualize C d target (forward_pass C images s) = (r, s1)"
    by (cases "visualize C d target (forward_pass C images s)")
  with ok ori big have r: "r = None" by (cases r) (simp_all add: eval_batch_viz)
  from visualize_None [OF v [unfolded r]] obtain B a where
    rc: "read_cache C (cache (forward_pass C images s)) = Inr (B, a)"
    and rng: "\<forall>i < 100. B * batch_num (forward_pass C images s) + i < length d \<and> i < length target"
    and t: "eval_trace s1 = eval_trace (forward_pass C images s)
          @ figure_events (''out/visual'' \<in> dirs (forward_pass C images s))
              (B * batch_num (forward_pass C images s)) (batch_num (forward_pass C images s))
              (map (drawn_cell d a (B * batch_num (forward_pass C images s)))
                 (filter (matches d target (B * batch_num (forward_pass C images s))) [0..<100]))"
    and n: "batch_num s1 = batch_num (forward_pass C images s) + 1"
    by blast
  have e: "eval_batch C ori (images, target) s =
      (None, s1\<lparr>eval_meters := recorded C (images, target) (eval_meters s)\<rparr>)"
    using ori big v r by (simp add: eval_batch_viz)
  have "read_cache C (capture C images Map.empty) = Inr (B, a)"
    using rc by simp
  moreover have "\<forall>i < 100. B * batch_num s + i < length d"
    using rng by simp
  moreover have "eval_trace (snd (eval_batch C ori (images, target) s)) =
         eval_trace s @ [CacheClear, RunModel]
           @ figure_events (''out/visual'' \<in> dirs s) (B * batch_num s) (batch_num s)
               (map (drawn_cell d a (B * batch_num s)) (filter (matches d target (B * batch_num s)) [0..<100]))"
    using t by (simp add: e)
  moreover have "batch_num (snd (eval_batch C ori (images, target) s)) = batch_num s + 1"
    using n by (simp add: e)
  ultimately show ?thesis by blast
qed

lemma eval_batch_completes:
  assumes cx: "cache_first (capture C images Map.empty) ''Block.local_images.images'' = Inr x"
    and cr: "cache_first (capture C images Map.empty) ''Block.local_r_weight.r_weight'' = Inr r_weight"
    and ci: "cache_first (capture C images Map.empty) ''Block.local_r_idx.r_idx'' = Inr r_idx"
    and ca: "cache_first (capture C images Map.empty) ''Block.local_attn_weight.attn_weight'' = Inr attn"
    and sx: "shape x = B # xrest"
    and sa: "shape attn = N # H # W # rest"
    and sr: "shape r_weight = r0 # P # rrest"
    and pos: "0 < B * (P * W)"
    and dvd: "(N * (W * prod_list rest)) mod (B * (P * W)) = 0"
    and sq: "isqrt (P * W) * isqrt (P * W) = P * W"
    and big: "100 \<le> B"
    and ind: "B * batch_num s + 100 \<le> length d"
    and int: "100 \<le> length target"
  shows "fst (eval_batch C (Some d) (images, target) s) = None"
proof -
  let ?s = "forward_pass C images s"
  have "fst (visualize C d target ?s) = None"
    by (rule visualize_completes [where x = x and r_weight = r_weight and r_idx = r_idx and attn = attn
          and B = B and xrest = xrest and N = N and H = H and W = W and rest = rest and ?r0.0 = r0
          and P = P and rrest = rrest])
       (use assms in simp_all)
  then obtain s1 where "visualize C d target ?s = (None, s1)"
    by (cases "visualize C d target ?s") simp
  then show ?thesis
    using int by (simp add: eval_batch_viz)
qed

lemma filter_upt_le: "length (filter P [0..<n]) \<le> n"
  using length_filter_le [of P "[0..<n]"] by simp

lemma demo_kernel_run:
  "eval_trace (snd (evaluate demo_eval demo_eval_loader (Some [(0, 0)]) demo_eval_state)) =
     [SetFont, SaveFig ''out/visual/convolutional kernels in downsample 0.png'' (KernelGrid [2, 3, 4, 4]),
      ModelEval, CacheClear, RunModel, CacheClear, RunModel, TestSummary]"
  by (simp add: evaluate_unfold kernel_phase_def loop_start_def savefig_def demo_eval_defs)

lemma demo_kernel_crash:
  "evaluate demo_eval demo_eval_loader (Some [(0, 0)]) fresh_eval_state =
     (Inl FileNotFoundError, fresh_eval_state\<lparr>eval_trace := [SetFont]\<rparr>)"
  by (simp add: evaluate_unfold kernel_phase_def savefig_def demo_eval_def fresh_eval_state_def log_call_def)

lemma big_cache:
  "cache_first (capture big_eval big_images Map.empty) ''Block.local_images.images'' = Inr (big_array [150])"
  "cache_first (capture big_eval big_images Map.empty) ''Block.local_r_weight.r_weight'' = Inr (big_array [150, 1, 1])"
  "cache_first (capture big_eval big_images Map.empty) ''Block.local_r_idx.r_idx'' = Inr (big_array [150, 1, 1])"
  "cache_first (capture big_eval big_images Map.empty) ''Block.local_attn_weight.attn_weight''
     = Inr (big_array [150, 1, 1, 1])"
  by (simp_all add: cache_first_def big_eval_def demo_eval_def big_capture_def big_images_def)

lemma big_lengths: "length big_target = 150" "length big_ori = 150" "length big_images = 150"
  by (simp_all add: big_target_def big_ori_def big_images_def)

lemma big_state: "batch_num demo_eval_state = 0" "eval_trace demo_eval_state = []"
  "''out/visual'' \<in> dirs demo_eval_state"
  by (simp_all add: demo_eval_state_def)

lemma big_completes:
  "fst (eval_batch big_eval (Some big_ori) (big_images, big_target) demo_eval_state) = None"
  by (rule eval_batch_completes [where x = "big_array [150]" and r_weight = "big_array [150, 1, 1]"
        and r_idx = "big_array [150, 1, 1]" and attn = "big_array [150, 1, 1, 1]" and B = 150
        and xrest = "[]" and N = 150 and H = 1 and W = 1 and rest = "[1]" and ?r0.0 = 150 and P = 1
        and rrest = "[1]"])
     (simp_all add: big_cache big_lengths big_state big_array_def isqrt_def)

lemma big_matches: "i < 100 \<Longrightarrow> matches big_ori big_target 0 i = (i \<noteq> 0)"
  by (cases i) (simp_all add: matches_def big_ori_def big_target_def)

lemma big_matching: "filter (matches big_ori big_target 0) [0..<100] = [1..<100]"
proof -
  have "filter (matches big_ori big_target 0) [0..<100] = filter (\<lambda>i. i \<noteq> 0) [0..<100]"
    by (rule filter_cong) (simp_all add: big_matches)
  also have "\<dots> = filter (\<lambda>i. i \<noteq> 0) (0 # [1..<100])"
    by (simp add: upt_conv_Cons)
  also have "\<dots> = [1..<100]"
    by simp
  finally show ?thesis .
qed

lemma big_figure:
  "\<exists>a. read_cache big_eval (capture big_eval big_images Map.empty) = Inr (150, a)
     \<and> eval_trace (snd (eval_batch big_eval (Some big_ori) (big_images, big_target) demo_eval_state)) =
         [CacheClear, RunModel] @ figure_events True 0 0 (map (drawn_cell big_ori a 0) [1..<100])
     \<and> batch_num (snd (eval_batch big_eval (Some big_ori) (big_images, big_target) demo_eval_state)) = 1"
proof -
  from eval_batch_figure [OF refl _ big_completes] obtain B a where
    rc: "read_cache big_eval (capture big_eval big_images Map.empty) = Inr (B, a)"
    and t: "eval_trace (snd (eval_batch big_eval (Some big_ori) (big_images, big_target) demo_eval_state)) =
         eval_trace demo_eval_state @ [CacheClear, RunModel]
           @ figure_events (''out/visual'' \<in> dirs demo_eval_state) (B * batch_num demo_eval_state)
               (batch_num demo_eval_state)
               (map (drawn_cell big_ori a (B * batch_num demo_eval_state))
                  (filter (matches big_ori big_target (B * batch_num demo_eval_state)) [0..<100]))"
    and n: "batch_num (snd (eval_batch big_eval (Some big_ori) (big_images, big_target) demo_eval_state))
         = batch_num demo_eval_state + 1"
    by (auto simp: big_lengths)
  from read_cache_batch_size [OF rc] have B: "B = 150"
    by (simp add: big_cache big_array_def shape_at_def py_nth_def)
  show ?thesis
    using rc t n unfolding B by (simp add: big_state big_matching)
qed

text \<open>
  Claim C10. With a reference to the original dataset and a model that has the parameter
  \<open>downsample_layers.0.0.weight\<close>, the figure of the convolution kernels is saved
  before any batch when the directory \<open>out/visual\<close> exists, although no batch has 100
  samples. When the directory does not exist, the evaluation ends with
  \<open>FileNotFoundError\<close> before any batch and no figure is written: this path
  saves without making the directory, which the attention figure path does.
\<close>

theorem kernel_figure_without_directory:
  "evaluate demo_eval demo_eval_loader (Some [(0, 0)]) fresh_eval_state =
     (Inl FileNotFoundError, fresh_eval_state\<lparr>eval_trace := [SetFont]\<rparr>)
   \<and> saved_paths (eval_trace (snd (evaluate demo_eval demo_eval_loader (Some [(0, 0)]) fresh_eval_state))) = []
   \<and> saved_paths (eval_trace (snd (evaluate demo_eval demo_eval_loader (Some [(0, 0)]) demo_eval_state)))
       = [''out/visual/convolutional kernels in downsample 0.png'']"
  unfolding demo_kernel_run demo_kernel_crash by simp

text \<open>
  Claim C5. A batch of at least 100 samples that completes with a reference to the
  original dataset fetches, for the local indices 0 to 99 in order, the items at
  \<open>batch_size * batch_num + i\<close>, where \<open>batch_size\<close> is the first dimension of the
  captured images; the cells of the saved figure are those of the indices whose fetched
  label equals the target at the index; and the batch counter advances by one. A batch that
  skips the branch leaves the counter as it is. An evaluation that completes ends with the
  counter at the number of batches that took the branch, so it started at 0.
\<close>

theorem original_image_index:
  "(100 \<le> length target \<longrightarrow> fst (eval_batch C (Some d) (images, target) s) = None \<longrightarrow>
      (\<exists>x B a. cache_first (capture C images Map.empty) ''Block.local_images.images'' = Inr x
         \<and> shape_at x 0 = Inr B
         \<and> read_cache C (capture C images Map.empty) = Inr (B, a)
         \<and> (\<forall>i < 100. B * batch_num s + i < length d)
         \<and> eval_trace (snd (eval_batch C (Some d) (images, target) s)) =
             eval_trace s @ [CacheClear, RunModel]
               @ figure_events (''out/visual'' \<in> dirs s) (B * batch_num s) (batch_num s)
                   (map (drawn_cell d a (B * batch_num s))
                      (filter (matches d target (B * batch_num s)) [0..<100]))
         \<and> batch_num (snd (eval_batch C (Some d) (images, target) s)) = batch_num s + 1))
   \<and> (\<not> triggered ori (images, target) \<longrightarrow>
        batch_num (snd (eval_batch C ori (images, target) s)) = batch_num s)
   \<and> (evaluate C data_loader ori s0 = (Inr result, s1) \<longrightarrow>
        batch_num s1 = length (filter (triggered ori) data_loader))"
proof -
  have a: "\<exists>x B a. cache_first (capture C images Map.empty) ''Block.local_images.images'' = Inr x
         \<and> shape_at x 0 = Inr B
         \<and> read_cache C (capture C images Map.empty) = Inr (B, a)
         \<and> (\<forall>i < 100. B * batch_num s + i < length d)
         \<and> eval_trace (snd (eval_batch C (Some d) (images, target) s)) =
             eval_trace s @ [CacheClear, RunModel]
               @ figure_events (''out/visual'' \<in> dirs s) (B * batch_num s) (batch_num s)
                   (map (drawn_cell d a (B * batch_num s))
                      (filter (matches d target (B * batch_num s)) [0..<100]))
         \<and> batch_num (snd (eval_batch C (Some d) (images, target) s)) = batch_num s + 1"
    if big: "100 \<le> length target" and ok: "fst (eval_batch C (Some d) (images, target) s) = None"
  proof -
    from eval_batch_figure [OF refl big ok] obtain B a where
      rc: "read_cache C (capture C images Map.empty) = Inr (B, a)"
      and rest: "(\<forall>i < 100. B * batch_num s + i < length d)
         \<and> eval_trace (snd (eval_batch C (Some d) (images, target) s)) =
             eval_trace s @ [CacheClear, RunModel]
               @ figure_events (''out/visual'' \<in> dirs s) (B * batch_num s) (batch_num s)
                   (map (drawn_cell d a (B * batch_num s))
                      (filter (matches d target (B * batch_num s)) [0..<100]))
         \<and> batch_num (snd (eval_batch C (Some d) (images, target) s)) = batch_num s + 1"
      by blast
    from read_cache_batch_size [OF rc] obtain x where
      "cache_first (capture C images Map.empty) ''Block.local_images.images'' = Inr x"
      "shape_at x 0 = Inr B" by blast
    with rc rest show ?thesis by blast
  qed
  have b: "batch_num (snd (eval_batch C ori (images, target) s)) = batch_num s"
    if "\<not> triggered ori (images, target)"
    using eval_batch_untriggered(3) [OF that] .
  have c: "batch_num s1 = length (filter (triggered ori) data_loader)"
    if "evaluate C data_loader ori s0 = (Inr result, s1)"
    using evaluate_Inr [OF that] by simp
  show ?thesis
    using a b c by (intro conjI impI) assumption+
qed

theorem original_image_index_witness:
  "100 \<le> length big_target
   \<and> fst (eval_batch big_eval (Some big_ori) (big_images, big_target) demo_eval_state) = None
   \<and> (\<exists>a. eval_trace (snd (eval_batch big_eval (Some big_ori) (big_images, big_target) demo_eval_state)) =
          [CacheClear, RunModel] @ figure_events True 0 0 (map (drawn_cell big_ori a 0) [1..<100]))
   \<and> batch_num (snd (eval_batch big_eval (Some big_ori) (big_images, big_target) demo_eval_state)) = 1
   \<and> \<not> triggered (Some big_ori) ([7 :: nat], [0])
   \<and> batch_num (snd (eval_batch big_eval (Some big_ori) ([7], [0]) demo_eval_state)) = 0
   \<and> (\<exists>result s1. evaluate demo_eval demo_eval_loader None demo_eval_state = (Inr result, s1)
         \<and> batch_num s1 = 0)"
proof -
  have big: "100 \<le> length big_target" by (simp add: big_lengths)
  note inst = original_image_index [of big_target big_eval big_ori big_images demo_eval_state
      "Some big_ori" demo_eval_loader]
  from inst [THEN conjunct1, THEN mp, THEN mp, OF big big_completes] obtain x B a where
    x: "cache_first (capture big_eval big_images Map.empty) ''Block.local_images.images'' = Inr x"
    and B: "shape_at x 0 = Inr B"
    and t: "eval_trace (snd (eval_batch big_eval (Some big_ori) (big_images, big_target) demo_eval_state)) =
             eval_trace demo_eval_state @ [CacheClear, RunModel]
               @ figure_events (''out/visual'' \<in> dirs demo_eval_state) (B * batch_num demo_eval_state)
                   (batch_num demo_eval_state)
                   (map (drawn_cell big_ori a (B * batch_num demo_eval_state))
                      (filter (matches big_ori big_target (B * batch_num demo_eval_state)) [0..<100]))"
    and n: "batch_num (snd (eval_batch big_eval (Some big_ori) (big_images, big_target) demo_eval_state))
         = batch_num demo_eval_state + 1"
    by blast
  have t': "eval_trace (snd (eval_batch big_eval (Some big_ori) (big_images, big_target) demo_eval_state)) =
          [CacheClear, RunModel] @ figure_events True 0 0 (map (drawn_cell big_ori a 0) [1..<100])"
    using t by (simp add: big_state big_matching)
  have n': "batch_num (snd (eval_batch big_eval (Some big_ori) (big_images, big_target) demo_eval_state)) = 1"
    using n by (simp add: big_state)
  have nt: "\<not> triggered (Some big_ori) ([7 :: nat], [0])"
    by (simp add: triggered_def)
  note inst2 = original_image_index [where ori = "Some big_ori" and images = "[7]" and target = "[0]"
      and C = big_eval and s = demo_eval_state]
  have b: "batch_num (snd (eval_batch big_eval (Some big_ori) ([7], [0]) demo_eval_state)) = 0"
    using inst2 [THEN conjunct2, THEN conjunct1, THEN mp, OF nt] by (simp add: big_state)
  obtain result s1 where ev: "evaluate demo_eval demo_eval_loader None demo_eval_state = (Inr result, s1)"
    using demo_evaluate_completes by blast
  note inst3 = original_image_index [where ori = None and C = demo_eval and data_loader = demo_eval_loader
      and ?s0.0 = demo_eval_state and result = result and ?s1.0 = s1]
  have "batch_num s1 = 0"
    using inst3 [THEN conjunct2, THEN conjunct2, THEN mp, OF ev] by (simp add: triggered_def)
  with ev have c: "\<exists>result s1. evaluate demo_eval demo_eval_loader None demo_eval_state = (Inr result, s1)
         \<and> batch_num s1 = 0" by blast
  from t' have t'': "\<exists>a. eval_trace (snd (eval_batch big_eval (Some big_ori) (big_images, big_target) demo_eval_state)) =
          [CacheClear, RunModel] @ figure_events True 0 0 (map (drawn_cell big_ori a 0) [1..<100])"
    by (rule exI)
  show ?thesis
    using big big_completes t'' n' nt b c by (intro conjI) assumption+
qed

text \<open>
  Claim C3 as stated fails twice. With a reference to the original dataset and two batches
  of one and two samples, a figure is produced all the same: the figure of the
  convolution kernels. And a batch of 150 samples of which the first has a label other than
  its target completes with a figure of 99 populated cells, not 100.
\<close>

theorem attention_figure_trigger_counterexample:
  "demo_eval_loader = [([7], [0]), ([8, 9], [1, 0])]
   \<and> saved_paths (eval_trace (snd (evaluate demo_eval demo_eval_loader (Some [(0, 0)]) demo_eval_state)))
       = [''out/visual/convolutional kernels in downsample 0.png'']
   \<and> length big_images = 150 \<and> length big_target = 150
   \<and> fst (eval_batch big_eval (Some big_ori) (big_images, big_target) demo_eval_state) = None
   \<and> populated (eval_trace (snd (eval_batch big_eval (Some big_ori) (big_images, big_target) demo_eval_state)))
       = [99]"
proof -
  from big_figure obtain a where
    t: "eval_trace (snd (eval_batch big_eval (Some big_ori) (big_images, big_target) demo_eval_state)) =
         [CacheClear, RunModel] @ figure_events True 0 0 (map (drawn_cell big_ori a 0) [1..<100])"
    by blast
  have p: "populated (eval_trace (snd (eval_batch big_eval (Some big_ori) (big_images, big_target) demo_eval_state)))
       = [99]"
    unfolding t by simp
  have k: "saved_paths (eval_trace (snd (evaluate demo_eval demo_eval_loader (Some [(0, 0)]) demo_eval_state)))
       = [''out/visual/convolutional kernels in downsample 0.png'']"
    unfolding demo_kernel_run by simp
  show ?thesis
    using demo_eval_loader_def k big_lengths(3) big_lengths(1) big_completes p
    by (intro conjI) assumption+
qed

text \<open>
  Claim C3, amended. A batch without a reference to the original dataset, or with fewer
  than 100 samples, completes with the clearing of the cache and the run of the model as
  its only calls. When every batch has fewer than 100 samples, an evaluation saves no
  attention figure (the figure of the convolution kernels is not one). A batch of at least
  100 samples that completes with a reference saves one attention figure, whose populated
  cells are those of the indices below 100 at which the fetched label equals the target: at
  most 100 cells, the others blank. Such a batch does complete when the four captured
  arrays are present with dimensions that fit, the number of cells of a sample is a
  square, the captured batch holds at least 100 samples and the original dataset reaches
  100 items beyond the global index of the batch.
\<close>

theorem attention_figure_trigger:
  "(\<not> triggered ori (images, target) \<longrightarrow>
      fst (eval_batch C ori (images, target) s) = None
      \<and> eval_trace (snd (eval_batch C ori (images, target) s)) = eval_trace s @ [CacheClear, RunModel]
      \<and> batch_num (snd (eval_batch C ori (images, target) s)) = batch_num s)
   \<and> ((\<forall>b \<in> set data_loader. length (snd b) < 100) \<longrightarrow>
        populated (eval_trace (snd (evaluate C data_loader ori s))) = populated (eval_trace s))
   \<and> (100 \<le> length target \<longrightarrow> fst (eval_batch C (Some d) (images, target) s) = None \<longrightarrow>
        (\<exists>B a. read_cache C (capture C images Map.empty) = Inr (B, a)
           \<and> eval_trace (snd (eval_batch C (Some d) (images, target) s)) =
               eval_trace s @ [CacheClear, RunModel]
                 @ figure_events (''out/visual'' \<in> dirs s) (B * batch_num s) (batch_num s)
                     (map (drawn_cell d a (B * batch_num s))
                        (filter (matches d target (B * batch_num s)) [0..<100]))
           \<and> populated (eval_trace (snd (eval_batch C (Some d) (images, target) s))) =
               populated (eval_trace s) @ [length (filter (matches d target (B * batch_num s)) [0..<100])]
           \<and> length (filter (matches d target (B * batch_num s)) [0..<100]) \<le> 100))
   \<and> (cache_first (capture C images Map.empty) ''Block.local_images.images'' = Inr x \<longrightarrow>
        cache_first (capture C images Map.empty) ''Block.local_r_weight.r_weight'' = Inr r_weight \<longrightarrow>
        cache_first (capture C images Map.empty) ''Block.local_r_idx.r_idx'' = Inr r_idx \<longrightarrow>
        cache_first (capture C images Map.empty) ''Block.local_attn_weight.attn_weight'' = Inr attn \<longrightarrow>
        shape x = B # xrest \<longrightarrow> shape attn = N # H # W # rest \<longrightarrow> shape r_weight = r0 # P # rrest \<longrightarrow>
        0 < B * (P * W) \<longrightarrow> (N * (W * prod_list rest)) mod (B * (P * W)) = 0 \<longrightarrow>
        isqrt (P * W) * isqrt (P * W) = P * W \<longrightarrow> 100 \<le> B \<longrightarrow>
        B * batch_num s + 100 \<le> length d \<longrightarrow> 100 \<le> length target \<longrightarrow>
          fst (eval_batch C (Some d) (images, target) s) = None)"
proof -
  have a: "fst (eval_batch C ori (images, target) s) = None
      \<and> eval_trace (snd (eval_batch C ori (images, target) s)) = eval_trace s @ [CacheClear, RunModel]
      \<and> batch_num (snd (eval_batch C ori (images, target) s)) = batch_num s"
    if "\<not> triggered ori (images, target)"
    using eval_batch_untriggered [OF that, of C s] by simp
  have b: "populated (eval_trace (snd (evaluate C data_loader ori s))) = populated (eval_trace s)"
    if "\<forall>b \<in> set data_loader. length (snd b) < 100"
    using that by (rule evaluate_small_batches)
  have c: "\<exists>B a. read_cache C (capture C images Map.empty) = Inr (B, a)
           \<and> eval_trace (snd (eval_batch C (Some d) (images, target) s)) =
               eval_trace s @ [CacheClear, RunModel]
                 @ figure_events (''out/visual'' \<in> dirs s) (B * batch_num s) (batch_num s)
                     (map (drawn_cell d a (B * batch_num s))
                        (filter (matches d target (B * batch_num s)) [0..<100]))
           \<and> populated (eval_trace (snd (eval_batch C (Some d) (images, target) s))) =
               populated (eval_trace s) @ [length (filter (matches d target (B * batch_num s)) [0..<100])]
           \<and> length (filter (matches d target (B * batch_num s)) [0..<100]) \<le> 100"
    if big: "100 \<le> length target" and ok: "fst (eval_batch C (Some d) (images, target) s) = None"
  proof -
    from eval_batch_figure [OF refl big ok] obtain B a where
      rc: "read_cache C (capture C images Map.empty) = Inr (B, a)"
      and t: "eval_trace (snd (eval_batch C (Some d) (images, target) s)) =
               eval_trace s @ [CacheClear, RunModel]
                 @ figure_events (''out/visual'' \<in> dirs s) (B * batch_num s) (batch_num s)
                     (map (drawn_cell d a (B * batch_num s))
                        (filter (matches d target (B * batch_num s)) [0..<100]))"
      by blast
    have p: "populated (eval_trace (snd (eval_batch C (Some d) (images, target) s))) =
               populated (eval_trace s) @ [length (filter (matches d target (B * batch_num s)) [0..<100])]"
      unfolding t by simp
    have l: "length (filter (matches d target (B * batch_num s)) [0..<100]) \<le> 100"
      by (rule filter_upt_le)
    from rc t p l show ?thesis by blast
  qed
  have e: "fst (eval_batch C (Some d) (images, target) s) = None"
    if "cache_first (capture C images Map.empty) ''Block.local_images.images'' = Inr x"
      "cache_first (capture C images Map.empty) ''Block.local_r_weight.r_weight'' = Inr r_weight"
      "cache_first (capture C images Map.empty) ''Block.local_r_idx.r_idx'' = Inr r_idx"
      "cache_first (capture C images Map.empty) ''Block.local_attn_weight.attn_weight'' = Inr attn"
      "shape x = B # xrest" "shape attn = N # H # W # rest" "shape r_weight = r0 # P # rrest"
      "0 < B * (P * W)" "(N * (W * prod_list rest)) mod (B * (P * W)) = 0"
      "isqrt (P * W) * isqrt (P * W) = P * W" "100 \<le> B"
      "B * batch_num s + 100 \<le> length d" "100 \<le> length target"
    using that by (rule eval_batch_completes)
  show ?thesis
  proof (intro conjI)
    show "\<not> triggered ori (images, target) \<longrightarrow>
      fst (eval_batch C ori (images, target) s) = None
      \<and> eval_trace (snd (eval_batch C ori (images, target) s)) = eval_trace s @ [CacheClear, RunModel]
      \<and> batch_num (snd (eval_batch C ori (images, target) s)) = batch_num s"
      by (rule impI) (rule a)
  next
    show "(\<forall>b \<in> set data_loader. length (snd b) < 100) \<longrightarrow>
        populated (eval_trace (snd (evaluate C data_loader ori s))) = populated (eval_trace s)"
      by (rule impI) (rule b)
  next
    show "100 \<le> length target \<longrightarrow> fst (eval_batch C (Some d) (images, target) s) = None \<longrightarrow>
        (\<exists>B a. read_cache C (capture C images Map.empty) = Inr (B, a)
           \<and> eval_trace (snd (eval_batch C (Some d) (images, target) s)) =
               eval_trace s @ [CacheClear, RunModel]
                 @ figure_events (''out/visual'' \<in> dirs s) (B * batch_num s) (batch_num s)
                     (map (drawn_cell d a (B * batch_num s))
                        (filter (matches d target (B * batch_num s)) [0..<100]))
           \<and> populated (eval_trace (snd (eval_batch C (Some d) (images, target) s))) =
               populated (eval_trace s) @ [length (filter (matches d target (B * batch_num s)) [0..<100])]
           \<and> length (filter (matches d target (B * batch_num s)) [0..<100]) \<le> 100)"
      by (intro impI) (rule c)
  next
    show "cache_first (capture C images Map.empty) ''Block.local_images.images'' = Inr x \<longrightarrow>
        cache_first (capture C images Map.empty) ''Block.local_r_weight.r_weight'' = Inr r_weight \<longrightarrow>
        cache_first (capture C images Map.empty) ''Block.local_r_idx.r_idx'' = Inr r_idx \<longrightarrow>
        cache_first (capture C images Map.empty) ''Block.local_attn_weight.attn_weight'' = Inr attn \<longrightarrow>
        shape x = B # xrest \<longrightarrow> shape attn = N # H # W # rest \<longrightarrow> shape r_weight = r0 # P # rrest \<longrightarrow>
        0 < B * (P * W) \<longrightarrow> (N * (W * prod_list rest)) mod (B * (P * W)) = 0 \<longrightarrow>
        isqrt (P * W) * isqrt (P * W) = P * W \<longrightarrow> 100 \<le> B \<longrightarrow>
        B * batch_num s + 100 \<le> length d \<longrightarrow> 100 \<le> length target \<longrightarrow>
          fst (eval_batch C (Some d) (images, target) s) = None"
      by (intro impI) (rule e)
  qed
qed

theorem attention_figure_trigger_witness:
  "\<not> triggered (Some big_ori) ([7 :: nat], [0])
   \<and> eval_trace (snd (eval_batch big_eval (Some big_ori) ([7], [0]) demo_eval_state)) = [CacheClear, RunModel]
   \<and> demo_eval_loader = [([7], [0]), ([8, 9], [1, 0])]
   \<and> populated (eval_trace (snd (evaluate demo_eval demo_eval_loader (Some [(0, 0)]) demo_eval_state))) = []
   \<and> 100 \<le> length big_target
   \<and> fst (eval_batch big_eval (Some big_ori) (big_images, big_target) demo_eval_state) = None
   \<and> populated (eval_trace (snd (eval_batch big_eval (Some big_ori) (big_images, big_target) demo_eval_state)))
       = [99]"
proof -
  have nt: "\<not> triggered (Some big_ori) ([7 :: nat], [0])"
    by (simp add: triggered_def)
  note i1 = attention_figure_trigger [where ori = "Some big_ori" and images = "[7]" and target = "[0]"
      and C = big_eval and s = demo_eval_state]
  have w1: "eval_trace (snd (eval_batch big_eval (Some big_ori) ([7], [0]) demo_eval_state)) = [CacheClear, RunModel]"
    using i1 [THEN conjunct1, THEN mp, OF nt] by (simp add: big_state)
  have small: "\<forall>b \<in> set demo_eval_loader. length (snd b) < 100"
    by (simp add: demo_eval_loader_def)
  note i2 = attention_figure_trigger [where data_loader = demo_eval_loader and C = demo_eval
      and ori = "Some [(0, 0)]" and s = demo_eval_state]
  have w2: "populated (eval_trace (snd (evaluate demo_eval demo_eval_loader (Some [(0, 0)]) demo_eval_state))) = []"
    using i2 [THEN conjunct2, THEN conjunct1, THEN mp, OF small] by (simp add: big_state)
  have big: "100 \<le> length big_target" by (simp add: big_lengths)
  note i3 = attention_figure_trigger [where C = big_eval and d = big_ori and images = big_images
      and target = big_target and s = demo_eval_state and x = "big_array [150]"
      and r_weight = "big_array [150, 1, 1]" and r_idx = "big_array [150, 1, 1]"
      and attn = "big_array [150, 1, 1, 1]" and B = 150 and xrest = "[]" and N = 150 and H = 1 and W = 1
      and rest = "[1]" and ?r0.0 = 150 and P = 1 and rrest = "[1]"]
  have ok: "fst (eval_batch big_eval (Some big_ori) (big_images, big_target) demo_eval_state) = None"
    using i3 [THEN conjunct2, THEN conjunct2, THEN conjunct2]
    by (simp add: big_cache big_lengths big_state big_array_def isqrt_def)
  from i3 [THEN conjunct2, THEN conjunct2, THEN conjunct1, THEN mp, THEN mp, OF big ok] obtain B a where
    rc: "read_cache big_eval (capture big_eval big_images Map.empty) = Inr (B, a)"
    and p: "populated (eval_trace (snd (eval_batch big_eval (Some big_ori) (big_images, big_target) demo_eval_state))) =
               populated (eval_trace demo_eval_state)
                 @ [length (filter (matches big_ori big_target (B * batch_num demo_eval_state)) [0..<100])]"
    by blast
  have w3: "populated (eval_trace (snd (eval_batch big_eval (Some big_ori) (big_images, big_target) demo_eval_state)))
       = [99]"
    unfolding p by (simp add: big_state big_matching)
  show ?thesis
    using nt w1 demo_eval_loader_def w2 big ok w3 by (intro conjI) assumption+
qed

end
